(* ===== verification/Prelude.thy ===== *)
theory Prelude
  imports Complex_Main "HOL-Library.Multiset" "HOL-Library.Sublist"
begin

text \<open>
  Shared vocabulary of the development: the exceptions a JavaScript expression of the web UI can
  raise, the result type of the operations that may raise one, and the list facts that the
  component theories use.  Nothing here models a particular source file.
\<close>

named_theorems js_simps \<open>evaluation rules of the JavaScript primitives\<close>

section \<open>Exceptions as values\<close>

text \<open>
  The only exceptions the modelled code can raise by itself: a property read on \<open>undefined\<close> or
  \<open>null\<close> and an invalid URL are both a \<open>TypeError\<close>, malformed JSON text is a \<open>SyntaxError\<close>.
\<close>

datatype exn = TypeError | SyntaxError

type_synonym 'a res = "exn + 'a"

fun res_bind :: "exn + 'a \<Rightarrow> ('a \<Rightarrow> exn + 'b) \<Rightarrow> exn + 'b" where
  "res_bind (Inl e) f = Inl e"
| "res_bind (Inr x) f = f x"

fun res_map :: "('a \<Rightarrow> 'b) \<Rightarrow> exn + 'a \<Rightarrow> exn + 'b" where
  "res_map f (Inl e) = Inl e"
| "res_map f (Inr x) = Inr (f x)"

text \<open>Evaluation of a list of expressions from left to right, as \<open>map\<close> with a raising callback.\<close>

fun res_mapM :: "('a \<Rightarrow> exn + 'b) \<Rightarrow> 'a list \<Rightarrow> exn + 'b list" where
  "res_mapM f [] = Inr []"
| "res_mapM f (x # xs) = res_bind (f x) (\<lambda>y. res_map ((#) y) (res_mapM f xs))"

text \<open>\<open>filter\<close> with a raising callback.\<close>

fun res_filter :: "('a \<Rightarrow> exn + bool) \<Rightarrow> 'a list \<Rightarrow> exn + 'a list" where
  "res_filter f [] = Inr []"
| "res_filter f (x # xs) = res_bind (f x) (\<lambda>b. res_map (\<lambda>ys. if b then x # ys else ys) (res_filter f xs))"

definition res_of_option :: "exn \<Rightarrow> 'a option \<Rightarrow> exn + 'a" where
  "res_of_option e v = (case v of None \<Rightarrow> Inl e | Some x \<Rightarrow> Inr x)"

lemma res_of_option_simps [simp]:
  "res_of_option e None = Inl e"
  "res_of_option e (Some x) = Inr x"
  by (simp_all add: res_of_option_def)

lemma res_bind_eq_Inr [simp]:
  "res_bind m f = Inr y \<longleftrightarrow> (\<exists>x. m = Inr x \<and> f x = Inr y)"
  by (cases m) auto

lemma res_map_eq_Inr [simp]:
  "res_map f m = Inr y \<longleftrightarrow> (\<exists>x. m = Inr x \<and> y = f x)"
  by (cases m) auto

lemma res_mapM_Inr:
  "(\<And>x. x \<in> set xs \<Longrightarrow> f x = Inr (g x)) \<Longrightarrow> res_mapM f xs = Inr (map g xs)"
  by (induction xs) auto

lemma res_mapM_ex:
  "(\<And>x. x \<in> set xs \<Longrightarrow> \<exists>y. f x = Inr y \<and> P x y) \<Longrightarrow> \<exists>ys. res_mapM f xs = Inr ys \<and> list_all2 P xs ys"
proof (induction xs)
  case (Cons x xs)
  then obtain y ys where "f x = Inr y" "P x y" "res_mapM f xs = Inr ys" "list_all2 P xs ys" by fastforce
  then show ?case by (intro exI [of _ "y # ys"]) simp
qed simp

lemma res_mapM_length: "res_mapM f xs = Inr ys \<Longrightarrow> length ys = length xs"
  by (induction xs arbitrary: ys) auto

lemma res_filter_Inr:
  "(\<And>x. x \<in> set xs \<Longrightarrow> f x = Inr (g x)) \<Longrightarrow> res_filter f xs = Inr (filter g xs)"
  by (induction xs) auto

section \<open>Lists\<close>

text \<open>The last \<open>n\<close> elements of a list: what \<open>slice\<close> with a negative start keeps.\<close>

definition takelast :: "nat \<Rightarrow> 'a list \<Rightarrow> 'a list" where
  "takelast n xs = drop (length xs - n) xs"

lemma length_takelast [simp]: "length (takelast n xs) = min n (length xs)"
  by (auto simp: takelast_def)

lemma takelast_all: "length xs \<le> n \<Longrightarrow> takelast n xs = xs"
  by (simp add: takelast_def)

lemma takelast_append1:
  "takelast (Suc n) (xs @ [x]) = takelast n xs @ [x]"
  by (simp add: takelast_def Suc_diff_le)

lemma takelast_takelast:
  "m \<le> n \<Longrightarrow> takelast m (takelast n xs) = takelast m xs"
  by (cases "length xs \<le> n") (auto simp: takelast_def)

lemma takelast_suffix: "suffix (takelast n xs) xs"
  by (simp add: takelast_def suffix_drop)

lemma distinct_map_filter_take:
  "distinct (map f xs) \<Longrightarrow> distinct (map f (take n (filter P xs)))"
  by (metis distinct_map_filter distinct_take take_map)

lemma abs_diff_scale:
  fixes x y p :: "'a::linordered_idom"
  assumes "0 < p"
  shows "\<bar>x - y\<bar> * p = \<bar>x * p - y * p\<bar>"
  using assms by (metis abs_mult abs_of_pos left_diff_distrib)

end
