(* ===== verification/JsDouble.thy ===== *)
theory JsDouble
  imports Prelude "HOL-Library.Log_Nat"
begin

text \<open>
  Rounding of exact rational results to IEEE~754 doubles, the arithmetic of JavaScript numbers: to
  nearest with ties to even, 53 significant bits, gradual underflow below \<open>2^-1022\<close>.  The theory
  shows that rounding is monotone, odd, idempotent and the identity on representable numbers
  (integers of at most 53 bits times a power of two), bounds its error, and shows that the
  difference of two doubles rounds to zero only when they are equal.
\<close>

section \<open>Rounding a rational to a double\<close>

text \<open>The binary exponent of a non-zero rational: \<open>2^e \<le> |x| < 2^(e+1)\<close>.\<close>

definition expo :: "rat \<Rightarrow> int" where
  "expo x = (let (p, q) = quotient_of \<bar>x\<bar>; e = bitlen p - bitlen q
             in if 2 powi e \<le> \<bar>x\<bar> then e else e - 1)"

text \<open>The distance of neighbouring doubles around \<open>x\<close>.\<close>

definition quantum :: "rat \<Rightarrow> rat" where
  "quantum x = 2 powi (max (expo x - 52) (-1074))"

definition round_even :: "rat \<Rightarrow> int" where
  "round_even x = (let f = \<lfloor>x\<rfloor>; d = x - of_int f
     in if d < 1/2 then f else if d > 1/2 then f + 1 else if even f then f else f + 1)"

definition rnd :: "rat \<Rightarrow> rat" where
  "rnd x = (if x = 0 then 0 else of_int (round_even (x / quantum x)) * quantum x)"

lemma powi_less_iff [simp]: "(2::rat) powi a < 2 powi b \<longleftrightarrow> a < b"
  by (metis linorder_not_less one_less_numeral_iff power_int_increasing power_int_strict_increasing
      semiring_norm(76) one_le_numeral)

lemma powi_le_iff [simp]: "(2::rat) powi a \<le> 2 powi b \<longleftrightarrow> a \<le> b"
  by (metis linorder_not_less powi_less_iff)

lemma bitlen_powi:
  assumes "p > 0"
  shows "(2::rat) powi (bitlen p - 1) \<le> of_int p" and "of_int p < (2::rat) powi (bitlen p)"
proof -
  have b: "2 ^ nat (bitlen p - 1) \<le> p \<and> p < 2 ^ nat (bitlen p)"
    using bitlen_bounds [OF assms] by simp
  have pos: "bitlen p > 0"
    using assms bitlen_eq_zero_iff [of p] bitlen_nonneg [of p] by linarith
  have "(2::rat) powi (bitlen p - 1) = of_int (2 ^ nat (bitlen p - 1))"
    using pos by (simp add: power_int_def)
  also have "\<dots> \<le> of_int p" using b by linarith
  finally show "(2::rat) powi (bitlen p - 1) \<le> of_int p" .
  have "of_int p < (of_int (2 ^ nat (bitlen p)) :: rat)" using b by linarith
  also have "\<dots> = (2::rat) powi (bitlen p)" using pos by (simp add: power_int_def)
  finally show "of_int p < (2::rat) powi (bitlen p)" .
qed

lemma expo_bounds:
  assumes "x \<noteq> 0"
  shows "2 powi (expo x) \<le> \<bar>x\<bar>" and "\<bar>x\<bar> < 2 powi (expo x + 1)"
proof -
  obtain p q where pq: "quotient_of \<bar>x\<bar> = (p, q)" by fastforce
  have q: "q > 0" using quotient_of_denom_pos [OF pq] .
  have x: "\<bar>x\<bar> = of_int p / of_int q" using quotient_of_div [OF pq] .
  have "0 < \<bar>x\<bar>" using assms by simp
  then have p: "p > 0" using q unfolding x by (simp add: zero_less_divide_iff)
  define e where "e = bitlen p - bitlen q"
  have up: "\<bar>x\<bar> < 2 powi (e + 1)"
  proof -
    have "\<bar>x\<bar> < 2 powi (bitlen p) / of_int q"
      unfolding x using bitlen_powi(2) [OF p] q by (simp add: divide_strict_right_mono)
    also have "\<dots> \<le> 2 powi (bitlen p) / 2 powi (bitlen q - 1)"
      using bitlen_powi(1) [OF q] by (intro divide_left_mono) (auto simp: q)
    also have "\<dots> = 2 powi (e + 1)"
      by (simp add: e_def power_int_diff [symmetric] algebra_simps)
    finally show ?thesis .
  qed
  have lo: "2 powi (e - 1) \<le> \<bar>x\<bar>"
  proof -
    have "2 powi (e - 1) = (2::rat) powi (bitlen p - 1) / 2 powi (bitlen q)"
      by (simp add: e_def power_int_diff [symmetric] algebra_simps)
    also have "\<dots> \<le> of_int p / 2 powi (bitlen q)"
      using bitlen_powi(1) [OF p] by (simp add: divide_right_mono)
    also have "\<dots> \<le> \<bar>x\<bar>"
      unfolding x using bitlen_powi(2) [OF q] p q by (intro divide_left_mono) auto
    finally show ?thesis .
  qed
  show "2 powi (expo x) \<le> \<bar>x\<bar>" and "\<bar>x\<bar> < 2 powi (expo x + 1)"
    using up lo by (simp_all add: expo_def pq Let_def e_def [symmetric])
qed

lemma expo_unique:
  assumes "2 powi e \<le> \<bar>x\<bar>" and "\<bar>x\<bar> < 2 powi (e + 1)"
  shows "expo x = e"
proof -
  have "(0::rat) < 2 powi e" by simp
  with assms(1) have "x \<noteq> 0" by (metis abs_zero linorder_not_less)
  from expo_bounds [OF this] assms have "(2::rat) powi e < 2 powi (expo x + 1)"
    and "(2::rat) powi (expo x) < 2 powi (e + 1)" by linarith+
  then show ?thesis by simp
qed

lemma expo_minus [simp]: "expo (- x) = expo x"
  by (simp add: expo_def)

lemma quantum_minus [simp]: "quantum (- x) = quantum x"
  by (simp add: quantum_def)

lemma quantum_pos [simp]: "quantum x > 0"
  by (simp add: quantum_def)

lemma quantum_nonneg [simp]: "quantum x \<ge> 0" and quantum_nz [simp]: "quantum x \<noteq> 0"
  using quantum_pos [of x] by (simp_all add: less_imp_le less_imp_neq [symmetric] del: quantum_pos)

lemma powi_add: "(2::rat) powi (a + b) = 2 powi a * 2 powi b"
  by (simp add: power_int_add)

lemma powi_53: "2 ^ 53 * (2::rat) powi k = 2 powi (53 + k)"
  by (simp add: power_int_add)

lemma expo_mono:
  assumes "x \<noteq> 0" and "\<bar>x\<bar> \<le> \<bar>y\<bar>"
  shows "expo x \<le> expo y"
proof -
  have "y \<noteq> 0" using assms by auto
  then have "(2::rat) powi (expo x) < 2 powi (expo y + 1)"
    using expo_bounds(1) [OF assms(1)] expo_bounds(2) [of y] assms(2) by linarith
  then show ?thesis by simp
qed

lemma round_even_of_int [simp]: "round_even (of_int n) = n"
  by (simp add: round_even_def)

lemma round_even_error: "\<bar>of_int (round_even x) - x\<bar> \<le> 1/2"
proof -
  have "of_int \<lfloor>x\<rfloor> \<le> x" and "x < of_int \<lfloor>x\<rfloor> + 1" by linarith+
  then show ?thesis by (auto simp: round_even_def Let_def abs_le_iff)
qed

lemma round_even_mono:
  assumes "x \<le> y"
  shows "round_even x \<le> round_even y"
proof (cases "\<lfloor>x\<rfloor> = \<lfloor>y\<rfloor>")
  case True
  with assms show ?thesis by (auto simp: round_even_def Let_def)
next
  case False
  with floor_mono [OF assms] have "\<lfloor>x\<rfloor> + 1 \<le> \<lfloor>y\<rfloor>" by linarith
  moreover have "round_even x \<le> \<lfloor>x\<rfloor> + 1" and "\<lfloor>y\<rfloor> \<le> round_even y"
    by (auto simp: round_even_def Let_def)
  ultimately show ?thesis by linarith
qed

lemma round_even_minus: "round_even (- x) = - round_even x"
proof (cases "x \<in> \<int>")
  case True
  then obtain n where "x = of_int n" by (auto elim: Ints_cases)
  then show ?thesis using round_even_of_int [of "- n"] by simp
next
  case False
  then have f: "\<lfloor>- x\<rfloor> = - \<lfloor>x\<rfloor> - 1"
    by (simp add: floor_minus ceiling_altdef) (metis Ints_of_int)
  have "x \<noteq> of_int \<lfloor>x\<rfloor>" using False by (metis Ints_of_int)
  then show ?thesis
    unfolding round_even_def Let_def f by (simp add: field_simps)
qed


lemma rnd_0 [simp]: "rnd 0 = 0"
  by (simp add: rnd_def)

lemma rnd_minus [simp]: "rnd (- x) = - rnd x"
  by (simp add: rnd_def round_even_minus)

text \<open>A multiple of the quantum bounds the rounded value where it bounds the exact one.\<close>

lemma rnd_le_grid:
  assumes "x \<le> of_int m * quantum x"
  shows "rnd x \<le> of_int m * quantum x"
proof (cases "x = 0")
  case False
  have "x / quantum x \<le> of_int m" using assms by (simp add: divide_le_eq)
  then have "round_even (x / quantum x) \<le> m"
    using round_even_mono [of "x / quantum x" "of_int m"] by simp
  then show ?thesis using False by (simp add: rnd_def)
qed (use assms in simp)

lemma rnd_ge_grid:
  assumes "of_int m * quantum x \<le> x"
  shows "of_int m * quantum x \<le> rnd x"
  using rnd_le_grid [of "- x" "- m"] assms by simp

lemma powi_grid:
  assumes "max (expo x - 52) (-1074) \<le> k"
  shows "\<exists>m. (2::rat) powi k = of_int m * quantum x \<and> m = 2 ^ nat (k - max (expo x - 52) (-1074))"
  using assms by (simp add: quantum_def power_int_nonneg_exp [symmetric] power_int_add [symmetric])

lemma rnd_mono_pos:
  assumes "0 < x" and "x \<le> y"
  shows "rnd x \<le> rnd y"
proof -
  have e: "expo x \<le> expo y" using assms by (intro expo_mono) auto
  show ?thesis
  proof (cases "quantum x = quantum y")
    case True
    have "x / quantum x \<le> y / quantum x" using assms(2) by (simp add: divide_right_mono)
    with True round_even_mono assms show ?thesis by (simp add: rnd_def mult_right_mono)
  next
    case False
    with e have lt: "max (expo x - 52) (-1074) < max (expo y - 52) (-1074)"
      unfolding quantum_def by (metis max.mono diff_right_mono order_le_less order_refl)
    then have gx: "max (expo x - 52) (-1074) \<le> expo y" and gy: "max (expo y - 52) (-1074) \<le> expo y"
      and lte: "expo x + 1 \<le> expo y" by auto
    obtain m where m: "(2::rat) powi (expo y) = of_int m * quantum x" using powi_grid [OF gx] by blast
    obtain n where n: "(2::rat) powi (expo y) = of_int n * quantum y" using powi_grid [OF gy] by blast
    have "x < 2 powi (expo x + 1)" using expo_bounds(2) [of x] assms by simp
    also have "\<dots> \<le> 2 powi (expo y)" using lte by simp
    finally have "rnd x \<le> 2 powi (expo y)" unfolding m by (intro rnd_le_grid) simp
    also have "\<dots> \<le> rnd y"
      unfolding n by (rule rnd_ge_grid) (use expo_bounds(1) [of y] assms n in simp)
    finally show ?thesis .
  qed
qed

lemma rnd_nonneg: "0 \<le> x \<Longrightarrow> 0 \<le> rnd x"
  using rnd_ge_grid [of 0 x] by simp

theorem rnd_mono: "x \<le> y \<Longrightarrow> rnd x \<le> rnd y"
proof -
  assume xy: "x \<le> y"
  consider "0 < x" | "x \<le> 0" "0 \<le> y" | "y < 0" by linarith
  then show ?thesis
  proof cases
    case 1
    then show ?thesis using xy by (rule rnd_mono_pos)
  next
    case 2
    then show ?thesis using rnd_nonneg [of y] rnd_nonneg [of "- x"] by simp
  next
    case 3
    then show ?thesis using rnd_mono_pos [of "- y" "- x"] xy by simp
  qed
qed

section \<open>Representable numbers\<close>

definition is_repr :: "rat \<Rightarrow> bool" where
  "is_repr r \<longleftrightarrow> rnd r = r"

lemma is_repr_dyadic_less:
  assumes "\<bar>m\<bar> < 2 ^ 53" and "-1074 \<le> k"
  shows "is_repr (of_int m * 2 powi k)"
proof (cases "m = 0")
  case False
  let ?r = "of_int m * (2::rat) powi k"
  have nz: "?r \<noteq> 0" using False by simp
  have "\<bar>?r\<bar> < 2 ^ 53 * 2 powi k"
  proof -
    have "\<bar>of_int m :: rat\<bar> < 2 ^ 53" using assms(1) by (simp only: of_int_abs [symmetric] of_int_less_numeral_power_cancel_iff)
    then show ?thesis by (simp add: abs_mult)
  qed
  also have "\<dots> = 2 powi (53 + k)" by (rule powi_53)
  finally have "(2::rat) powi (expo ?r) < 2 powi (53 + k)" using expo_bounds(1) [OF nz] by linarith
  then have "expo ?r \<le> k + 52" by simp
  then have "max (expo ?r - 52) (-1074) \<le> k" using assms(2) by simp
  from powi_grid [OF this] obtain j where j: "(2::rat) powi k = of_int j * quantum ?r" by blast
  then have "?r / quantum ?r = of_int (m * j)"
    by (metis mult.assoc nonzero_mult_div_cancel_right of_int_mult quantum_pos less_irrefl)
  then show ?thesis
    unfolding is_repr_def rnd_def using nz j by (simp only: round_even_of_int) simp
qed (simp add: is_repr_def)

theorem is_repr_dyadic:
  assumes "\<bar>m\<bar> \<le> 2 ^ 53" and "-1074 \<le> k"
  shows "is_repr (of_int m * 2 powi k)"
proof (cases "\<bar>m\<bar> < 2 ^ 53")
  case False
  with assms(1) have "m = sgn m * 2 ^ 53" by (auto simp: sgn_if)
  then have "of_int m * (2::rat) powi k = of_int (sgn m) * (2 ^ 53 * 2 powi k)"
    by (metis (no_types) mult.assoc of_int_mult of_int_numeral of_int_power)
  also have "2 ^ 53 * (2::rat) powi k = 2 powi (53 + k)" by (rule powi_53)
  finally have "of_int m * (2::rat) powi k = of_int (sgn m) * 2 powi (53 + k)" .
  moreover have "\<bar>sgn m\<bar> < 2 ^ 53" by (simp add: sgn_if)
  ultimately show ?thesis using is_repr_dyadic_less [of "sgn m" "53 + k"] assms(2) by simp
qed (use is_repr_dyadic_less assms in blast)

lemma is_repr_0 [simp]: "is_repr 0"
  by (simp add: is_repr_def)

lemma is_repr_minus [simp]: "is_repr (- r) \<longleftrightarrow> is_repr r"
  by (simp add: is_repr_def)

lemma is_repr_int: "\<bar>n\<bar> \<le> 2 ^ 53 \<Longrightarrow> is_repr (of_int n)"
  using is_repr_dyadic [of n 0] by simp

lemma is_repr_powi: "-1074 \<le> k \<Longrightarrow> is_repr (2 powi k)"
  using is_repr_dyadic [of 1 k] by simp

text \<open>Every rounded value is an integer of at most 53 bits times a power of two.\<close>

lemma rnd_dyadic:
  "\<exists>m. rnd x = of_int m * quantum x \<and> \<bar>m\<bar> \<le> 2 ^ 53"
proof (cases "x = 0")
  case False
  let ?q = "quantum x"
  have "\<bar>x\<bar> < 2 powi (expo x + 1)" using expo_bounds(2) [OF False] .
  also have "\<dots> \<le> 2 powi (53 + max (expo x - 52) (-1074))" by simp
  also have "\<dots> = 2 ^ 53 * ?q" unfolding quantum_def by (rule powi_53 [symmetric])
  finally have b: "\<bar>x\<bar> \<le> of_int (2 ^ 53) * ?q" by simp
  define m where "m = round_even (x / ?q)"
  have r: "rnd x = of_int m * ?q" using False by (simp add: rnd_def m_def)
  have "rnd x \<le> of_int (2 ^ 53) * ?q" using b by (intro rnd_le_grid) linarith
  moreover have "of_int (- (2 ^ 53)) * ?q \<le> rnd x" using b by (intro rnd_ge_grid) simp
  ultimately have "of_int m \<le> (of_int (2 ^ 53) :: rat)" and "of_int (- (2 ^ 53)) \<le> (of_int m :: rat)"
    unfolding r using quantum_pos [of x] by (metis mult_le_cancel_right linorder_not_less)+
  then have "m \<le> 2 ^ 53" and "- (2 ^ 53) \<le> m" by (simp_all only: of_int_le_iff)
  then show ?thesis using r by (intro exI [of _ m]) simp
qed (intro exI [of _ 0], simp)

theorem is_repr_rnd [simp]: "is_repr (rnd x)"
  using rnd_dyadic [of x] is_repr_dyadic unfolding quantum_def by force

lemma rnd_rnd [simp]: "rnd (rnd x) = rnd x"
  using is_repr_rnd by (simp add: is_repr_def)

lemma rnd_le_repr: "x \<le> y \<Longrightarrow> is_repr y \<Longrightarrow> rnd x \<le> y"
  using rnd_mono [of x y] by (simp add: is_repr_def)

lemma rnd_ge_repr: "y \<le> x \<Longrightarrow> is_repr y \<Longrightarrow> y \<le> rnd x"
  using rnd_mono [of y x] by (simp add: is_repr_def)

lemma is_reprE:
  assumes "is_repr r"
  obtains m where "r = of_int m * quantum r" and "\<bar>m\<bar> \<le> 2 ^ 53"
  using rnd_dyadic [of r] assms by (auto simp: is_repr_def)


section \<open>Rounding error and exact cases\<close>

lemma rnd_error: "\<bar>rnd x - x\<bar> \<le> quantum x / 2"
proof (cases "x = 0")
  case False
  have "rnd x - x = (of_int (round_even (x / quantum x)) - x / quantum x) * quantum x"
    using False by (simp add: rnd_def algebra_simps)
  then have "\<bar>rnd x - x\<bar> = \<bar>of_int (round_even (x / quantum x)) - x / quantum x\<bar> * quantum x"
    by (simp add: abs_mult)
  also have "\<dots> \<le> 1/2 * quantum x"
    by (intro mult_right_mono round_even_error) simp
  finally show ?thesis by simp
qed simp

text \<open>In the normal range the relative error is at most \<open>2^-53\<close>.\<close>

theorem rnd_relative_error:
  assumes "2 powi (-1022) \<le> \<bar>x\<bar>"
  shows "\<bar>rnd x - x\<bar> \<le> \<bar>x\<bar> / 2 ^ 53"
proof -
  have "(0::rat) < 2 powi (-1022)" by simp
  with assms have nz: "x \<noteq> 0" by (metis abs_zero linorder_not_less)
  have "(2::rat) powi (-1022) < 2 powi (expo x + 1)"
    using assms expo_bounds(2) [OF nz] by linarith
  then have "quantum x = 2 powi (expo x - 52)" by (simp add: quantum_def del: power_int_numeral_neg_numeral)
  moreover have "2 ^ 53 * (2::rat) powi (expo x - 52) = 2 * 2 powi (expo x)"
    using powi_53 [of "expo x - 52"] powi_add [of 1 "expo x"] by (simp add: algebra_simps)
  ultimately have "2 ^ 53 * (quantum x / 2) \<le> \<bar>x\<bar>" using expo_bounds(1) [OF nz] by simp
  then have "quantum x / 2 \<le> \<bar>x\<bar> / 2 ^ 53" by (simp add: field_simps)
  with rnd_error [of x] show ?thesis by linarith
qed

lemma powi_le_one: "k \<le> 0 \<Longrightarrow> (2::rat) powi k \<le> 1"
  using powi_le_iff [of k 0] by simp

corollary rnd_error_ge_one:
  assumes "1 \<le> x"
  shows "\<bar>rnd x - x\<bar> \<le> x / 2 ^ 53"
proof -
  have "2 powi (-1022) \<le> \<bar>x\<bar>"
    by (rule order_trans [OF powi_le_one]) (use assms in simp_all)
  from rnd_relative_error [OF this] assms show ?thesis by simp
qed

text \<open>Every double is a multiple of the least positive one, so differences of doubles are too.\<close>

lemma is_repr_multiple:
  assumes "is_repr r"
  obtains j where "r = of_int j * 2 powi (-1074)"
proof -
  obtain m where m: "r = of_int m * quantum r" using assms by (rule is_reprE)
  let ?k = "max (expo r - 52) (-1074)"
  have "quantum r = 2 powi (?k + 1074) * 2 powi (-1074)"
    unfolding quantum_def powi_add [symmetric] by simp
  also have "(2::rat) powi (?k + 1074) = of_int (2 ^ nat (?k + 1074))"
    by (simp add: power_int_nonneg_exp)
  finally have "r = of_int (m * 2 ^ nat (?k + 1074)) * 2 powi (-1074)"
    using m by (metis mult.assoc of_int_mult)
  then show ?thesis by (rule that)
qed

lemma rnd_pos_multiple:
  assumes "0 < of_int j * (2::rat) powi (-1074)"
  shows "0 < rnd (of_int j * 2 powi (-1074))"
proof -
  have "0 < j" using assms by (simp add: zero_less_mult_iff)
  then have "1 * 2 powi (-1074) \<le> of_int j * (2::rat) powi (-1074)"
    by (intro mult_right_mono) simp_all
  then have "(2::rat) powi (-1074) \<le> rnd (of_int j * 2 powi (-1074))"
    by (intro rnd_ge_repr is_repr_powi) simp_all
  moreover have "(0::rat) < 2 powi (-1074)" by (rule zero_less_power_int) simp
  ultimately show ?thesis by linarith
qed

theorem rnd_diff_pos:
  assumes "is_repr a" and "is_repr b"
  shows "0 < rnd (a - b) \<longleftrightarrow> b < a"
proof
  assume "b < a"
  obtain i where i: "a = of_int i * 2 powi (-1074)" using assms(1) by (rule is_repr_multiple)
  obtain j where j: "b = of_int j * 2 powi (-1074)" using assms(2) by (rule is_repr_multiple)
  have d: "a - b = of_int (i - j) * 2 powi (-1074)" unfolding i j by (simp only: of_int_diff left_diff_distrib)
  from \<open>b < a\<close> have "0 < of_int (i - j) * (2::rat) powi (-1074)" using d by linarith
  from rnd_pos_multiple [OF this] show "0 < rnd (a - b)" by (simp only: d)
next
  assume "0 < rnd (a - b)"
  then show "b < a" using rnd_mono [of "a - b" 0] by (metis diff_ge_0_iff_ge linorder_not_less
        rnd_0 diff_le_0_iff_le)
qed

corollary rnd_diff_neg:
  assumes "is_repr a" and "is_repr b"
  shows "rnd (a - b) < 0 \<longleftrightarrow> a < b"
proof -
  have "rnd (a - b) = - rnd (b - a)" using rnd_minus [of "b - a"] by simp
  then show ?thesis using rnd_diff_pos [OF assms(2,1)] by simp
qed

corollary rnd_diff_zero:
  assumes "is_repr a" and "is_repr b"
  shows "rnd (a - b) = 0 \<longleftrightarrow> a = b"
  using rnd_diff_pos [OF assms] rnd_diff_neg [OF assms] by (metis less_irrefl linorder_neqE rnd_0 right_minus_eq)

text \<open>Scaling by a power of two is exact as long as the result stays in the normal range.\<close>

theorem is_repr_scale:
  assumes "is_repr r" and "2 powi (k - 1022) \<le> \<bar>r\<bar>"
  shows "is_repr (r / 2 powi k)"
proof -
  obtain m where m: "r = of_int m * quantum r" and b: "\<bar>m\<bar> \<le> 2 ^ 53" using assms(1) by (rule is_reprE)
  have "(0::rat) < 2 powi (k - 1022)" by simp
  with assms(2) have nz: "r \<noteq> 0" by (metis abs_zero linorder_not_less)
  have "(2::rat) powi (k - 1022) < 2 powi (expo r + 1)" using assms(2) expo_bounds(2) [OF nz] by linarith
  then have e: "-1074 \<le> max (expo r - 52) (-1074) - k" by simp
  have "r / 2 powi k = of_int m * (quantum r / 2 powi k)" using m by simp
  also have "quantum r / 2 powi k = 2 powi (max (expo r - 52) (-1074) - k)"
    by (simp add: quantum_def power_int_diff)
  finally show ?thesis using is_repr_dyadic [OF b e] by simp
qed

end
