(* ===== verification/JsString.thy ===== *)
theory JsString
  imports Prelude
begin

text \<open>
  The string operations of JavaScript that the web UI uses.  A string is a HOL \<open>string\<close>: a list of
  UTF-16 code units below 256 (Latin-1); on such strings every operation below agrees with the
  language, white space and case conversion of the upper half included.  Indices are \<open>int\<close>, since
  \<open>indexOf\<close> answers \<open>-1\<close> and \<open>slice\<close> takes negative positions.
\<close>

section \<open>Characters\<close>

definition code_unit :: "char \<Rightarrow> nat" where
  "code_unit c = of_char c"

definition is_ws :: "char \<Rightarrow> bool" where
  "is_ws c \<longleftrightarrow> code_unit c \<in> {9, 10, 11, 12, 13, 32, 160}"

definition is_digit :: "char \<Rightarrow> bool" where
  "is_digit c \<longleftrightarrow> 48 \<le> code_unit c \<and> code_unit c \<le> 57"

definition is_upper :: "char \<Rightarrow> bool" where
  "is_upper c \<longleftrightarrow> 65 \<le> code_unit c \<and> code_unit c \<le> 90"

definition is_lower :: "char \<Rightarrow> bool" where
  "is_lower c \<longleftrightarrow> 97 \<le> code_unit c \<and> code_unit c \<le> 122"

definition is_alpha :: "char \<Rightarrow> bool" where
  "is_alpha c \<longleftrightarrow> is_upper c \<or> is_lower c"

definition digit_val :: "char \<Rightarrow> nat" where
  "digit_val c = code_unit c - 48"

definition digit_char :: "nat \<Rightarrow> char" where
  "digit_char d = char_of (48 + d)"

text \<open>\<open>toLowerCase\<close> of one code unit: the ASCII capitals and those of Latin-1 (without the
  multiplication sign, code unit 215).\<close>

definition char_lower :: "char \<Rightarrow> char" where
  "char_lower c = (let n = code_unit c in
     if (65 \<le> n \<and> n \<le> 90) \<or> (192 \<le> n \<and> n \<le> 222 \<and> n \<noteq> 215) then char_of (n + 32) else c)"

lemma code_unit_digit_char [simp]: "d < 10 \<Longrightarrow> code_unit (digit_char d) = 48 + d"
  by (simp add: code_unit_def digit_char_def)

lemma is_digit_digit_char [simp]: "d < 10 \<Longrightarrow> is_digit (digit_char d)"
  by (simp add: is_digit_def)

lemma digit_val_digit_char [simp]: "d < 10 \<Longrightarrow> digit_val (digit_char d) = d"
  by (simp add: digit_val_def)

lemma digit_char_digit_val: "is_digit c \<Longrightarrow> digit_char (digit_val c) = c"
  by (simp add: digit_char_def digit_val_def is_digit_def code_unit_def)

lemma digit_not_ws [simp]: "is_digit c \<Longrightarrow> \<not> is_ws c"
  by (auto simp: is_digit_def is_ws_def)

lemma alpha_not_ws [simp]: "is_alpha c \<Longrightarrow> \<not> is_ws c"
  by (auto simp: is_alpha_def is_upper_def is_lower_def is_ws_def)

lemma alpha_not_digit [simp]: "is_alpha c \<Longrightarrow> \<not> is_digit c"
  by (auto simp: is_alpha_def is_upper_def is_lower_def is_digit_def)

lemma digit_not_alpha: "is_digit c \<Longrightarrow> \<not> is_alpha c"
  using alpha_not_digit by blast

lemma code_unit_less [simp]: "code_unit c < 256"
  by (simp add: code_unit_def)

lemma char_lower_idem [simp]: "char_lower (char_lower c) = char_lower c"
proof -
  let ?n = "code_unit c"
  have "code_unit (char_of (?n + 32)) = ?n + 32" if "?n \<le> 222"
    using that by (simp add: code_unit_def take_bit_eq_mod)
  then show ?thesis by (auto simp: char_lower_def Let_def)
qed

section \<open>Decimal notation\<close>

fun nat_str :: "nat \<Rightarrow> string" where
  "nat_str n = (if n < 10 then [digit_char n] else nat_str (n div 10) @ [digit_char (n mod 10)])"

declare nat_str.simps [simp del]

definition digits_val :: "string \<Rightarrow> nat" where
  "digits_val s = foldl (\<lambda>a c. 10 * a + digit_val c) 0 s"

lemma digits_val_Nil [simp]: "digits_val [] = 0"
  by (simp add: digits_val_def)

lemma digits_val_snoc [simp]: "digits_val (s @ [c]) = 10 * digits_val s + digit_val c"
  by (simp add: digits_val_def)

lemma nat_str_nonempty [simp]: "nat_str n \<noteq> []"
  by (subst nat_str.simps) simp

lemma digits_val_single [simp]: "digits_val [c] = digit_val c"
  using digits_val_snoc [of "[]" c] by simp

lemma digits_val_nat_str [simp]: "digits_val (nat_str n) = n"
proof (induction n rule: nat_str.induct)
  case (1 n)
  then show ?case by (subst nat_str.simps) auto
qed

lemma nat_str_digits: "\<forall>c \<in> set (nat_str n). is_digit c"
proof (induction n rule: nat_str.induct)
  case (1 n)
  then show ?case by (subst nat_str.simps) auto
qed

lemma nat_str_inject [simp]: "nat_str m = nat_str n \<longleftrightarrow> m = n"
  by (metis digits_val_nat_str)

lemma digits_val_upper: "\<forall>c \<in> set s. is_digit c \<Longrightarrow> digits_val s < 10 ^ length s"
proof (induction s rule: rev_induct)
  case (snoc c s)
  then have "digit_val c < 10" by (auto simp: digit_val_def is_digit_def)
  with snoc show ?case by simp
qed simp

section \<open>Searching and cutting\<close>

fun index_of_from :: "nat \<Rightarrow> string \<Rightarrow> string \<Rightarrow> int" where
  "index_of_from i [] t = (if t = [] then int i else -1)"
| "index_of_from i (c # s) t = (if prefix t (c # s) then int i else index_of_from (Suc i) s t)"

definition indexOf :: "string \<Rightarrow> string \<Rightarrow> int" where
  "indexOf s t = index_of_from 0 s t"

fun last_index_from :: "nat \<Rightarrow> int \<Rightarrow> string \<Rightarrow> char \<Rightarrow> int" where
  "last_index_from i found [] c = found"
| "last_index_from i found (d # s) c = last_index_from (Suc i) (if d = c then int i else found) s c"

text \<open>\<open>lastIndexOf\<close> of a one-character string.\<close>

definition lastIndexOf :: "string \<Rightarrow> char \<Rightarrow> int" where
  "lastIndexOf s c = last_index_from 0 (-1) s c"

definition js_substring :: "string \<Rightarrow> int \<Rightarrow> int \<Rightarrow> string" where
  "js_substring s a b =
     (let n = int (length s); a' = min (max a 0) n; b' = min (max b 0) n;
          lo = min a' b'; hi = max a' b'
      in take (nat (hi - lo)) (drop (nat lo) s))"

definition js_substring_from :: "string \<Rightarrow> int \<Rightarrow> string" where
  "js_substring_from s a = js_substring s a (int (length s))"

definition js_slice :: "string \<Rightarrow> int \<Rightarrow> int \<Rightarrow> string" where
  "js_slice s a b =
     (let n = int (length s);
          a' = (if a < 0 then max (n + a) 0 else min a n);
          b' = (if b < 0 then max (n + b) 0 else min b n)
      in take (nat (b' - a')) (drop (nat a') s))"

definition js_substr :: "string \<Rightarrow> int \<Rightarrow> int \<Rightarrow> string" where
  "js_substr s a l =
     (let n = int (length s); a' = (if a < 0 then max (n + a) 0 else a)
      in take (nat (min (max l 0) (n - a'))) (drop (nat a') s))"

definition js_substr_from :: "string \<Rightarrow> int \<Rightarrow> string" where
  "js_substr_from s a = js_substr s a (int (length s))"

definition js_charAt :: "string \<Rightarrow> int \<Rightarrow> string" where
  "js_charAt s i = (if 0 \<le> i \<and> i < int (length s) then [s ! nat i] else [])"

lemma index_of_from_shift:
  "index_of_from i s t = (if indexOf s t = -1 then -1 else int i + indexOf s t) \<and> -1 \<le> indexOf s t"
proof -
  have *: "index_of_from (i + k) s t
       = (if index_of_from k s t = -1 then -1 else int i + index_of_from k s t)
     \<and> (index_of_from k s t = -1 \<or> int k \<le> index_of_from k s t)" for i k
  proof (induction s arbitrary: k)
    case (Cons c s)
    from Cons [of "Suc k"] show ?case by (auto simp del: of_nat_Suc)
  qed simp
  from * [of i 0] show ?thesis by (auto simp: indexOf_def)
qed

lemma indexOf_ge: "-1 \<le> indexOf s t"
  using index_of_from_shift by blast

lemma indexOf_Nil [simp]: "indexOf [] t = (if t = [] then 0 else -1)"
  by (simp add: indexOf_def)

lemma indexOf_Cons:
  "indexOf (c # s) t = (if prefix t (c # s) then 0 else if indexOf s t = -1 then -1 else 1 + indexOf s t)"
  using index_of_from_shift [of 1 s t] by (simp add: indexOf_def)

lemma indexOf_eq_minus1: "indexOf s t = -1 \<longleftrightarrow> \<not> sublist t s"
proof (induction s)
  case (Cons c s)
  then show ?case using indexOf_ge [of s t] by (auto simp: indexOf_Cons sublist_Cons_right)
qed auto

text \<open>The first occurrence of a separator character.\<close>

lemma indexOf_char: "c \<notin> set pre \<Longrightarrow> indexOf (pre @ c # post) [c] = int (length pre)"
  by (induction pre) (auto simp: indexOf_Cons)

lemma indexOf_char_absent: "indexOf s [c] = -1 \<longleftrightarrow> c \<notin> set s"
  by (simp add: indexOf_eq_minus1 sublist_def) (metis append_Cons append_Nil split_list_first in_set_conv_decomp)

lemma last_index_from_present:
  "c \<notin> set post \<Longrightarrow> last_index_from i f (pre @ c # post) c = int (i + length pre)"
proof (induction pre arbitrary: i f)
  case Nil
  have "last_index_from j f' post c = f'" if "c \<notin> set post" for j f'
    using that by (induction post arbitrary: j f') auto
  with Nil show ?case by simp
next
  case (Cons d pre)
  then show ?case by simp
qed

lemma last_index_from_absent: "c \<notin> set s \<Longrightarrow> last_index_from i f s c = f"
  by (induction s arbitrary: i f) auto

lemma lastIndexOf_char: "c \<notin> set post \<Longrightarrow> lastIndexOf (pre @ c # post) c = int (length pre)"
  by (simp add: lastIndexOf_def last_index_from_present)

lemma lastIndexOf_absent: "c \<notin> set s \<Longrightarrow> lastIndexOf s c = -1"
  by (simp add: lastIndexOf_def last_index_from_absent)

lemma js_substring_prefix: "n \<le> length s \<Longrightarrow> js_substring s 0 (int n) = take n s"
  by (simp add: js_substring_def)

lemma js_substring_from_drop: "js_substring_from s (int n) = drop n s"
  by (cases "n \<le> length s") (auto simp: js_substring_from_def js_substring_def)

lemma js_substring_from_neg: "a \<le> 0 \<Longrightarrow> js_substring_from s a = s"
  by (simp add: js_substring_from_def js_substring_def)

lemma js_slice_drop: "js_slice s (int n) (int (length s)) = drop n s"
  by (cases "n \<le> length s") (auto simp: js_slice_def)

lemma js_substr_from_drop: "n \<le> length s \<Longrightarrow> js_substr_from s (int n) = drop n s"
  by (simp add: js_substr_from_def js_substr_def)

section \<open>Splitting and joining\<close>

fun js_split :: "char \<Rightarrow> string \<Rightarrow> string list" where
  "js_split c [] = [[]]"
| "js_split c (d # s) = (if d = c then [] # js_split c s
     else (case js_split c s of [] \<Rightarrow> [[d]] | w # ws \<Rightarrow> (d # w) # ws))"

fun js_join :: "string \<Rightarrow> string list \<Rightarrow> string" where
  "js_join sep [] = []"
| "js_join sep [w] = w"
| "js_join sep (w # v # ws) = w @ sep @ js_join sep (v # ws)"

lemma js_split_nonempty [simp]: "js_split c s \<noteq> []"
  by (induction s) (auto split: list.split)

lemma js_join_Cons: "ws \<noteq> [] \<Longrightarrow> js_join sep (w # ws) = w @ sep @ js_join sep ws"
  by (cases ws) auto

theorem js_join_split [simp]: "js_join [c] (js_split c s) = s"
proof (induction s)
  case (Cons d s)
  then show ?case
    by (cases "js_split c s" rule: list.exhaust; cases "tl (js_split c s)")
      (auto simp: js_join_Cons split: list.split)
qed simp

lemma js_split_no_sep: "c \<notin> set s \<Longrightarrow> js_split c s = [s]"
  by (induction s) auto

lemma js_split_append: "c \<notin> set w \<Longrightarrow> js_split c (w @ c # s) = w # js_split c s"
  by (induction w) auto

theorem js_split_join:
  "ws \<noteq> [] \<Longrightarrow> \<forall>w \<in> set ws. c \<notin> set w \<Longrightarrow> js_split c (js_join [c] ws) = ws"
  by (induction "[c]" ws rule: js_join.induct) (auto simp: js_split_no_sep js_split_append)

lemma js_split_words: "w \<in> set (js_split c s) \<Longrightarrow> c \<notin> set w"
  by (induction s arbitrary: w) (auto split: if_splits list.splits)

section \<open>White space and case\<close>

definition toLowerCase :: "string \<Rightarrow> string" where
  "toLowerCase s = map char_lower s"

text \<open>\<open>replace(/\s+$/g, '')\<close> and \<open>trim\<close>.\<close>

definition rtrim :: "string \<Rightarrow> string" where
  "rtrim s = rev (dropWhile is_ws (rev s))"

definition js_trim :: "string \<Rightarrow> string" where
  "js_trim s = rtrim (dropWhile is_ws s)"

text \<open>\<open>search(/\S/)\<close>.\<close>

definition search_non_ws :: "string \<Rightarrow> int" where
  "search_non_ws s = (if \<exists>c \<in> set s. \<not> is_ws c then int (length (takeWhile is_ws s)) else -1)"

lemma length_toLowerCase [simp]: "length (toLowerCase s) = length s"
  by (simp add: toLowerCase_def)

lemma toLowerCase_idem [simp]: "toLowerCase (toLowerCase s) = toLowerCase s"
  by (simp add: toLowerCase_def)

lemma toLowerCase_append [simp]: "toLowerCase (s @ t) = toLowerCase s @ toLowerCase t"
  by (simp add: toLowerCase_def)

lemma rtrim_Nil_iff: "rtrim s = [] \<longleftrightarrow> (\<forall>c \<in> set s. is_ws c)"
  by (auto simp: rtrim_def)

lemma js_trim_Nil_iff: "js_trim s = [] \<longleftrightarrow> (\<forall>c \<in> set s. is_ws c)"
proof -
  have "(\<forall>c \<in> set (dropWhile is_ws s). is_ws c) \<longleftrightarrow> (\<forall>c \<in> set s. is_ws c)"
    by (metis dropWhile_eq_Nil_conv hd_dropWhile list.set_sel(1) set_dropWhileD)
  then show ?thesis by (simp add: js_trim_def rtrim_Nil_iff)
qed

lemma rtrim_prefix: "prefix (rtrim s) s"
  by (metis rtrim_def rev_rev_ident suffix_dropWhile suffix_to_prefix)

lemma rtrim_last: "rtrim s \<noteq> [] \<Longrightarrow> \<not> is_ws (last (rtrim s))"
  by (simp add: rtrim_def hd_dropWhile last_rev)

section \<open>Reading integers\<close>

fun hex_val :: "char \<Rightarrow> nat option" where
  "hex_val c = (let n = code_unit c in
     if 48 \<le> n \<and> n \<le> 57 then Some (n - 48)
     else if 97 \<le> n \<and> n \<le> 102 then Some (n - 87)
     else if 65 \<le> n \<and> n \<le> 70 then Some (n - 55)
     else None)"

text \<open>
  \<open>parseInt\<close> with no radix: leading white space, an optional sign, an optional hexadecimal prefix,
  then the longest run of digits; \<open>None\<close> stands for \<open>NaN\<close>.
\<close>

definition parseInt_unsigned :: "string \<Rightarrow> int option" where
  "parseInt_unsigned s =
     (if prefix ''0x'' s \<or> prefix ''0X'' s then
        (let ds = takeWhile (\<lambda>c. hex_val c \<noteq> None) (drop 2 s) in
         if ds = [] then None
         else Some (foldl (\<lambda>a c. 16 * a + int (the (hex_val c))) 0 ds))
      else
        (let ds = takeWhile is_digit s in if ds = [] then None else Some (int (digits_val ds))))"

definition parseInt_int :: "string \<Rightarrow> int option" where
  "parseInt_int s =
     (case dropWhile is_ws s of
        [] \<Rightarrow> None
      | c # r \<Rightarrow>
         if c = CHR ''-'' then map_option uminus (parseInt_unsigned r)
         else if c = CHR ''+'' then parseInt_unsigned r
         else parseInt_unsigned (c # r))"

lemma digit_string_not_hex:
  assumes "\<forall>c \<in> set s. is_digit c"
  shows "\<not> prefix ''0x'' s" and "\<not> prefix ''0X'' s"
  using assms by (auto simp: prefix_def is_digit_def code_unit_def)

lemma parseInt_unsigned_digits:
  assumes "\<forall>c \<in> set s. is_digit c" and "s \<noteq> []"
  shows "parseInt_unsigned s = Some (int (digits_val s))"
proof -
  have "takeWhile is_digit s = s" using assms(1) by (simp add: takeWhile_eq_all_conv)
  then show ?thesis
    unfolding parseInt_unsigned_def using digit_string_not_hex [OF assms(1)] assms(2)
    by (simp only: simp_thms if_False Let_def)
qed

lemma parseInt_digits:
  assumes "\<forall>c \<in> set s. is_digit c" and "s \<noteq> []"
  shows "parseInt_int s = Some (int (digits_val s))"
proof -
  obtain c r where s: "s = c # r" using assms(2) by (cases s) auto
  have c: "is_digit c" using assms(1) s by simp
  then have "dropWhile is_ws s = c # r" using s by simp
  moreover have "c \<noteq> CHR ''-''" and "c \<noteq> CHR ''+''" using c by (auto simp: is_digit_def code_unit_def)
  ultimately show ?thesis
    using parseInt_unsigned_digits [OF assms] s by (simp add: parseInt_int_def)
qed

theorem parseInt_nat_str: "parseInt_int (nat_str n) = Some (int n)"
  using parseInt_digits [of "nat_str n"] nat_str_digits by simp

text \<open>Only the leading digits count.\<close>

lemma parseInt_leading_digits:
  assumes "\<forall>c \<in> set ds. is_digit c" and "ds \<noteq> []" and "\<not> is_digit x" and "x \<notin> {CHR ''x'', CHR ''X''}"
  shows "parseInt_int (ds @ x # rest) = Some (int (digits_val ds))"
proof -
  obtain c r where ds: "ds = c # r" using assms(2) by (cases ds) auto
  have c: "is_digit c" using assms(1) ds by simp
  have "\<not> is_digit (CHR ''x'')" "\<not> is_digit (CHR ''X'')" by (simp_all add: is_digit_def code_unit_def)
  then have "\<not> prefix ''0x'' (ds @ x # rest)" "\<not> prefix ''0X'' (ds @ x # rest)"
    using assms(1,4) by (cases r; auto simp: ds; fail)+
  moreover have "takeWhile is_digit (ds @ x # rest) = ds" using assms(1,3) by (simp add: takeWhile_append2)
  ultimately have "parseInt_unsigned (ds @ x # rest) = Some (int (digits_val ds))"
    unfolding parseInt_unsigned_def using assms(2) by (simp only: simp_thms if_False Let_def)
  moreover have "c \<noteq> CHR ''-''" and "c \<noteq> CHR ''+''" using c by (auto simp: is_digit_def code_unit_def)
  moreover have "dropWhile is_ws (ds @ x # rest) = ds @ x # rest" using ds c by simp
  ultimately show ?thesis by (simp add: parseInt_int_def ds)
qed

lemma nat_str_one_digit: "n < 10 \<Longrightarrow> nat_str n = [digit_char n]"
  by (simp add: nat_str.simps)

lemma nat_str_two_digits: "10 \<le> n \<Longrightarrow> n < 100 \<Longrightarrow> nat_str n = [digit_char (n div 10), digit_char (n mod 10)]"
  by (simp add: nat_str.simps [of n] nat_str_one_digit)

lemma nat_str_no_char: "\<not> is_digit c \<Longrightarrow> c \<notin> set (nat_str n)"
  using nat_str_digits [of n] by blast

end
