(* ===== verification/JsNumber.thy ===== *)
theory JsNumber
  imports JsDouble JsString
begin

text \<open>
  JavaScript numbers and their operators.  A number is \<open>NaN\<close>, an infinity, or a finite double kept
  as the rational it denotes.  Every operator computes the exact rational result and rounds it once
  (\<open>fl\<close>).  The two zeros are identified: the modelled code never divides by a negative zero and
  prints both the same way.  A missing value (\<open>undefined\<close>) that reaches arithmetic is \<open>NaN\<close>, a
  \<open>null\<close> is zero, as the language's \<open>ToNumber\<close> says.
\<close>

section \<open>Values\<close>

datatype jsnum = NaN | PInf | NInf | Fin rat

text \<open>The magnitude at which a rounded result becomes an infinity.\<close>

definition is_huge :: "rat \<Rightarrow> bool" where
  "is_huge r \<longleftrightarrow> r \<noteq> 0 \<and> 1024 \<le> expo r"

definition fl :: "rat \<Rightarrow> jsnum" where
  "fl x = (let r = rnd x in if is_huge r then (if r > 0 then PInf else NInf) else Fin r)"

text \<open>Well-formed numbers: a finite value is a double.\<close>

fun is_num :: "jsnum \<Rightarrow> bool" where
  "is_num (Fin r) \<longleftrightarrow> is_repr r \<and> \<not> is_huge r"
| "is_num _ \<longleftrightarrow> True"

definition js_nat :: "nat \<Rightarrow> jsnum" where
  "js_nat n = Fin (of_nat n)"

definition to_number :: "jsnum option \<Rightarrow> jsnum" where
  "to_number v = (case v of None \<Rightarrow> Fin 0 | Some n \<Rightarrow> n)"

section \<open>Operators\<close>

fun js_neg :: "jsnum \<Rightarrow> jsnum" where
  "js_neg NaN = NaN"
| "js_neg PInf = NInf"
| "js_neg NInf = PInf"
| "js_neg (Fin a) = Fin (- a)"

fun js_add :: "jsnum \<Rightarrow> jsnum \<Rightarrow> jsnum" where
  "js_add NaN _ = NaN"
| "js_add _ NaN = NaN"
| "js_add PInf NInf = NaN"
| "js_add NInf PInf = NaN"
| "js_add PInf _ = PInf"
| "js_add _ PInf = PInf"
| "js_add NInf _ = NInf"
| "js_add _ NInf = NInf"
| "js_add (Fin a) (Fin b) = fl (a + b)"

definition js_sub :: "jsnum \<Rightarrow> jsnum \<Rightarrow> jsnum" where
  "js_sub a b = js_add a (js_neg b)"

definition inf_of_sign :: "rat \<Rightarrow> jsnum" where
  "inf_of_sign s = (if s = 0 then NaN else if s > 0 then PInf else NInf)"

fun js_mul :: "jsnum \<Rightarrow> jsnum \<Rightarrow> jsnum" where
  "js_mul NaN _ = NaN"
| "js_mul _ NaN = NaN"
| "js_mul PInf PInf = PInf"
| "js_mul PInf NInf = NInf"
| "js_mul NInf PInf = NInf"
| "js_mul NInf NInf = PInf"
| "js_mul PInf (Fin b) = inf_of_sign b"
| "js_mul NInf (Fin b) = inf_of_sign (- b)"
| "js_mul (Fin a) PInf = inf_of_sign a"
| "js_mul (Fin a) NInf = inf_of_sign (- a)"
| "js_mul (Fin a) (Fin b) = fl (a * b)"

fun js_div :: "jsnum \<Rightarrow> jsnum \<Rightarrow> jsnum" where
  "js_div NaN _ = NaN"
| "js_div _ NaN = NaN"
| "js_div (Fin a) (Fin b) = (if b = 0 then inf_of_sign a else fl (a / b))"
| "js_div (Fin a) _ = Fin 0"
| "js_div PInf (Fin b) = (if b \<ge> 0 then PInf else NInf)"
| "js_div NInf (Fin b) = (if b \<ge> 0 then NInf else PInf)"
| "js_div _ _ = NaN"

fun js_lt :: "jsnum \<Rightarrow> jsnum \<Rightarrow> bool" where
  "js_lt NaN _ = False"
| "js_lt _ NaN = False"
| "js_lt (Fin a) (Fin b) = (a < b)"
| "js_lt NInf x = (x \<noteq> NInf)"
| "js_lt PInf x = False"
| "js_lt (Fin a) PInf = True"
| "js_lt (Fin a) NInf = False"

definition js_eq :: "jsnum \<Rightarrow> jsnum \<Rightarrow> bool" where
  "js_eq a b \<longleftrightarrow> a \<noteq> NaN \<and> a = b"

definition js_le :: "jsnum \<Rightarrow> jsnum \<Rightarrow> bool" where
  "js_le a b \<longleftrightarrow> js_lt a b \<or> js_eq a b"

abbreviation js_gt :: "jsnum \<Rightarrow> jsnum \<Rightarrow> bool" where
  "js_gt a b \<equiv> js_lt b a"

abbreviation js_ge :: "jsnum \<Rightarrow> jsnum \<Rightarrow> bool" where
  "js_ge a b \<equiv> js_le b a"

text \<open>The numbers that are true in a condition.\<close>

definition truthy_num :: "jsnum \<Rightarrow> bool" where
  "truthy_num x \<longleftrightarrow> x \<noteq> NaN \<and> x \<noteq> Fin 0"

definition math_max :: "jsnum \<Rightarrow> jsnum \<Rightarrow> jsnum" where
  "math_max a b = (if a = NaN \<or> b = NaN then NaN else if js_lt a b then b else a)"

definition math_min :: "jsnum \<Rightarrow> jsnum \<Rightarrow> jsnum" where
  "math_min a b = (if a = NaN \<or> b = NaN then NaN else if js_lt b a then b else a)"

text \<open>\<open>Math.round\<close>: the nearest integer, halves towards plus infinity; \<open>Math.floor\<close>.\<close>

fun math_round :: "jsnum \<Rightarrow> jsnum" where
  "math_round (Fin r) = Fin (of_int \<lfloor>r + 1/2\<rfloor>)"
| "math_round x = x"

fun math_floor :: "jsnum \<Rightarrow> jsnum" where
  "math_floor (Fin r) = Fin (of_int \<lfloor>r\<rfloor>)"
| "math_floor x = x"

section \<open>Facts about the operators\<close>

lemma is_huge_minus [simp]: "is_huge (- r) = is_huge r"
  by (simp add: is_huge_def)

lemma is_huge_0 [simp]: "\<not> is_huge 0"
  by (simp add: is_huge_def)

lemma is_huge_mono: "\<bar>r\<bar> \<le> \<bar>s\<bar> \<Longrightarrow> is_huge r \<Longrightarrow> is_huge s"
  using expo_mono [of r s] by (auto simp: is_huge_def)

lemma not_huge_powi: "\<bar>r\<bar> < 2 powi k \<Longrightarrow> k \<le> 1024 \<Longrightarrow> \<not> is_huge r"
proof
  assume r: "\<bar>r\<bar> < 2 powi k" and k: "k \<le> 1024" and h: "is_huge r"
  then have "2 powi (expo r) \<le> \<bar>r\<bar>" by (intro expo_bounds(1)) (simp add: is_huge_def)
  with r have "(2::rat) powi (expo r) < 2 powi k" by linarith
  then show False using k h by (simp add: is_huge_def)
qed

lemma is_num_fl [simp]: "is_num (fl x)"
  by (simp add: fl_def Let_def)

lemma fl_repr: "is_repr r \<Longrightarrow> \<not> is_huge r \<Longrightarrow> fl r = Fin r"
  by (simp add: fl_def is_repr_def)

lemma fl_int:
  assumes "\<bar>n\<bar> \<le> 2 ^ 53"
  shows "fl (of_int n) = Fin (of_int n)"
proof -
  have "\<bar>of_int n :: rat\<bar> = of_int \<bar>n\<bar>" by simp
  also have "\<dots> \<le> of_int (2 ^ 53)" using assms by (simp only: of_int_le_iff)
  also have "\<dots> < 2 powi 54" by simp
  finally have "\<not> is_huge (of_int n)" by (rule not_huge_powi) simp
  then show ?thesis using is_repr_int [OF assms] by (rule fl_repr [rotated])
qed

lemma is_num_int: "\<bar>n\<bar> \<le> 2 ^ 53 \<Longrightarrow> is_num (Fin (of_int n))"
  using fl_int [of n] is_num_fl [of "of_int n"] by simp

lemma is_num_nat: "n \<le> 2 ^ 53 \<Longrightarrow> is_num (js_nat n)"
  using is_num_int [of "int n"] by (simp add: js_nat_def)

lemma is_num_neg [simp]: "is_num (js_neg a) = is_num a"
  by (cases a) auto

lemma is_num_add [simp]: "is_num a \<Longrightarrow> is_num b \<Longrightarrow> is_num (js_add a b)"
  by (cases a; cases b) auto

lemma is_num_sub [simp]: "is_num a \<Longrightarrow> is_num b \<Longrightarrow> is_num (js_sub a b)"
  by (simp add: js_sub_def)

lemma is_num_mul [simp]: "is_num a \<Longrightarrow> is_num b \<Longrightarrow> is_num (js_mul a b)"
  by (cases a; cases b) (auto simp: inf_of_sign_def)

lemma is_num_div [simp]: "is_num a \<Longrightarrow> is_num b \<Longrightarrow> is_num (js_div a b)"
  by (cases a; cases b) (auto simp: inf_of_sign_def)

text \<open>Integer arithmetic below \<open>2^53\<close> is exact.\<close>

lemma js_add_int: "\<bar>a + b\<bar> \<le> 2 ^ 53 \<Longrightarrow> js_add (Fin (of_int a)) (Fin (of_int b)) = Fin (of_int (a + b))"
  using fl_int [of "a + b"] by simp

lemma js_sub_int: "\<bar>a - b\<bar> \<le> 2 ^ 53 \<Longrightarrow> js_sub (Fin (of_int a)) (Fin (of_int b)) = Fin (of_int (a - b))"
  using fl_int [of "a - b"] by (simp add: js_sub_def)

lemma js_sub_Fin: "js_sub (Fin a) (Fin b) = fl (a - b)"
  by (simp add: js_sub_def)

text \<open>The sign of a difference of doubles is the order of the doubles: what a numeric comparison
  function \<open>(a, b) => a - b\<close> relies on.\<close>

theorem js_sub_neg:
  assumes "is_num (Fin a)" and "is_num (Fin b)"
  shows "js_lt (js_sub (Fin a) (Fin b)) (Fin 0) \<longleftrightarrow> a < b"
  using rnd_diff_neg [of a b] rnd_diff_pos [of a b] assms
  by (auto simp: js_sub_Fin fl_def Let_def)

theorem js_sub_pos:
  assumes "is_num (Fin a)" and "is_num (Fin b)"
  shows "js_lt (Fin 0) (js_sub (Fin a) (Fin b)) \<longleftrightarrow> b < a"
  using rnd_diff_neg [of a b] rnd_diff_pos [of a b] assms
  by (auto simp: js_sub_Fin fl_def Let_def is_huge_def)

lemma js_sub_not_NaN [simp]: "js_sub (Fin a) (Fin b) \<noteq> NaN"
  by (simp add: js_sub_Fin fl_def Let_def)

lemma js_neg_lt_zero: "js_lt (js_neg x) (Fin 0) = js_lt (Fin 0) x"
  by (cases x) auto

lemma js_zero_lt_neg: "js_lt (Fin 0) (js_neg x) = js_lt x (Fin 0)"
  by (cases x) auto

lemma fl_mono_Fin: "x \<le> y \<Longrightarrow> fl x = Fin a \<Longrightarrow> fl y = Fin b \<Longrightarrow> a \<le> b"
  using rnd_mono [of x y] by (auto simp: fl_def Let_def split: if_splits)

lemma fl_Fin_iff: "fl x = Fin r \<longleftrightarrow> r = rnd x \<and> \<not> is_huge r"
  by (auto simp: fl_def Let_def)

text \<open>Rounding a magnitude down never overflows.\<close>

lemma fl_shrink:
  assumes "is_num (Fin r)" and "0 \<le> x" and "x \<le> r"
  shows "fl x = Fin (rnd x)"
proof -
  have "rnd x \<le> r" using assms by (intro rnd_le_repr) auto
  moreover have "0 \<le> rnd x" using assms(2) by (rule rnd_nonneg)
  ultimately have "\<not> is_huge (rnd x)" using assms(1) is_huge_mono [of "rnd x" r] by auto
  then show ?thesis by (simp add: fl_def)
qed

section \<open>Printing\<close>

text \<open>
  \<open>Number.prototype.toString\<close>.  An integer below \<open>2^53\<close> prints as its decimal notation; any other
  finite number prints with the least number of significant digits that reads back as the same
  double (the closest such digits), in positional or exponent notation.  \<open>shortest_digits\<close> looks
  for the digits, \<open>k\<close> at a time; 17 always suffice for a double.
\<close>

definition digit_candidate :: "rat \<Rightarrow> int \<Rightarrow> nat \<Rightarrow> (int \<times> int) option" where
  "digit_candidate x n k =
     (let u = 10 powi (n - int k); lo = \<lfloor>x / u\<rfloor>; hi = lo + 1;
          ok = (\<lambda>s. s > 0 \<and> rnd (of_int s * u) = x);
          norm = (\<lambda>s. if s = 10 ^ k then (10 ^ (k - 1), n + 1) else (s, n))
      in if ok lo \<and> (\<not> ok hi \<or> x - of_int lo * u \<le> of_int hi * u - x) then Some (norm lo)
         else if ok hi then Some (norm hi) else None)"

fun shortest_from :: "nat \<Rightarrow> rat \<Rightarrow> int \<Rightarrow> nat \<Rightarrow> int \<times> int \<times> nat" where
  "shortest_from 0 x n k = (\<lfloor>x / 10 powi (n - int k)\<rfloor>, n, k)"
| "shortest_from (Suc fuel) x n k =
     (case digit_candidate x n k of
        Some (s, n') \<Rightarrow> (s, n', k)
      | None \<Rightarrow> shortest_from fuel x n (Suc k))"

text \<open>The number of digits before the decimal point: the least \<open>n\<close> with \<open>x < 10^n\<close>.\<close>

fun dec_expo_up :: "nat \<Rightarrow> rat \<Rightarrow> int \<Rightarrow> int" where
  "dec_expo_up 0 x n = n"
| "dec_expo_up (Suc fuel) x n = (if x < 10 powi n then n else dec_expo_up fuel x (n + 1))"

definition dec_expo :: "rat \<Rightarrow> int" where
  "dec_expo x = dec_expo_up 4 x \<lfloor>of_int (expo x) * 30103 / (100000::rat)\<rfloor>"

definition digits_str :: "nat \<Rightarrow> nat \<Rightarrow> int \<Rightarrow> string" where
  "digits_str s k n =
     (let ds = nat_str s; e = n - 1;
          es = (if e < 0 then ''-'' else ''+'') @ nat_str (nat \<bar>e\<bar>)
      in if int k \<le> n \<and> n \<le> 21 then ds @ replicate (nat (n - int k)) (CHR ''0'')
         else if 0 < n \<and> n \<le> 21 then take (nat n) ds @ ''.'' @ drop (nat n) ds
         else if -6 < n \<and> n \<le> 0 then ''0.'' @ replicate (nat (- n)) (CHR ''0'') @ ds
         else if k = 1 then ds @ ''e'' @ es
         else take 1 ds @ ''.'' @ drop 1 ds @ ''e'' @ es)"

definition pos_str :: "rat \<Rightarrow> string" where
  "pos_str r =
     (if of_int \<lfloor>r\<rfloor> = r \<and> r < 9007199254740992 then nat_str (nat \<lfloor>r\<rfloor>)
      else (let (s, n, k) = shortest_from 17 r (dec_expo r) 1 in digits_str (nat s) k n))"

fun num_str :: "jsnum \<Rightarrow> string" where
  "num_str NaN = ''NaN''"
| "num_str PInf = ''Infinity''"
| "num_str NInf = ''-Infinity''"
| "num_str (Fin r) = (if r < 0 then ''-'' @ pos_str (- r) else pos_str r)"


end
