(* ===== verification/JsDecimal.thy ===== *)
theory JsDecimal
  imports JsNumber
begin

text \<open>
  Decimal notation of numbers: \<open>toFixed\<close>, \<open>parseFloat\<close> on the strings the UI reads, and
  \<open>parseInt\<close> as a number.  The value of what \<open>toFixed(f)\<close> prints is the closest multiple of
  \<open>10^-f\<close>.
\<close>

section \<open>toFixed\<close>

definition fixed_scaled :: "rat \<Rightarrow> nat \<Rightarrow> nat" where
  "fixed_scaled r f = nat \<lfloor>r * 10 ^ f + 1/2\<rfloor>"

definition point_str :: "nat \<Rightarrow> nat \<Rightarrow> string" where
  "point_str n f =
     (let m = nat_str n in
      if f = 0 then m
      else (let m' = (if length m \<le> f then replicate (f + 1 - length m) (CHR ''0'') @ m else m);
                k = length m'
            in take (k - f) m' @ ''.'' @ drop (k - f) m'))"

definition toFixed :: "jsnum \<Rightarrow> nat \<Rightarrow> string" where
  "toFixed x f = (case x of
       Fin r \<Rightarrow> if \<bar>r\<bar> \<ge> 10 ^ 21 then num_str x
                else (if r < 0 then ''-'' else []) @ point_str (fixed_scaled \<bar>r\<bar> f) f
     | _ \<Rightarrow> num_str x)"

section \<open>Reading decimals\<close>

text \<open>The value of \<open>\d+(\.\d+)?\<close>.\<close>

definition decimal_val :: "string \<Rightarrow> rat" where
  "decimal_val s = (let i = takeWhile is_digit s; r = dropWhile is_digit s; f = tl r in
     of_nat (digits_val i) + of_nat (digits_val f) / 10 ^ length f)"

text \<open>\<open>parseFloat\<close> on such a string.\<close>

definition parseFloat_dec :: "string \<Rightarrow> jsnum" where
  "parseFloat_dec s = fl (decimal_val s)"

definition parseInt :: "string \<Rightarrow> jsnum" where
  "parseInt s = (case parseInt_int s of None \<Rightarrow> NaN | Some n \<Rightarrow> fl (of_int n))"

lemma dot_not_digit [simp]: "\<not> is_digit (CHR ''.'')"
  by (simp add: is_digit_def code_unit_def)

lemma digit_zero [simp]: "is_digit (CHR ''0'')" and digit_val_zero [simp]: "digit_val (CHR ''0'') = 0"
  by (simp_all add: is_digit_def digit_val_def code_unit_def)

lemma takeWhile_digits_point:
  "\<forall>c \<in> set i. is_digit c \<Longrightarrow> takeWhile is_digit (i @ CHR ''.'' # f) = i"
  "\<forall>c \<in> set i. is_digit c \<Longrightarrow> dropWhile is_digit (i @ CHR ''.'' # f) = CHR ''.'' # f"
  by (induction i) auto

lemma decimal_val_point:
  "\<forall>c \<in> set i. is_digit c \<Longrightarrow>
   decimal_val (i @ CHR ''.'' # f) = of_nat (digits_val i) + of_nat (digits_val f) / 10 ^ length f"
  by (simp add: decimal_val_def takeWhile_digits_point)

lemma decimal_val_digits:
  "\<forall>c \<in> set i. is_digit c \<Longrightarrow> decimal_val i = of_nat (digits_val i)"
  by (simp add: decimal_val_def takeWhile_eq_all_conv [THEN iffD2] dropWhile_eq_Nil_conv [THEN iffD2])

lemma digits_val_append: "digits_val (a @ b) = digits_val a * 10 ^ length b + digits_val b"
proof (induction b rule: rev_induct)
  case (snoc c b)
  have "digits_val (a @ b @ [c]) = 10 * digits_val (a @ b) + digit_val c"
    using digits_val_snoc [of "a @ b" c] by simp
  with snoc show ?case by simp
qed simp

lemma digits_val_zeros [simp]: "digits_val (replicate n (CHR ''0'') @ s) = digits_val s"
proof -
  have "digits_val (replicate n (CHR ''0'')) = 0"
    by (induction n) (simp_all add: replicate_append_same [symmetric])
  then show ?thesis by (simp add: digits_val_append)
qed

text \<open>What \<open>point_str\<close> prints has the value of its digits scaled back.\<close>

theorem decimal_val_point_str: "decimal_val (point_str n f) = of_nat n / 10 ^ f"
proof (cases "f = 0")
  case True
  then show ?thesis by (simp add: point_str_def decimal_val_digits nat_str_digits)
next
  case False
  define m where "m = (if length (nat_str n) \<le> f
      then replicate (f + 1 - length (nat_str n)) (CHR ''0'') @ nat_str n else nat_str n)"
  define i where "i = take (length m - f) m"
  define d where "d = drop (length m - f) m"
  have v: "digits_val m = n" by (simp add: m_def)
  have len: "f < length m" by (simp add: m_def)
  have dig: "\<forall>c \<in> set m. is_digit c" using nat_str_digits by (auto simp: m_def)
  have ld: "length d = f" using len by (simp add: d_def)
  have "digits_val i * 10 ^ f + digits_val d = n"
    using digits_val_append [of i d] v ld by (simp add: i_def d_def)
  then have "of_nat (digits_val i) * 10 ^ f + of_nat (digits_val d) = (of_nat n :: rat)"
    by (metis of_nat_add of_nat_mult of_nat_numeral of_nat_power)
  moreover have "point_str n f = i @ ''.'' @ d"
    using False by (simp add: point_str_def Let_def i_def d_def m_def)
  moreover have "\<forall>c \<in> set i. is_digit c" using dig by (auto simp: i_def dest: in_set_takeD)
  ultimately show ?thesis using ld by (simp add: decimal_val_point field_simps)
qed

lemma fixed_scaled_error:
  assumes "0 \<le> r"
  shows "\<bar>of_nat (fixed_scaled r f) / 10 ^ f - r\<bar> \<le> 1 / (2 * 10 ^ f)"
proof -
  have "0 \<le> r * 10 ^ f + 1/2" using assms by simp
  then have "(of_nat (fixed_scaled r f) :: rat) = of_int \<lfloor>r * 10 ^ f + 1/2\<rfloor>"
    by (simp add: fixed_scaled_def of_nat_nat)
  moreover have "\<bar>of_int \<lfloor>y + 1/2\<rfloor> - y\<bar> \<le> 1/2" for y :: rat by linarith
  ultimately have "\<bar>of_nat (fixed_scaled r f) - r * 10 ^ f\<bar> / 10 ^ f \<le> (1/2) / (10::rat) ^ f"
    by (intro divide_right_mono) simp_all
  also have "\<bar>of_nat (fixed_scaled r f) - r * 10 ^ f\<bar> / 10 ^ f
       = \<bar>(of_nat (fixed_scaled r f) - r * 10 ^ f) / 10 ^ f\<bar>"
    by (simp only: abs_divide power_abs [symmetric]) simp
  also have "(of_nat (fixed_scaled r f) - r * 10 ^ f) / 10 ^ f = of_nat (fixed_scaled r f) / 10 ^ f - r"
    by (simp add: field_simps)
  finally show ?thesis by simp
qed

text \<open>\<open>toFixed\<close> is accurate to half a unit of its last digit.\<close>

theorem toFixed_accurate:
  assumes "0 \<le> r" and "r < 10 ^ 21"
  shows "\<bar>decimal_val (toFixed (Fin r) f) - r\<bar> \<le> 1 / (2 * 10 ^ f)"
  using assms fixed_scaled_error [OF assms(1), of f]
  by (simp add: toFixed_def decimal_val_point_str not_le [symmetric])

lemma toFixed_mono:
  assumes "0 \<le> r" and "r \<le> s" and "s < 10 ^ 21"
  shows "decimal_val (toFixed (Fin r) f) \<le> decimal_val (toFixed (Fin s) f)"
proof -
  have "r * 10 ^ f \<le> s * 10 ^ f" using assms(2) by (rule mult_right_mono) simp
  then have "fixed_scaled r f \<le> fixed_scaled s f"
    unfolding fixed_scaled_def by (intro nat_mono floor_mono) simp
  then show ?thesis
    using assms by (simp add: toFixed_def decimal_val_point_str not_le [symmetric] divide_right_mono)
qed

lemma parseFloat_nat: "n \<le> 2 ^ 53 \<Longrightarrow> parseFloat_dec (nat_str n) = js_nat n"
  using fl_int [of "int n"]
  by (simp add: parseFloat_dec_def decimal_val_digits nat_str_digits js_nat_def)

lemma parseInt_nat: "n \<le> 2 ^ 53 \<Longrightarrow> parseInt (nat_str n) = js_nat n"
  using fl_int [of "int n"] by (simp add: parseInt_def parseInt_nat_str js_nat_def)

lemma is_num_parseInt [simp]: "is_num (parseInt s)"
  by (simp add: parseInt_def split: option.split)

end
