(* ===== verification/Format.thy ===== *)
theory Format
  imports JsDecimal
begin

text \<open>
  The number formatters of \<open>webapp/src/utils.js\<close>: \<open>precisionRound\<close>, durations, counts and data
  sizes.  Every formatter scales its argument down through a fixed ladder of units and prints the
  scaled value with \<open>precisionRound\<close>.
\<close>

section \<open>The formatters\<close>

definition computeRate :: "jsnum \<Rightarrow> jsnum \<Rightarrow> jsnum" where
  "computeRate cnt ms = (if js_eq ms (Fin 0) then Fin 0 else js_mul (js_div cnt ms) (Fin 1000))"

definition precisionRound :: "jsnum \<Rightarrow> string" where
  "precisionRound n =
     (if js_lt n (Fin 10) then toFixed n 2
      else if js_lt n (Fin 100) then toFixed n 1
      else num_str (math_round n))"

text \<open>
  The successive \<open>if\<close> statements of the formatters: each divides the value and replaces the unit
  when its guard holds of the value left by the statements before it.
\<close>

definition formatDuration :: "jsnum \<Rightarrow> string" where
  "formatDuration duration0 =
     (let (duration, unit) = (duration0, ''ms'');
          (duration, unit) = (if js_gt duration (Fin 1000) then (js_div duration (Fin 1000), ''s'')
                              else (duration, unit));
          (duration, unit) = (if unit = ''s'' \<and> js_gt duration (Fin 60)
                              then (js_div duration (Fin 60), ''m'') else (duration, unit));
          (duration, unit) = (if unit = ''m'' \<and> js_gt duration (Fin 60)
                              then (js_div duration (Fin 60), ''h'') else (duration, unit));
          (duration, unit) = (if unit = ''h'' \<and> js_gt duration (Fin 24)
                              then (js_div duration (Fin 24), ''d'') else (duration, unit));
          (duration, unit) = (if unit = ''d'' \<and> js_gt duration (Fin 7)
                              then (js_div duration (Fin 7), ''w'') else (duration, unit))
      in precisionRound duration @ unit)"

definition formatCount :: "jsnum \<Rightarrow> string" where
  "formatCount cnt0 =
     (let (cnt, unit) = (cnt0, []);
          (cnt, unit) = (if js_gt cnt (Fin 1000) then (js_div cnt (Fin 1000), ''K'') else (cnt, unit));
          (cnt, unit) = (if js_gt cnt (Fin 1000) then (js_div cnt (Fin 1000), ''M'') else (cnt, unit));
          (cnt, unit) = (if js_gt cnt (Fin 1000) then (js_div cnt (Fin 1000), ''B'') else (cnt, unit));
          (cnt, unit) = (if js_gt cnt (Fin 1000) then (js_div cnt (Fin 1000), ''T'') else (cnt, unit));
          (cnt, unit) = (if js_gt cnt (Fin 1000) then (js_div cnt (Fin 1000), ''Q'') else (cnt, unit))
      in precisionRound cnt @ unit)"

definition formatRows :: "jsnum \<Rightarrow> string" where
  "formatRows cnt = (if js_eq cnt (Fin 1) then ''1 row'' else formatCount cnt @ '' rows'')"

definition formatDataSizeMinUnit :: "jsnum \<Rightarrow> string \<Rightarrow> string" where
  "formatDataSizeMinUnit sz0 minUnit =
     (if js_eq sz0 (Fin 0) then ''0'' @ minUnit
      else
       (let (sz, unit) = (sz0, minUnit);
            (sz, unit) = (if js_ge sz (Fin 1024) then (js_div sz (Fin 1024), ''K'' @ minUnit) else (sz, unit));
            (sz, unit) = (if js_ge sz (Fin 1024) then (js_div sz (Fin 1024), ''M'' @ minUnit) else (sz, unit));
            (sz, unit) = (if js_ge sz (Fin 1024) then (js_div sz (Fin 1024), ''G'' @ minUnit) else (sz, unit));
            (sz, unit) = (if js_ge sz (Fin 1024) then (js_div sz (Fin 1024), ''T'' @ minUnit) else (sz, unit));
            (sz, unit) = (if js_ge sz (Fin 1024) then (js_div sz (Fin 1024), ''P'' @ minUnit) else (sz, unit))
        in precisionRound sz @ unit))"

definition formatDataSizeBytes :: "jsnum \<Rightarrow> string" where
  "formatDataSizeBytes sz = formatDataSizeMinUnit sz []"

definition formatDataSize :: "jsnum \<Rightarrow> string" where
  "formatDataSize sz = formatDataSizeMinUnit sz ''B''"


section \<open>Climbing a ladder of units\<close>

text \<open>
  The reference definition behind the three formatters: divide and change the unit while the guard
  holds, and stop at the first unit whose guard fails.
\<close>

fun ladder :: "(jsnum \<Rightarrow> jsnum \<Rightarrow> bool) \<Rightarrow> (rat \<times> string) list \<Rightarrow> jsnum \<Rightarrow> string \<Rightarrow> jsnum \<times> string" where
  "ladder g [] x u = (x, u)"
| "ladder g ((d, v) # steps) x u = (if g x (Fin d) then ladder g steps (js_div x (Fin d)) v else (x, u))"

definition count_steps :: "(rat \<times> string) list" where
  "count_steps = [(1000, ''K''), (1000, ''M''), (1000, ''B''), (1000, ''T''), (1000, ''Q'')]"

definition duration_steps :: "(rat \<times> string) list" where
  "duration_steps = [(1000, ''s''), (60, ''m''), (60, ''h''), (24, ''d''), (7, ''w'')]"

definition size_steps :: "string \<Rightarrow> (rat \<times> string) list" where
  "size_steps u = [(1024, ''K'' @ u), (1024, ''M'' @ u), (1024, ''G'' @ u), (1024, ''T'' @ u), (1024, ''P'' @ u)]"

definition print_scaled :: "jsnum \<times> string \<Rightarrow> string" where
  "print_scaled xu = precisionRound (fst xu) @ snd xu"

lemma formatCount_ladder: "formatCount c = print_scaled (ladder js_gt count_steps c [])"
  by (simp add: formatCount_def count_steps_def print_scaled_def)

lemma formatDuration_ladder: "formatDuration c = print_scaled (ladder js_gt duration_steps c ''ms'')"
  by (simp add: formatDuration_def duration_steps_def print_scaled_def)

lemma formatDataSize_ladder:
  "formatDataSizeMinUnit c u =
     (if js_eq c (Fin 0) then ''0'' @ u else print_scaled (ladder js_ge (size_steps u) c u))"
  by (simp add: formatDataSizeMinUnit_def size_steps_def print_scaled_def)

text \<open>Composition of the relative errors of the divisions.\<close>

lemma error_compose:
  fixes d r e x1 x p :: rat
  assumes "0 < d" "0 \<le> r" "0 \<le> e" "e \<le> 1"
    and x1: "\<bar>x1 - r / d\<bar> \<le> (r / d) / 2 ^ 53" and x: "\<bar>x * p - x1\<bar> \<le> x1 * e"
  shows "\<bar>x * (d * p) - r\<bar> \<le> r * (e + 1 / 2 ^ 52)"
proof -
  have a: "\<bar>x1 * d - r\<bar> \<le> r / 2 ^ 53"
  proof -
    have "\<bar>x1 - r / d\<bar> * d \<le> (r / d) / 2 ^ 53 * d" using x1 assms(1) by (intro mult_right_mono) auto
    moreover have "\<bar>x1 - r / d\<bar> * d = \<bar>x1 * d - r\<bar>"
      using assms(1) by (metis abs_mult abs_of_pos left_diff_distrib nonzero_eq_divide_eq less_irrefl)
    ultimately show ?thesis using assms(1) by simp
  qed
  then have "x1 * d \<le> r + r / 2 ^ 53" by linarith
  then have b: "x1 * d \<le> r * (1 + 1 / 2 ^ 53)" by (simp add: field_simps)
  have "\<bar>x * p - x1\<bar> * d \<le> x1 * e * d" using x assms(1) by (intro mult_right_mono) auto
  moreover have "\<bar>x * p - x1\<bar> * d = \<bar>x * (d * p) - x1 * d\<bar>"
    using assms(1) by (metis abs_mult abs_of_pos left_diff_distrib mult.assoc mult.commute)
  ultimately have c: "\<bar>x * (d * p) - x1 * d\<bar> \<le> e * (x1 * d)" by (simp add: algebra_simps)
  have "e * (x1 * d) \<le> e * (r * (1 + 1 / 2 ^ 53))" using b assms(3) by (rule mult_left_mono)
  also have "\<dots> = r * e + r * e / 2 ^ 53" by (simp add: algebra_simps)
  also have "r * e / 2 ^ 53 \<le> r / 2 ^ 53"
    using assms(2,4) by (intro divide_right_mono mult_left_le) simp_all
  finally have "e * (x1 * d) \<le> r * e + r / 2 ^ 53" by simp
  with a c have "\<bar>x * (d * p) - r\<bar> \<le> r * e + r / 2 ^ 53 + r / 2 ^ 53" by linarith
  then show ?thesis by (simp add: field_simps)
qed

text \<open>The contract of a guard: it holds only at or above its threshold and fails only at or below.\<close>

locale threshold_guard =
  fixes g :: "jsnum \<Rightarrow> jsnum \<Rightarrow> bool"
  assumes guard_ge: "g (Fin x) (Fin d) \<Longrightarrow> d \<le> x"
    and guard_le: "\<not> g (Fin x) (Fin d) \<Longrightarrow> x \<le> d"
begin

lemma ladder_step:
  assumes r: "is_num (Fin r)" and d: "1 < d" "d \<le> 2 ^ 53" and g: "g (Fin r) (Fin d)"
  shows "js_div (Fin r) (Fin d) = Fin (rnd (r / d))" and "is_num (Fin (rnd (r / d)))"
    and "1 \<le> rnd (r / d)" and "\<bar>rnd (r / d) - r / d\<bar> \<le> (r / d) / 2 ^ 53"
proof -
  have rd: "d \<le> r" using g by (rule guard_ge)
  then have one: "1 \<le> r / d" using d by (simp add: le_divide_eq)
  have "r / d \<le> r" using d rd by (simp add: divide_le_eq mult_le_cancel_left1)
  then have "fl (r / d) = Fin (rnd (r / d))" using r one by (intro fl_shrink) auto
  then show "js_div (Fin r) (Fin d) = Fin (rnd (r / d))" and "is_num (Fin (rnd (r / d)))"
    using d is_num_fl [of "r / d"] by simp_all
  show "1 \<le> rnd (r / d)" using one is_repr_int [of 1] by (intro rnd_ge_repr) simp_all
  show "\<bar>rnd (r / d) - r / d\<bar> \<le> (r / d) / 2 ^ 53" using one by (rule rnd_error_ge_one)
qed


lemma ladder_correct:
  assumes "is_num (Fin r)" and "0 \<le> r" and "\<forall>(d, v) \<in> set steps. 1 < d \<and> d \<le> 2 ^ 53"
    and "length steps \<le> 2 ^ 50"
  shows "\<exists>k x. k \<le> length steps \<and> ladder g steps (Fin r) u = (Fin x, (u # map snd steps) ! k)
     \<and> is_num (Fin x) \<and> 0 \<le> x \<and> (0 < k \<longrightarrow> 1 \<le> x) \<and> (k = 0 \<longrightarrow> x = r)
     \<and> (k < length steps \<longrightarrow> x \<le> fst (steps ! k))
     \<and> \<bar>x * prod_list (map fst (take k steps)) - r\<bar> \<le> r * (of_nat k / 2 ^ 52)"
  using assms
proof (induction steps arbitrary: r u)
  case Nil
  then show ?case by (intro exI [of _ 0] exI [of _ r]) simp
next
  case (Cons s steps)
  obtain d v where s: "s = (d, v)" by fastforce
  with Cons.prems have d: "1 < d" "d \<le> 2 ^ 53" by auto
  show ?case
  proof (cases "g (Fin r) (Fin d)")
    case False
    then show ?thesis
      using Cons.prems s guard_le by (intro exI [of _ 0] exI [of _ r]) simp
  next
    case True
    note st = ladder_step [OF Cons.prems(1) d True]
    let ?r = "rnd (r / d)"
    have "\<exists>k x. k \<le> length steps \<and> ladder g steps (Fin ?r) v = (Fin x, (v # map snd steps) ! k)
       \<and> is_num (Fin x) \<and> 0 \<le> x \<and> (0 < k \<longrightarrow> 1 \<le> x) \<and> (k = 0 \<longrightarrow> x = ?r)
       \<and> (k < length steps \<longrightarrow> x \<le> fst (steps ! k))
       \<and> \<bar>x * prod_list (map fst (take k steps)) - ?r\<bar> \<le> ?r * (of_nat k / 2 ^ 52)"
      using Cons.prems st by (intro Cons.IH) auto
    then obtain k x where k: "k \<le> length steps" "ladder g steps (Fin ?r) v = (Fin x, (v # map snd steps) ! k)"
      "is_num (Fin x)" "0 \<le> x" "0 < k \<longrightarrow> 1 \<le> x" "k = 0 \<longrightarrow> x = ?r"
      "k < length steps \<longrightarrow> x \<le> fst (steps ! k)"
      "\<bar>x * prod_list (map fst (take k steps)) - ?r\<bar> \<le> ?r * (of_nat k / 2 ^ 52)" by blast
    have "of_nat k \<le> (of_nat (2 ^ 50) :: rat)" using k(1) Cons.prems(4) by (intro of_nat_mono) simp
    then have "of_nat k / 2 ^ 52 \<le> (1::rat)" by simp
    with error_compose [OF _ Cons.prems(2) _ _ st(4) k(8)] d
    have "\<bar>x * (d * prod_list (map fst (take k steps))) - r\<bar> \<le> r * (of_nat k / 2 ^ 52 + 1 / 2 ^ 52)"
      by simp
    then have e: "\<bar>x * prod_list (map fst (take (Suc k) (s # steps))) - r\<bar> \<le> r * (of_nat (Suc k) / 2 ^ 52)"
      by (simp add: s add_divide_distrib [symmetric] add.commute)
    have "1 \<le> x" using k(5,6) st(3) by (cases k) auto
    then show ?thesis
      using True k st e by (intro exI [of _ "Suc k"] exI [of _ x]) (simp add: s)
  qed
qed

text \<open>When every division is exact, so is the ladder.\<close>

lemma ladder_exact:
  assumes "is_num (Fin r)" and "0 \<le> r" and "\<forall>(d, v) \<in> set steps. d = 2 powi j" and "1 \<le> j" and "j \<le> 50"
  shows "\<exists>k. k \<le> length steps
     \<and> ladder g steps (Fin r) u = (Fin (r / (2 powi j) ^ k), (u # map snd steps) ! k)
     \<and> (0 < k \<longrightarrow> 1 \<le> r / (2 powi j) ^ k) \<and> (k < length steps \<longrightarrow> \<not> g (Fin (r / (2 powi j) ^ k)) (Fin (2 powi j)))"
  using assms(1-3)
proof (induction steps arbitrary: r u)
  case Nil
  then show ?case by (intro exI [of _ 0]) simp
next
  case (Cons s steps)
  let ?b = "2 powi j :: rat"
  obtain v where s: "s = (?b, v)" using Cons.prems(3) by (cases s) auto
  have b: "1 < ?b" "?b \<le> 2 ^ 53"
    using assms(4,5) powi_less_iff [of 0 j] powi_le_iff [of j 53] by simp_all
  show ?case
  proof (cases "g (Fin r) (Fin ?b)")
    case False
    then show ?thesis using Cons.prems s guard_le by (intro exI [of _ 0]) simp
  next
    case True
    note st = ladder_step [OF Cons.prems(1) b True]
    have "?b \<le> r" using True by (rule guard_ge)
    moreover have "(2::rat) powi (j - 1022) \<le> ?b" by (subst powi_le_iff) simp
    ultimately have "2 powi (j - 1022) \<le> \<bar>r\<bar>" by linarith
    then have ex: "rnd (r / ?b) = r / ?b"
      using is_repr_scale [of r j] Cons.prems(1) by (simp add: is_repr_def)
    have "\<exists>k. k \<le> length steps
       \<and> ladder g steps (Fin (r / ?b)) v = (Fin (r / ?b / ?b ^ k), (v # map snd steps) ! k)
       \<and> (0 < k \<longrightarrow> 1 \<le> r / ?b / ?b ^ k) \<and> (k < length steps \<longrightarrow> \<not> g (Fin (r / ?b / ?b ^ k)) (Fin ?b))"
      using Cons.prems st ex by (intro Cons.IH) auto
    then obtain k where k: "k \<le> length steps"
      "ladder g steps (Fin (r / ?b)) v = (Fin (r / ?b / ?b ^ k), (v # map snd steps) ! k)"
      "0 < k \<longrightarrow> 1 \<le> r / ?b / ?b ^ k" "k < length steps \<longrightarrow> \<not> g (Fin (r / ?b / ?b ^ k)) (Fin ?b)" by blast
    have "1 \<le> r / ?b / ?b ^ k" using k(3) st(3) ex by (cases k) auto
    then show ?thesis using True k st ex by (intro exI [of _ "Suc k"]) (simp add: s)
  qed
qed

end

interpretation gt_guard: threshold_guard js_gt
  by unfold_locales simp_all

interpretation ge_guard: threshold_guard js_ge
  by unfold_locales (auto simp: js_le_def js_eq_def)


section \<open>Accuracy of what is printed\<close>

lemma round_str:
  assumes "0 \<le> x" and "x \<le> 4 * 10 ^ 15"
  shows "num_str (math_round (Fin x)) = nat_str (nat \<lfloor>x + 1/2\<rfloor>)"
proof -
  let ?n = "\<lfloor>x + 1/2\<rfloor>"
  have n: "0 \<le> ?n" "?n \<le> 4 * 10 ^ 15" using assms by (simp_all add: floor_le_iff)
  then have "of_int ?n \<le> (of_int (4 * 10 ^ 15) :: rat)" by (simp only: of_int_le_iff)
  then have "of_int ?n < (9007199254740992 :: rat)" by simp
  then show ?thesis using n by (simp add: pos_str_def)
qed

text \<open>At least three significant digits: the relative error is at most 0.5 percent.\<close>

lemma precisionRound_accurate:
  assumes "1 \<le> x" and "x \<le> 4 * 10 ^ 15"
  shows "\<bar>decimal_val (precisionRound (Fin x)) - x\<bar> \<le> x / 200"
proof -
  have x21: "x < 10 ^ 21" using assms(2) by simp
  consider "x < 10" | "10 \<le> x" "x < 100" | "100 \<le> x" by linarith
  then show ?thesis
  proof cases
    case 1
    then show ?thesis
      using toFixed_accurate [of x 2] x21 assms by (simp add: precisionRound_def)
  next
    case 2
    then show ?thesis
      using toFixed_accurate [of x 1] x21 assms by (simp add: precisionRound_def)
  next
    case 3
    have "\<bar>of_int \<lfloor>x + 1/2\<rfloor> - x\<bar> \<le> 1/2" and "0 \<le> \<lfloor>x + 1/2\<rfloor>" using 3 by linarith+
    then show ?thesis
      using 3 round_str [of x] assms(2)
      by (simp add: precisionRound_def decimal_val_digits nat_str_digits of_nat_nat)
  qed
qed

lemma scaled_accuracy:
  fixes v x p r e :: rat
  assumes "\<bar>v - x\<bar> \<le> x / 200" and "\<bar>x * p - r\<bar> \<le> r * e" and "0 < p" and "0 \<le> r" and "e \<le> 5 / 2 ^ 52"
  shows "\<bar>v * p - r\<bar> \<le> r / 199"
proof -
  have "\<bar>v - x\<bar> * p \<le> x / 200 * p" using assms(1,3) by (intro mult_right_mono) auto
  moreover have "\<bar>v - x\<bar> * p = \<bar>v * p - x * p\<bar>"
    using assms(3) by (rule abs_diff_scale)
  ultimately have "\<bar>v * p - x * p\<bar> \<le> (x * p) / 200" by simp
  moreover have "e \<le> 1 / 1000000" using assms(5) by simp
  then have "r * e \<le> r * (1 / 1000000)" using assms(4) by (intro mult_left_mono)
  then have "\<bar>x * p - r\<bar> \<le> r / 1000000" using assms(2) by simp
  ultimately show ?thesis using assms(4) by linarith
qed

lemma prod_list_ge_one: "\<forall>d \<in> set ds. 1 \<le> (d::rat) \<Longrightarrow> 1 \<le> prod_list ds"
proof (induction ds)
  case (Cons d ds)
  then have "1 * 1 \<le> d * prod_list ds" by (intro mult_mono) auto
  then show ?case by simp
qed simp

text \<open>The result of a ladder with guard \<open>>\<close>, printed.\<close>

lemma print_ladder_accurate:
  assumes "is_num (Fin r)" and "1 \<le> r" and "\<forall>(d, v) \<in> set steps. 1 < d \<and> d \<le> 1000"
    and "length steps \<le> 5" and "r \<le> prod_list (map fst steps) * (2 * 10 ^ 15)"
  shows "\<exists>k s. k \<le> length steps
     \<and> print_scaled (ladder js_gt steps (Fin r) u) = s @ (u # map snd steps) ! k
     \<and> \<bar>decimal_val s * prod_list (map fst (take k steps)) - r\<bar> \<le> r / 199"
proof -
  have "\<forall>(d, v) \<in> set steps. 1 < d \<and> d \<le> 2 ^ 53" using assms(3) by fastforce
  from gt_guard.ladder_correct [OF assms(1) _ this, of u] assms(2,4)
  obtain k x where k: "k \<le> length steps" "ladder js_gt steps (Fin r) u = (Fin x, (u # map snd steps) ! k)"
    "0 < k \<longrightarrow> 1 \<le> x" "k = 0 \<longrightarrow> x = r" "k < length steps \<longrightarrow> x \<le> fst (steps ! k)"
    and e: "\<bar>x * prod_list (map fst (take k steps)) - r\<bar> \<le> r * (of_nat k / 2 ^ 52)" by auto
  let ?p = "prod_list (map fst (take k steps))"
  have p1: "1 \<le> ?p" using assms(3) by (intro prod_list_ge_one) (fastforce dest: in_set_takeD)
  have "of_nat k \<le> (5::rat)" using k(1) assms(4) by simp
  then have e5: "of_nat k / 2 ^ 52 \<le> (5 / 2 ^ 52 :: rat)" by (simp add: divide_right_mono)
  have x1: "1 \<le> x" using k(3,4) assms(2) by (cases k) auto
  have "x \<le> 4 * 10 ^ 15"
  proof (cases "k < length steps")
    case True
    then have "x \<le> fst (steps ! k)" using k(5) by simp
    also have "\<dots> \<le> 1000" using assms(3) nth_mem [OF True] by fastforce
    finally show ?thesis by simp
  next
    case False
    then have "x * ?p \<le> r + r * (of_nat k / 2 ^ 52)" using e by linarith
    also have "r * (of_nat k / 2 ^ 52) \<le> r * 1" using e5 assms(2) by (intro mult_left_mono) auto
    finally have "x * ?p \<le> 2 * r" by simp
    also have "\<dots> \<le> (4 * 10 ^ 15) * ?p" using assms(5) False k(1) by simp
    finally show ?thesis using p1 by (simp add: mult_le_cancel_right)
  qed
  with x1 have "\<bar>decimal_val (precisionRound (Fin x)) - x\<bar> \<le> x / 200" by (rule precisionRound_accurate)
  from scaled_accuracy [OF this e _ _ e5] have "\<bar>decimal_val (precisionRound (Fin x)) * ?p - r\<bar> \<le> r / 199"
    using p1 assms(2) by simp
  then show ?thesis
    using k(1,2) by (intro exI [of _ k] exI [of _ "precisionRound (Fin x)"]) (simp add: print_scaled_def)
qed

text \<open>
  C37: a count of at least 1 is printed as a decimal followed by the name of a power of 1000, and the
  decimal times that power is within 1/199 of the count: rounding the doubles and cutting the digits
  never lose more than about half a percent.
\<close>

theorem formatCount_accurate:
  assumes "is_num (Fin r)" and "1 \<le> r" and "r \<le> 10 ^ 30"
  shows "\<exists>k s. k \<le> 5 \<and> formatCount (Fin r) = s @ [[], ''K'', ''M'', ''B'', ''T'', ''Q''] ! k
           \<and> \<bar>decimal_val s * 1000 ^ k - r\<bar> \<le> r / 199"
proof -
  have "\<exists>k s. k \<le> length count_steps
     \<and> print_scaled (ladder js_gt count_steps (Fin r) []) = s @ ([] # map snd count_steps) ! k
     \<and> \<bar>decimal_val s * prod_list (map fst (take k count_steps)) - r\<bar> \<le> r / 199"
    using assms by (intro print_ladder_accurate) (auto simp: count_steps_def)
  moreover have "length count_steps = 5" by (simp add: count_steps_def)
  ultimately obtain k s where k: "k \<le> 5"
     "print_scaled (ladder js_gt count_steps (Fin r) []) = s @ ([] # map snd count_steps) ! k"
     "\<bar>decimal_val s * prod_list (map fst (take k count_steps)) - r\<bar> \<le> r / 199"
    by metis
  have "map fst count_steps = replicate 5 1000" by (simp add: count_steps_def numeral_eq_Suc)
  then have "map fst (take k count_steps) = replicate k 1000" using k(1) by (simp add: take_map [symmetric])
  moreover have "map snd count_steps = [''K'', ''M'', ''B'', ''T'', ''Q'']" by (simp add: count_steps_def)
  ultimately show ?thesis
    using k by (intro exI [of _ k] exI [of _ s]) (simp add: formatCount_ladder)
qed

theorem formatCount_accurate_witness:
  "formatCount (Fin 1234567) = ''1.23M'' \<and>
   (\<exists>k s. k \<le> 5 \<and> formatCount (Fin 1234567) = s @ [[], ''K'', ''M'', ''B'', ''T'', ''Q''] ! k
      \<and> \<bar>decimal_val s * 1000 ^ k - 1234567\<bar> \<le> 1234567 / 199)"
proof
  show "formatCount (Fin 1234567) = ''1.23M''" by code_simp
qed (use is_num_int [of 1234567] in \<open>intro formatCount_accurate; simp\<close>)

text \<open>
  A duration of at least one millisecond is printed as a decimal followed by the unit whose length
  in milliseconds is the product of the divisors climbed, and the decimal times that length is
  within 1/199 of the duration.
\<close>

theorem formatDuration_accurate:
  assumes "is_num (Fin r)" and "1 \<le> r" and "r \<le> 10 ^ 20"
  shows "\<exists>k s. k \<le> 5 \<and> formatDuration (Fin r) = s @ [''ms'', ''s'', ''m'', ''h'', ''d'', ''w''] ! k
           \<and> \<bar>decimal_val s * prod_list (take k [1000, 60, 60, 24, 7]) - r\<bar> \<le> r / 199"
proof -
  have "\<exists>k s. k \<le> length duration_steps
     \<and> print_scaled (ladder js_gt duration_steps (Fin r) ''ms'') = s @ (''ms'' # map snd duration_steps) ! k
     \<and> \<bar>decimal_val s * prod_list (map fst (take k duration_steps)) - r\<bar> \<le> r / 199"
    using assms by (intro print_ladder_accurate) (auto simp: duration_steps_def)
  moreover have "map fst (take k duration_steps) = take k [1000, 60, 60, 24, 7]" for k
    by (simp add: duration_steps_def take_map [symmetric])
  moreover have "length duration_steps = 5"
    and "map snd duration_steps = [''s'', ''m'', ''h'', ''d'', ''w'']" by (simp_all add: duration_steps_def)
  ultimately show ?thesis by (simp only: formatDuration_ladder)
qed

theorem formatDuration_accurate_witness:
  "formatDuration (Fin 5400000) = ''1.50h'' \<and>
   (\<exists>k s. k \<le> 5 \<and> formatDuration (Fin 5400000) = s @ [''ms'', ''s'', ''m'', ''h'', ''d'', ''w''] ! k
      \<and> \<bar>decimal_val s * prod_list (take k [1000, 60, 60, 24, 7]) - 5400000\<bar> \<le> 5400000 / 199)"
proof
  show "formatDuration (Fin 5400000) = ''1.50h''" by code_simp
qed (use is_num_int [of 5400000] in \<open>intro formatDuration_accurate; simp\<close>)

lemma formatDataSize_scaled:
  assumes "is_num (Fin r)" and "1 \<le> r" and "r \<le> 2 ^ 100"
  shows "\<exists>k. k \<le> 5 \<and> formatDataSizeMinUnit (Fin r) u =
             precisionRound (Fin (r / 1024 ^ k)) @ [[], ''K'', ''M'', ''G'', ''T'', ''P''] ! k @ u
           \<and> 1 \<le> r / 1024 ^ k \<and> (k < 5 \<longrightarrow> r / 1024 ^ k < 1024) \<and> r / 1024 ^ k \<le> 4 * 10 ^ 15"
proof -
  have b: "(2::rat) powi 10 = 1024" by simp
  have "\<exists>k. k \<le> length (size_steps u)
     \<and> ladder js_ge (size_steps u) (Fin r) u = (Fin (r / (2 powi 10) ^ k), (u # map snd (size_steps u)) ! k)
     \<and> (0 < k \<longrightarrow> 1 \<le> r / (2 powi 10) ^ k)
     \<and> (k < length (size_steps u) \<longrightarrow> \<not> js_ge (Fin (r / (2 powi 10) ^ k)) (Fin (2 powi 10)))"
    using assms by (intro ge_guard.ladder_exact) (auto simp: size_steps_def)
  moreover have "length (size_steps u) = 5" by (simp add: size_steps_def)
  ultimately obtain k where k: "k \<le> 5"
    "ladder js_ge (size_steps u) (Fin r) u = (Fin (r / 1024 ^ k), (u # map snd (size_steps u)) ! k)"
    "0 < k \<longrightarrow> 1 \<le> r / 1024 ^ k" "k < 5 \<longrightarrow> \<not> js_ge (Fin (r / 1024 ^ k)) (Fin 1024)"
    unfolding b by metis
  have lt: "k < 5 \<longrightarrow> r / 1024 ^ k < 1024" using k(4) by (auto simp: js_le_def js_eq_def)
  have one: "1 \<le> r / 1024 ^ k" using k(3) assms(2) by (cases k) auto
  have "r / 1024 ^ k \<le> 4 * 10 ^ 15"
  proof (cases "k < 5")
    case True
    then show ?thesis using lt by simp
  next
    case False
    then have "k = 5" using k(1) by simp
    then show ?thesis using assms(3) by simp
  qed
  moreover have "(u # map snd (size_steps u)) ! k = [[], ''K'', ''M'', ''G'', ''T'', ''P''] ! k @ u"
    using k(1) by (auto simp: size_steps_def le_Suc_eq numeral_eq_Suc)
  moreover have "\<not> js_eq (Fin r) (Fin 0)" using assms(2) by (simp add: js_eq_def)
  ultimately show ?thesis
    using k one lt by (intro exI [of _ k]) (simp add: formatDataSize_ladder print_scaled_def)
qed

text \<open>
  A data size of at least one byte is divided exactly (no rounding at all) by the largest power
  of 1024 up to \<open>1024^5\<close> that leaves at least 1, and what is printed is that quotient to within 0.5 percent
  followed by the prefix of the power and the caller's unit.
\<close>

theorem formatDataSize_accurate:
  assumes "is_num (Fin r)" and "1 \<le> r" and "r \<le> 2 ^ 100"
  shows "\<exists>k. k \<le> 5 \<and> formatDataSizeMinUnit (Fin r) u =
             precisionRound (Fin (r / 1024 ^ k)) @ [[], ''K'', ''M'', ''G'', ''T'', ''P''] ! k @ u
           \<and> 1 \<le> r / 1024 ^ k \<and> (k < 5 \<longrightarrow> r / 1024 ^ k < 1024)
           \<and> \<bar>decimal_val (precisionRound (Fin (r / 1024 ^ k))) - r / 1024 ^ k\<bar> \<le> (r / 1024 ^ k) / 200"
  using formatDataSize_scaled [OF assms, of u] precisionRound_accurate by blast

theorem formatDataSize_accurate_witness:
  "formatDataSize (Fin 123456) = ''121KB'' \<and>
   (\<exists>k. k \<le> 5 \<and> formatDataSize (Fin 123456) =
       precisionRound (Fin (123456 / 1024 ^ k)) @ [[], ''K'', ''M'', ''G'', ''T'', ''P''] ! k @ ''B'')"
proof
  show "formatDataSize (Fin 123456) = ''121KB''" by code_simp
  have "is_num (Fin 123456)" using is_num_int [of 123456] by simp
  from formatDataSize_accurate [OF this, of "''B''"]
  show "\<exists>k. k \<le> 5 \<and> formatDataSize (Fin 123456) =
       precisionRound (Fin (123456 / 1024 ^ k)) @ [[], ''K'', ''M'', ''G'', ''T'', ''P''] ! k @ ''B''"
    unfolding formatDataSize_def by fastforce
qed

end
