(* ===== verification/QueryState.thy ===== *)
theory QueryState
  imports JsDecimal
begin

text \<open>
  The part \<open>Query display\<close> of \<open>webapp/src/utils.js\<close>: the query object as the server sends it, its
  state, colour, progress and title.  A field that the server may leave out is an \<open>option\<close>; the
  fields it always sends (\<open>requireNonNull\<close> in BasicQueryInfo and QueryInfo) are not, so the
  presence test \<open>query.queryStats &&\<close> is always true and does not appear.  Reading a property of a missing \<open>errorCode\<close> raises
  a \<open>TypeError\<close>.
\<close>

section \<open>The query object\<close>

record error_code =
  ec_name :: string
  ec_code :: int

record warning =
  w_codeName :: string
  w_message :: string

record query_stats =
  qs_createTime :: string
  qs_elapsedTime :: string
  qs_executionTime :: string
  qs_totalCpuTime :: string
  qs_totalDrivers :: jsnum
  qs_queuedDrivers :: jsnum
  qs_runningDrivers :: jsnum
  qs_completedDrivers :: jsnum
  qs_cumulativeUserMemory :: jsnum
  qs_userMemoryReservation :: string
  qs_peakUserMemoryReservation :: string
  qs_fullyBlocked :: bool
  qs_blockedReasons :: "string list option"
  qs_progressPercentage :: "jsnum option"

record session =
  s_user :: string
  s_principal :: "string option"
  s_source :: "string option"

record query =
  q_queryId :: string
  q_state :: string
  q_query :: string
  q_errorType :: "string option"
  q_errorCode :: "error_code option"
  q_scheduled :: bool
  q_memoryPool :: string
  q_queryStats :: query_stats
  q_session :: session
  q_resourceGroupId :: "string list option"
  q_warnings :: "warning list"

section \<open>Colours\<close>

datatype state_color =
    C_QUEUED | C_RUNNING | C_PLANNING | C_FINISHED | C_BLOCKED | C_USER_ERROR | C_CANCELED
  | C_INSUFFICIENT_RESOURCES | C_EXTERNAL_ERROR | C_UNKNOWN_ERROR

fun STATE_COLOR_MAP :: "state_color \<Rightarrow> string" where
  "STATE_COLOR_MAP C_QUEUED = ''#1b8f72''"
| "STATE_COLOR_MAP C_RUNNING = ''#19874e''"
| "STATE_COLOR_MAP C_PLANNING = ''#674f98''"
| "STATE_COLOR_MAP C_FINISHED = ''#1a4629''"
| "STATE_COLOR_MAP C_BLOCKED = ''#61003b''"
| "STATE_COLOR_MAP C_USER_ERROR = ''#9a7d66''"
| "STATE_COLOR_MAP C_CANCELED = ''#858959''"
| "STATE_COLOR_MAP C_INSUFFICIENT_RESOURCES = ''#7f5b72''"
| "STATE_COLOR_MAP C_EXTERNAL_ERROR = ''#ca7640''"
| "STATE_COLOR_MAP C_UNKNOWN_ERROR = ''#943524''"

definition errorCode_name :: "('a) query_scheme \<Rightarrow> exn + string" where
  "errorCode_name q = res_map ec_name (res_of_option TypeError (q_errorCode q))"

definition getQueryStateColor :: "('a) query_scheme \<Rightarrow> exn + string" where
  "getQueryStateColor query =
     (let st = q_state query in
      if st = ''QUEUED'' then Inr (STATE_COLOR_MAP C_QUEUED)
      else if st = ''PLANNING'' then Inr (STATE_COLOR_MAP C_PLANNING)
      else if st = ''STARTING'' \<or> st = ''FINISHING'' \<or> st = ''RUNNING'' then
        (if qs_fullyBlocked (q_queryStats query) then Inr (STATE_COLOR_MAP C_BLOCKED)
         else Inr (STATE_COLOR_MAP C_RUNNING))
      else if st = ''FAILED'' then
        (if q_errorType query = Some ''USER_ERROR'' then
           res_map (\<lambda>n. if n = ''USER_CANCELED'' then STATE_COLOR_MAP C_CANCELED
                         else STATE_COLOR_MAP C_USER_ERROR) (errorCode_name query)
         else if q_errorType query = Some ''EXTERNAL'' then Inr (STATE_COLOR_MAP C_EXTERNAL_ERROR)
         else if q_errorType query = Some ''INSUFFICIENT_RESOURCES''
           then Inr (STATE_COLOR_MAP C_INSUFFICIENT_RESOURCES)
         else Inr (STATE_COLOR_MAP C_UNKNOWN_ERROR))
      else if st = ''FINISHED'' then Inr (STATE_COLOR_MAP C_FINISHED)
      else Inr (STATE_COLOR_MAP C_QUEUED))"

text \<open>
  The stage objects given to \<open>getStageStateColor\<close>: only these two properties are read, and either
  may be missing.
\<close>

record stage_view =
  sv_state :: "string option"
  sv_fullyBlocked :: "bool option"

definition getStageStateColor :: "stage_view \<Rightarrow> string" where
  "getStageStateColor stage =
     (case sv_state stage of
        None \<Rightarrow> ''#b5b5b5''
      | Some st \<Rightarrow>
          if st = ''PLANNED'' then STATE_COLOR_MAP C_QUEUED
          else if st = ''SCHEDULING'' \<or> st = ''SCHEDULING_SPLITS'' \<or> st = ''SCHEDULED''
            then STATE_COLOR_MAP C_PLANNING
          else if st = ''RUNNING'' then
            (if sv_fullyBlocked stage = Some True then STATE_COLOR_MAP C_BLOCKED
             else STATE_COLOR_MAP C_RUNNING)
          else if st = ''FINISHED'' then STATE_COLOR_MAP C_FINISHED
          else if st = ''CANCELED'' \<or> st = ''ABORTED'' then STATE_COLOR_MAP C_CANCELED
          else if st = ''FAILED'' then STATE_COLOR_MAP C_UNKNOWN_ERROR
          else ''#b5b5b5'')"

section \<open>States in words\<close>

definition running_title :: "('a) query_scheme \<Rightarrow> string" where
  "running_title query =
     (let stats = q_queryStats query;
          title = (if qs_fullyBlocked stats then
                     ''BLOCKED'' @
                     (case qs_blockedReasons stats of
                        Some rs \<Rightarrow> if rs \<noteq> [] then '' ('' @ js_join '', '' rs @ '')'' else []
                      | None \<Rightarrow> [])
                   else ''RUNNING'')
      in if q_memoryPool query = ''reserved'' then title @ '' (RESERVED)'' else title)"

definition getHumanReadableState :: "('a) query_scheme \<Rightarrow> exn + string" where
  "getHumanReadableState query =
     (let stats = q_queryStats query in
      if q_state query = ''RUNNING'' \<and> q_scheduled query
         \<and> js_gt (qs_totalDrivers stats) (Fin 0) \<and> js_ge (qs_runningDrivers stats) (Fin 0)
      then Inr (running_title query)
      else if q_state query = ''FAILED'' then
        (if q_errorType query = Some ''USER_ERROR'' then
           res_map (\<lambda>n. if n = ''USER_CANCELED'' then ''USER CANCELED'' else ''USER ERROR'')
             (errorCode_name query)
         else if q_errorType query = Some ''INTERNAL_ERROR'' then Inr ''INTERNAL ERROR''
         else if q_errorType query = Some ''INSUFFICIENT_RESOURCES'' then Inr ''INSUFFICIENT RESOURCES''
         else if q_errorType query = Some ''EXTERNAL'' then Inr ''EXTERNAL ERROR''
         else Inr (q_state query))
      else Inr (q_state query))"

section \<open>Progress\<close>

definition progress_truthy :: "('a) query_scheme \<Rightarrow> bool" where
  "progress_truthy query =
     (case qs_progressPercentage (q_queryStats query) of None \<Rightarrow> False | Some p \<Rightarrow> truthy_num p)"

definition getProgressBarPercentage :: "('a) query_scheme \<Rightarrow> jsnum" where
  "getProgressBarPercentage query =
     (case qs_progressPercentage (q_queryStats query) of
        None \<Rightarrow> Fin 100
      | Some progress \<Rightarrow>
          if \<not> truthy_num progress \<or> q_state query \<noteq> ''RUNNING'' then Fin 100
          else math_round progress)"

definition getProgressBarTitle :: "('a) query_scheme \<Rightarrow> exn + string" where
  "getProgressBarTitle query =
     (if progress_truthy query \<and> q_state query = ''RUNNING'' then
        res_map (\<lambda>s. s @ '' ('' @ num_str (getProgressBarPercentage query) @ ''%)'')
          (getHumanReadableState query)
      else getHumanReadableState query)"

definition isQueryEnded :: "('a) query_scheme \<Rightarrow> bool" where
  "isQueryEnded query \<longleftrightarrow> q_state query \<in> set [''FINISHED'', ''FAILED'', ''CANCELED'']"

section \<open>Properties\<close>

text \<open>
  What the server guarantees of the error fields: the error type is the type of the error code, so
  a query with an error type has an error code.
\<close>

definition error_fields_ok :: "('a) query_scheme \<Rightarrow> bool" where
  "error_fields_ok query \<longleftrightarrow> (q_errorType query \<noteq> None \<longrightarrow> q_errorCode query \<noteq> None)"

text \<open>The display category of a query, the meaning of a colour.\<close>

definition query_category :: "('a) query_scheme \<Rightarrow> state_color" where
  "query_category query =
     (if q_state query \<in> {''STARTING'', ''FINISHING'', ''RUNNING''} then
        (if qs_fullyBlocked (q_queryStats query) then C_BLOCKED else C_RUNNING)
      else if q_state query = ''PLANNING'' then C_PLANNING
      else if q_state query = ''FINISHED'' then C_FINISHED
      else if q_state query = ''FAILED'' then
        (if q_errorType query = Some ''USER_ERROR'' then
           (if map_option ec_name (q_errorCode query) = Some ''USER_CANCELED'' then C_CANCELED
            else C_USER_ERROR)
         else if q_errorType query = Some ''EXTERNAL'' then C_EXTERNAL_ERROR
         else if q_errorType query = Some ''INSUFFICIENT_RESOURCES'' then C_INSUFFICIENT_RESOURCES
         else C_UNKNOWN_ERROR)
      else C_QUEUED)"

text \<open>Two queries as the server sends them, for the concrete instances of the properties.\<close>

definition example_stats :: query_stats where
  "example_stats = \<lparr>qs_createTime = ''2020-01-01T00:00:00.000Z'', qs_elapsedTime = ''12.50s'',
     qs_executionTime = ''11.00s'', qs_totalCpuTime = ''3.20m'', qs_totalDrivers = Fin 10,
     qs_queuedDrivers = Fin 2, qs_runningDrivers = Fin 3, qs_completedDrivers = Fin 5,
     qs_cumulativeUserMemory = Fin 4096, qs_userMemoryReservation = ''1MB'',
     qs_peakUserMemoryReservation = ''2MB'', qs_fullyBlocked = False, qs_blockedReasons = None,
     qs_progressPercentage = Some (Fin (101/2))\<rparr>"

definition example_query :: query where
  "example_query = \<lparr>q_queryId = ''q1'', q_state = ''RUNNING'', q_query = ''select 1'',
     q_errorType = None, q_errorCode = None, q_scheduled = True, q_memoryPool = ''general'',
     q_queryStats = example_stats,
     q_session = \<lparr>s_user = ''alice'', s_principal = None, s_source = Some ''cli''\<rparr>,
     q_resourceGroupId = Some [''global'', ''adhoc''], q_warnings = []\<rparr>"

definition example_failed :: query where
  "example_failed = example_query\<lparr>q_queryId := ''q2'', q_state := ''FAILED'', q_errorType := Some ''USER_ERROR'',
     q_errorCode := Some \<lparr>ec_name = ''USER_CANCELED'', ec_code = 3\<rparr>\<rparr>"

lemmas example_defs = example_stats_def example_query_def example_failed_def

lemma STATE_COLOR_MAP_inject: "STATE_COLOR_MAP a = STATE_COLOR_MAP b \<longleftrightarrow> a = b"
  by (cases a; cases b) simp_all

lemma errorCode_name_Some: "q_errorCode query = Some c \<Longrightarrow> errorCode_name query = Inr (ec_name c)"
  by (simp add: errorCode_name_def)

lemma getQueryStateColor_category:
  assumes "error_fields_ok query"
  shows "getQueryStateColor query = Inr (STATE_COLOR_MAP (query_category query))"
proof (cases "q_errorType query = Some ''USER_ERROR''")
  case True
  then obtain c where "q_errorCode query = Some c"
    using assms by (auto simp: error_fields_ok_def)
  with True show ?thesis
    by (auto simp: getQueryStateColor_def query_category_def errorCode_name_def Let_def)
next
  case False
  then show ?thesis by (auto simp: getQueryStateColor_def query_category_def Let_def)
qed

lemma getHumanReadableState_ok:
  "error_fields_ok query \<Longrightarrow> \<exists>s. getHumanReadableState query = Inr s"
  by (auto simp: getHumanReadableState_def error_fields_ok_def errorCode_name_def Let_def)

text \<open>
  For a query whose error fields are as the server sends them, the colour is computed without
  raising, and two queries get the same colour exactly when they are in the same display category:
  no category is shown in another's colour.
\<close>

theorem query_color_faithful:
  assumes "error_fields_ok q1" and "error_fields_ok q2"
  shows "\<exists>c1 c2. getQueryStateColor q1 = Inr c1 \<and> getQueryStateColor q2 = Inr c2
           \<and> (c1 = c2 \<longleftrightarrow> query_category q1 = query_category q2)"
  using assms by (simp add: getQueryStateColor_category STATE_COLOR_MAP_inject)

theorem query_color_faithful_witness:
  "error_fields_ok example_query \<and> error_fields_ok example_failed
   \<and> query_category example_failed = C_CANCELED
   \<and> getQueryStateColor example_query \<noteq> getQueryStateColor example_failed"
proof -
  have ok: "error_fields_ok example_query" "error_fields_ok example_failed"
    by (simp_all add: error_fields_ok_def example_defs)
  have "query_category example_failed = C_CANCELED" "query_category example_query = C_RUNNING"
    by (simp_all add: query_category_def example_defs)
  then show ?thesis using ok query_color_faithful [OF ok] by auto
qed

lemma floor_round_bounds: "0 \<le> (p::rat) \<Longrightarrow> p \<le> 100 \<Longrightarrow> 0 \<le> \<lfloor>p + 1/2\<rfloor> \<and> \<lfloor>p + 1/2\<rfloor> \<le> 100"
  by linarith

text \<open>
  The progress bar shows a whole number of percent between 0 and 100 whenever the server's
  progress is missing or in that range, and it shows 100 for every query that is not running.
\<close>

theorem progress_bar_bounds:
  assumes "case qs_progressPercentage (q_queryStats query) of
             None \<Rightarrow> True | Some p \<Rightarrow> \<exists>r. p = Fin r \<and> 0 \<le> r \<and> r \<le> 100"
  shows "\<exists>n. getProgressBarPercentage query = Fin (of_int n) \<and> 0 \<le> n \<and> n \<le> 100
           \<and> (q_state query \<noteq> ''RUNNING'' \<longrightarrow> n = 100)"
proof (cases "qs_progressPercentage (q_queryStats query)")
  case None
  then show ?thesis by (intro exI [of _ 100]) (simp add: getProgressBarPercentage_def)
next
  case (Some p)
  with assms obtain r where r: "p = Fin r" "0 \<le> r" "r \<le> 100" by auto
  show ?thesis
  proof (cases "truthy_num p \<and> q_state query = ''RUNNING''")
    case True
    then show ?thesis
      using Some r floor_round_bounds [OF r(2,3)]
      by (intro exI [of _ "\<lfloor>r + 1/2\<rfloor>"]) (simp add: getProgressBarPercentage_def)
  next
    case False
    with Some show ?thesis
      by (intro exI [of _ 100]) (auto simp: getProgressBarPercentage_def)
  qed
qed

theorem progress_bar_bounds_witness:
  "getProgressBarPercentage example_query = Fin 51 \<and> 0 \<le> (51::int)"
proof -
  have "getProgressBarPercentage example_query = Fin 51" by code_simp
  moreover have "\<exists>n. getProgressBarPercentage example_query = Fin (of_int n) \<and> 0 \<le> n \<and> n \<le> 100
           \<and> (q_state example_query \<noteq> ''RUNNING'' \<longrightarrow> n = 100)"
    by (rule progress_bar_bounds) (auto simp: example_defs intro: exI [of _ "101/2"])
  ultimately show ?thesis by auto
qed

text \<open>
  A title always exists for a query with the server's error fields; it is the state in words,
  followed by the rounded percentage exactly for a running query with a non-zero progress.
\<close>

theorem progress_title_total:
  assumes "error_fields_ok query"
  shows "\<exists>s. getHumanReadableState query = Inr s \<and>
           getProgressBarTitle query = Inr (if progress_truthy query \<and> q_state query = ''RUNNING''
             then s @ '' ('' @ num_str (getProgressBarPercentage query) @ ''%)'' else s)"
  using getHumanReadableState_ok [OF assms] by (auto simp: getProgressBarTitle_def)

theorem progress_title_total_witness:
  "getProgressBarTitle example_query = Inr ''RUNNING (51%)''"
proof -
  have "error_fields_ok example_query" by (simp add: error_fields_ok_def example_defs)
  from progress_title_total [OF this] have "\<exists>s. getProgressBarTitle example_query = Inr s" by blast
  moreover have "getProgressBarTitle example_query = Inr ''RUNNING (51%)''" by code_simp
  ultimately show ?thesis by simp
qed

end
