(* ===== verification/ParseUnits.thy ===== *)
theory ParseUnits
  imports Format
begin

text \<open>
  \<open>parseDataSize\<close> and \<open>parseDuration\<close> of \<open>webapp/src/utils.js\<close>: the readers of the quantities the
  server sends as strings such as \<open>1.25GB\<close> or \<open>3.20m\<close>.  The regular expression of both is a
  deterministic scanner here, proved equal to the language the expression denotes.
\<close>

section \<open>The pattern\<close>

text \<open>
  \<open>/^\s*(\d+(?:\.\d+)?)\s*([a-zA-Z]+)\s*$/\<close>: the two groups of the match.  Every repetition of the
  pattern is followed by characters it cannot take, so the greedy scan never has to backtrack.
\<close>

definition scan_number :: "string \<Rightarrow> string \<times> string" where
  "scan_number s =
     (let i = takeWhile is_digit s; r = dropWhile is_digit s; f = takeWhile is_digit (tl r) in
      if i \<noteq> [] \<and> r \<noteq> [] \<and> hd r = CHR ''.'' \<and> f \<noteq> [] then (i @ CHR ''.'' # f, dropWhile is_digit (tl r))
      else (i, r))"

definition UNIT_PATTERN_exec :: "string \<Rightarrow> (string \<times> string) option" where
  "UNIT_PATTERN_exec value =
     (let (n, r) = scan_number (dropWhile is_ws value);
          u = takeWhile is_alpha (dropWhile is_ws r);
          rest = dropWhile is_ws (dropWhile is_alpha (dropWhile is_ws r))
      in if n = [] \<or> u = [] \<or> rest \<noteq> [] then None else Some (n, u))"

section \<open>The readers\<close>

text \<open>The result \<open>null\<close> is \<open>None\<close>.\<close>

definition parseDataSize :: "string \<Rightarrow> jsnum option" where
  "parseDataSize value =
     (case UNIT_PATTERN_exec value of
        None \<Rightarrow> None
      | Some (m1, m2) \<Rightarrow>
         (let number = parseFloat_dec m1 in
          if m2 = ''B'' then Some number
          else if m2 = ''kB'' then Some (js_mul number (Fin (2 ^ 10)))
          else if m2 = ''MB'' then Some (js_mul number (Fin (2 ^ 20)))
          else if m2 = ''GB'' then Some (js_mul number (Fin (2 ^ 30)))
          else if m2 = ''TB'' then Some (js_mul number (Fin (2 ^ 40)))
          else if m2 = ''PB'' then Some (js_mul number (Fin (2 ^ 50)))
          else None))"

definition parseDuration :: "string \<Rightarrow> jsnum option" where
  "parseDuration value =
     (case UNIT_PATTERN_exec value of
        None \<Rightarrow> None
      | Some (m1, m2) \<Rightarrow>
         (let number = parseFloat_dec m1 in
          if m2 = ''ns'' then Some (js_div number (Fin 1000000))
          else if m2 = ''us'' then Some (js_div number (Fin 1000))
          else if m2 = ''ms'' then Some number
          else if m2 = ''s'' then Some (js_mul number (Fin 1000))
          else if m2 = ''m'' then Some (js_mul (js_mul number (Fin 1000)) (Fin 60))
          else if m2 = ''h'' then Some (js_mul (js_mul (js_mul number (Fin 1000)) (Fin 60)) (Fin 60))
          else if m2 = ''d''
            then Some (js_mul (js_mul (js_mul (js_mul number (Fin 1000)) (Fin 60)) (Fin 60)) (Fin 24))
          else None))"

section \<open>The language of the pattern\<close>

definition is_decimal :: "string \<Rightarrow> bool" where
  "is_decimal n \<longleftrightarrow> (\<exists>i f. i \<noteq> [] \<and> list_all is_digit i \<and> list_all is_digit f
      \<and> (n = i \<or> f \<noteq> [] \<and> n = i @ CHR ''.'' # f))"

definition unit_pattern :: "string \<Rightarrow> string \<Rightarrow> string \<Rightarrow> bool" where
  "unit_pattern v n u \<longleftrightarrow> (\<exists>a b c. v = a @ n @ b @ u @ c \<and> is_decimal n \<and> u \<noteq> [] \<and> list_all is_alpha u
      \<and> list_all is_ws a \<and> list_all is_ws b \<and> list_all is_ws c)"

lemma ws_not_digit: "is_ws c \<Longrightarrow> \<not> is_digit c"
  using digit_not_ws by blast

lemma ws_not_alpha: "is_ws c \<Longrightarrow> \<not> is_alpha c"
  using alpha_not_ws by blast

lemma dot_facts: "\<not> is_ws (CHR ''.'')" "\<not> is_alpha (CHR ''.'')"
  by (simp_all add: is_ws_def is_alpha_def is_upper_def is_lower_def code_unit_def)

lemma scan_span:
  assumes "list_all P a" and "b = [] \<or> \<not> P (hd b)"
  shows "takeWhile P (a @ b) = a" and "dropWhile P (a @ b) = b"
  using assms by (induction a) (auto simp: takeWhile_eq_Nil_iff dropWhile_eq_self_iff)

lemma list_all_takeWhile: "list_all P (takeWhile P s)"
  by (auto simp: list_all_iff dest: set_takeWhileD)

lemma span_split: "s = takeWhile P s @ dropWhile P s"
  by simp

lemma is_decimal_hd: "is_decimal n \<Longrightarrow> n \<noteq> [] \<and> is_digit (hd n)"
  by (auto simp: is_decimal_def list_all_iff)

lemma scan_number_complete:
  assumes n: "is_decimal n" and r: "r = [] \<or> \<not> is_digit (hd r) \<and> hd r \<noteq> CHR ''.''"
  shows "scan_number (n @ r) = (n, r)"
proof -
  from n obtain i f where i: "i \<noteq> []" "list_all is_digit i" "list_all is_digit f"
    and n: "n = i \<or> f \<noteq> [] \<and> n = i @ CHR ''.'' # f" unfolding is_decimal_def by blast
  from n show ?thesis
  proof
    assume "n = i"
    then show ?thesis using r scan_span [OF i(2), of r] by (auto simp: scan_number_def Let_def)
  next
    assume f: "f \<noteq> [] \<and> n = i @ CHR ''.'' # f"
    have "takeWhile is_digit (f @ r) = f" "dropWhile is_digit (f @ r) = r"
      using scan_span [OF i(3), of r] r by auto
    then show ?thesis
      using f i(1) scan_span [OF i(2), of "CHR ''.'' # f @ r"] by (simp add: scan_number_def Let_def)
  qed
qed

lemma scan_number_sound:
  assumes "scan_number s = (n, r)" and "n \<noteq> []"
  shows "s = n @ r \<and> is_decimal n"
proof -
  let ?i = "takeWhile is_digit s" and ?r = "dropWhile is_digit s"
  let ?f = "takeWhile is_digit (tl ?r)"
  show ?thesis
  proof (cases "?i \<noteq> [] \<and> ?r \<noteq> [] \<and> hd ?r = CHR ''.'' \<and> ?f \<noteq> []")
    case True
    then have n: "n = ?i @ CHR ''.'' # ?f" and r: "r = dropWhile is_digit (tl ?r)"
      using assms(1) by (simp_all add: scan_number_def Let_def)
    have "s = ?i @ CHR ''.'' # tl ?r" using True span_split [of s is_digit] by (metis list.collapse)
    then have s: "s = n @ r" using n r by simp
    then show ?thesis
      using n True list_all_takeWhile [of is_digit] unfolding is_decimal_def by blast
  next
    case False
    then have "n = ?i" "r = ?r" using assms(1) by (simp_all add: scan_number_def Let_def split: if_splits)
    then have "s = n @ r" "n \<noteq> []" "list_all is_digit n" using assms(2) list_all_takeWhile [of is_digit s] by auto
    then show ?thesis unfolding is_decimal_def by blast
  qed
qed


lemma unit_pattern_exec_iff: "UNIT_PATTERN_exec v = Some (n, u) \<longleftrightarrow> unit_pattern v n u"
proof
  assume e: "UNIT_PATTERN_exec v = Some (n, u)"
  let ?a = "takeWhile is_ws v"
  obtain n' r where nr: "scan_number (dropWhile is_ws v) = (n', r)" by fastforce
  let ?b = "takeWhile is_ws r" and ?s = "dropWhile is_ws r"
  let ?c = "dropWhile is_alpha ?s"
  from e nr have u: "n' = n" "n \<noteq> []" "u = takeWhile is_alpha ?s" "u \<noteq> []" "dropWhile is_ws ?c = []"
    by (auto simp: UNIT_PATTERN_exec_def Let_def split: if_splits)
  have "v = ?a @ n @ ?b @ u @ ?c" and "is_decimal n"
    using scan_number_sound [OF nr] u by (metis takeWhile_dropWhile_id)+
  moreover have "list_all is_ws ?c" using u(5) by (simp add: list_all_iff)
  ultimately show "unit_pattern v n u"
    unfolding unit_pattern_def using u(3,4) list_all_takeWhile by metis
next
  assume "unit_pattern v n u"
  then obtain a b c where v: "v = a @ n @ b @ u @ c" and n: "is_decimal n" and u: "u \<noteq> []" "list_all is_alpha u"
    and ws: "list_all is_ws a" "list_all is_ws b" "list_all is_ws c" unfolding unit_pattern_def by blast
  have hu: "is_alpha (hd u)" using u by (cases u) auto
  have hb: "b @ u @ c = [] \<or> \<not> is_digit (hd (b @ u @ c)) \<and> hd (b @ u @ c) \<noteq> CHR ''.''"
    using hu u ws(2) dot_facts ws_not_digit alpha_not_digit by (cases b; cases u) auto
  have "dropWhile is_ws v = n @ b @ u @ c"
    using scan_span(2) [OF ws(1), of "n @ b @ u @ c"] is_decimal_hd [OF n] v by simp
  moreover have "dropWhile is_ws (b @ u @ c) = u @ c"
    using scan_span(2) [OF ws(2), of "u @ c"] hu u(1) by simp
  moreover have "c = [] \<or> \<not> is_alpha (hd c)" using ws(3) by (cases c) (auto dest: ws_not_alpha)
  then have "takeWhile is_alpha (u @ c) = u" "dropWhile is_alpha (u @ c) = c"
    using scan_span [OF u(2), of c] by simp_all
  moreover have "dropWhile is_ws c = []" using ws(3) by (simp add: list_all_iff)
  ultimately show "UNIT_PATTERN_exec v = Some (n, u)"
    using scan_number_complete [OF n hb] is_decimal_hd [OF n] u(1) by (simp add: UNIT_PATTERN_exec_def)
qed



section \<open>Values\<close>

text \<open>\<open>near d k x\<close>: \<open>x\<close> is the non-negative \<open>d\<close> after \<open>k\<close> roundings.\<close>

definition near :: "rat \<Rightarrow> nat \<Rightarrow> rat \<Rightarrow> bool" where
  "near d k x \<longleftrightarrow> 0 \<le> d \<and> \<bar>x - d\<bar> \<le> d * (of_nat k / 2 ^ 52)"

definition mid_range :: "rat \<Rightarrow> bool" where
  "mid_range d \<longleftrightarrow> d = 0 \<or> 1 / 2 ^ 300 \<le> d \<and> d \<le> 2 ^ 300"

lemma near_refl: "0 \<le> d \<Longrightarrow> near d 0 d"
  by (simp add: near_def)

lemma near_scale:
  assumes "near d k x" and "0 < m"
  shows "near (d * m) k (x * m)"
proof -
  have "\<bar>x - d\<bar> * m \<le> d * (of_nat k / 2 ^ 52) * m" using assms by (intro mult_right_mono) (auto simp: near_def)
  moreover have "\<bar>x - d\<bar> * m = \<bar>x * m - d * m\<bar>"
    using assms(2) by (rule abs_diff_scale)
  moreover have "d * (of_nat k / 2 ^ 52) * m = d * m * (of_nat k / 2 ^ 52)" by (simp only: mult_ac)
  ultimately have "\<bar>x * m - d * m\<bar> \<le> d * m * (of_nat k / 2 ^ 52)" by linarith
  then show ?thesis using assms unfolding near_def by simp
qed

lemma near_half:
  assumes "near d k x" and "k \<le> 20"
  shows "d / 2 \<le> x" and "x \<le> 2 * d"
proof -
  have "of_nat k \<le> (20::rat)" using assms(2) by simp
  then have "of_nat k / 2 ^ 52 \<le> (1/2 :: rat)" by simp
  then have "d * (of_nat k / 2 ^ 52) \<le> d * (1/2)" using assms(1) by (intro mult_left_mono) (auto simp: near_def)
  then show "d / 2 \<le> x" and "x \<le> 2 * d" using assms(1) unfolding near_def by linarith+
qed

lemma near_fl:
  assumes n: "near d k x" and k: "k \<le> 10" and d: "mid_range d"
  shows "fl x = Fin (rnd x)" and "near d (Suc k) (rnd x)"
proof -
  have h: "d / 2 \<le> x" "x \<le> 2 * d" using near_half [OF n] k by simp_all
  have d0: "0 \<le> d" using n by (simp add: near_def)
  have e: "\<bar>rnd x - x\<bar> \<le> x / 2 ^ 53"
  proof (cases "d = 0")
    case False
    have "(2::rat) powi (-1022) \<le> 2 powi (-301)" by (simp only: powi_le_iff)
    also have "\<dots> = 1 / 2 ^ 300 / 2" by (simp add: power_int_minus)
    also have "\<dots> \<le> x" using False d h(1) by (simp add: mid_range_def)
    finally show ?thesis using rnd_relative_error [of x] h(1) d0 by simp
  qed (use h in simp)
  have "x / 2 ^ 53 \<le> d / 2 ^ 52" using h(2) by simp
  then have "\<bar>rnd x - d\<bar> \<le> d * (of_nat k / 2 ^ 52) + d / 2 ^ 52" using e n unfolding near_def by linarith
  then show "near d (Suc k) (rnd x)" using d0 by (simp add: near_def field_simps)
  from near_half [OF this] have r: "0 \<le> rnd x" "rnd x \<le> 2 * d" using k d0 by simp_all
  have "d \<le> 2 ^ 300" using d by (auto simp: mid_range_def)
  then have "\<bar>rnd x\<bar> < 2 powi 302" using r by simp
  then have "\<not> is_huge (rnd x)" by (rule not_huge_powi) simp
  then show "fl x = Fin (rnd x)" by (simp add: fl_Fin_iff)
qed

lemma decimal_val_nonneg: "0 \<le> decimal_val n"
  by (simp add: decimal_val_def Let_def)

lemma parseFloat_near:
  assumes "mid_range (decimal_val n)"
  shows "parseFloat_dec n = Fin (rnd (decimal_val n))" and "near (decimal_val n) 1 (rnd (decimal_val n))"
  using near_fl [OF near_refl [OF decimal_val_nonneg] _ assms] by (simp_all add: parseFloat_dec_def)

lemma js_mul_near:
  assumes "near d k x" and "k \<le> 10" and "mid_range (d * m)" and "0 < m"
  shows "js_mul (Fin x) (Fin m) = Fin (rnd (x * m))" and "near (d * m) (Suc k) (rnd (x * m))"
  using near_fl [OF near_scale [OF assms(1,4)] assms(2,3)] by simp_all

lemma js_div_near:
  assumes "near d k x" and "k \<le> 10" and "mid_range (d / m)" and "0 < m"
  shows "js_div (Fin x) (Fin m) = Fin (rnd (x / m))" and "near (d / m) (Suc k) (rnd (x / m))"
  using near_fl [of "d / m" k "x / m"] near_scale [OF assms(1), of "1 / m"] assms(2-4) by simp_all

text \<open>Multiplying by a power of two does not round.\<close>

lemma js_mul_pow2:
  assumes "near d 1 r" and "is_repr r" and "mid_range d" and "j \<le> 50"
  shows "js_mul (Fin r) (Fin (2 ^ j)) = Fin (r * 2 ^ j)"
proof (cases "d = 0")
  case False
  have r: "d / 2 \<le> r" "r \<le> 2 * d" and d: "1 / 2 ^ 300 \<le> d" "d \<le> 2 ^ 300"
    using near_half [OF assms(1)] False assms(3) by (simp_all add: mid_range_def)
  have "(2::rat) powi (- int j - 1022) \<le> 2 powi (-301)" by (simp only: powi_le_iff)
  also have "\<dots> = 1 / 2 ^ 300 / 2" by (simp add: power_int_minus)
  also have "\<dots> \<le> d / 2" using d(1) by (rule divide_right_mono) simp
  also have "\<dots> \<le> \<bar>r\<bar>" using r(1) by linarith
  finally have "is_repr (r / 2 powi (- int j))" using assms(2) by (intro is_repr_scale)
  then have repr: "is_repr (r * 2 ^ j)" by (simp add: power_int_minus field_simps)
  have "(0::rat) \<le> 1 / 2 ^ 300" by simp
  then have r0: "0 \<le> r" using r(1) d(1) by linarith
  have "(2::rat) ^ j \<le> 2 ^ 50" using assms(4) by (intro power_increasing) simp_all
  then have "r * 2 ^ j \<le> (2 * 2 ^ 300) * 2 ^ 50" using r(2) d(2) r0 by (intro mult_mono) simp_all
  then have "\<bar>r * 2 ^ j\<bar> < 2 powi 352" using r0 by simp
  then have "\<not> is_huge (r * 2 ^ j)" by (rule not_huge_powi) simp
  then show ?thesis using repr by (simp add: fl_repr)
qed (use assms(1) in \<open>simp add: near_def fl_def rnd_0\<close>)

text \<open>The units and their values in bytes and in milliseconds.\<close>

definition size_unit :: "string \<Rightarrow> rat option" where
  "size_unit = map_of [(''B'', 1), (''kB'', 1024), (''MB'', 1024 ^ 2), (''GB'', 1024 ^ 3),
                       (''TB'', 1024 ^ 4), (''PB'', 1024 ^ 5)]"

definition duration_unit :: "string \<Rightarrow> rat option" where
  "duration_unit = map_of [(''ns'', 1 / 1000000), (''us'', 1 / 1000), (''ms'', 1), (''s'', 1000),
                           (''m'', 60000), (''h'', 3600000), (''d'', 86400000)]"

definition plain_range :: "rat \<Rightarrow> bool" where
  "plain_range d \<longleftrightarrow> d = 0 \<or> 1 / 2 ^ 200 \<le> d \<and> d \<le> 2 ^ 200"

lemma mid_range_scale:
  assumes "plain_range d" and "1 / 2 ^ 100 \<le> m" and "m \<le> 2 ^ 100"
  shows "mid_range (d * m)"
proof (cases "d = 0")
  case False
  then have d: "1 / 2 ^ 200 \<le> d" "d \<le> 2 ^ 200" using assms(1) by (simp_all add: plain_range_def)
  have "(0::rat) \<le> 1 / 2 ^ 200" "(0::rat) \<le> 1 / 2 ^ 100" by simp_all
  then have "0 \<le> d" "0 \<le> m" using d(1) assms(2) by (blast intro: order_trans)+
  then have "1 / 2 ^ 200 * (1 / 2 ^ 100) \<le> d * m" and "d * m \<le> 2 ^ 200 * 2 ^ 100"
    using d assms(2,3) by (intro mult_mono; simp)+
  then show ?thesis by (simp add: mid_range_def)
qed (simp add: mid_range_def)

lemma plain_mid: "plain_range d \<Longrightarrow> mid_range d"
  using mid_range_scale [of d 1] by simp

lemma parseDataSize_None:
  "parseDataSize v = None \<longleftrightarrow> \<not> (\<exists>n u. unit_pattern v n u \<and> size_unit u \<noteq> None)"
proof (cases "UNIT_PATTERN_exec v")
  case None
  then have "\<not> unit_pattern v n u" for n u by (simp add: unit_pattern_exec_iff [symmetric])
  then show ?thesis using None by (simp add: parseDataSize_def)
next
  case (Some nu)
  then obtain n u where nu: "UNIT_PATTERN_exec v = Some (n, u)" by (cases nu) auto
  then have "unit_pattern v n' u' \<longleftrightarrow> n' = n \<and> u' = u" for n' u'
    by (auto simp: unit_pattern_exec_iff [symmetric])
  then show ?thesis using nu by (simp add: parseDataSize_def size_unit_def Let_def)
qed

lemma parseDataSize_exact:
  assumes "unit_pattern v n u" and "size_unit u = Some m" and "mid_range (decimal_val n)"
  shows "parseDataSize v = Some (Fin (rnd (decimal_val n) * m))"
proof -
  let ?r = "rnd (decimal_val n)"
  note p = parseFloat_near [OF assms(3)]
  have mul: "js_mul (Fin ?r) (Fin (2 ^ j)) = Fin (?r * 2 ^ j)" if "j \<le> 50" for j
    using js_mul_pow2 [OF p(2) is_repr_rnd assms(3) that] .
  have e: "UNIT_PATTERN_exec v = Some (n, u)" using assms(1) by (simp add: unit_pattern_exec_iff)
  show ?thesis
    using assms(2) e p(1) mul [of 10] mul [of 20] mul [of 30] mul [of 40] mul [of 50]
    by (simp add: parseDataSize_def size_unit_def Let_def del: js_mul.simps split: if_splits)
qed

text \<open>
  C21: \<open>parseDataSize\<close> accepts exactly the strings of the pattern whose unit is one of
  B, kB, MB, GB, TB and PB, and the number it returns is the decimal, rounded once to a double, times the
  value of the unit with no further rounding.
\<close>

theorem parseDataSize_correct:
  "(parseDataSize v = None \<longleftrightarrow> \<not> (\<exists>n u. unit_pattern v n u \<and> size_unit u \<noteq> None))
   \<and> (\<forall>n u m. unit_pattern v n u \<and> size_unit u = Some m \<and> plain_range (decimal_val n) \<longrightarrow>
        parseDataSize v = Some (Fin (rnd (decimal_val n) * m))
        \<and> \<bar>rnd (decimal_val n) * m - decimal_val n * m\<bar> \<le> decimal_val n * m * (1 / 2 ^ 52))"
proof (intro conjI allI impI parseDataSize_None)
  fix n u m
  assume a: "unit_pattern v n u \<and> size_unit u = Some m \<and> plain_range (decimal_val n)"
  then show "parseDataSize v = Some (Fin (rnd (decimal_val n) * m))"
    using parseDataSize_exact plain_mid by blast
  have "0 < m" using a by (auto simp: size_unit_def split: if_splits)
  then show "\<bar>rnd (decimal_val n) * m - decimal_val n * m\<bar> \<le> decimal_val n * m * (1 / 2 ^ 52)"
    using near_scale [OF parseFloat_near(2), of n m] a plain_mid by (auto simp: near_def)
qed

lemma pattern_example: "unit_pattern '' 1.5 GB'' ''1.5'' ''GB''"
  unfolding unit_pattern_exec_iff [symmetric] by code_simp

lemma decimal_val_example: "decimal_val ''1.5'' = 3/2"
  by code_simp

theorem parseDataSize_correct_witness:
  "parseDataSize '' 1.5 GB'' = Some (Fin 1610612736) \<and> parseDataSize ''1.5KB'' = None"
proof -
  have "plain_range (decimal_val ''1.5'')" unfolding decimal_val_example by (simp add: plain_range_def)
  moreover have "size_unit ''GB'' = Some (1024 ^ 3)" by (simp add: size_unit_def)
  ultimately have "parseDataSize '' 1.5 GB'' = Some (Fin (rnd (decimal_val ''1.5'') * 1024 ^ 3))"
    using parseDataSize_correct [of "'' 1.5 GB''"] pattern_example by blast
  moreover have "rnd (decimal_val ''1.5'') = 3/2" unfolding decimal_val_example by code_simp
  moreover have "(3/2) * 1024 ^ 3 = (1610612736 :: rat)" by simp
  moreover have "parseDataSize ''1.5KB'' = None" by code_simp
  ultimately show ?thesis by metis
qed

lemma parseDuration_None:
  "parseDuration v = None \<longleftrightarrow> \<not> (\<exists>n u. unit_pattern v n u \<and> duration_unit u \<noteq> None)"
proof (cases "UNIT_PATTERN_exec v")
  case None
  then have "\<not> unit_pattern v n u" for n u by (simp add: unit_pattern_exec_iff [symmetric])
  then show ?thesis using None by (simp add: parseDuration_def)
next
  case (Some nu)
  then obtain n u where nu: "UNIT_PATTERN_exec v = Some (n, u)" by (cases nu) auto
  then have "unit_pattern v n' u' \<longleftrightarrow> n' = n \<and> u' = u" for n' u'
    by (auto simp: unit_pattern_exec_iff [symmetric])
  then show ?thesis using nu by (simp add: parseDuration_def duration_unit_def Let_def)
qed

lemma parseDuration_near:
  assumes "unit_pattern v n u" and "duration_unit u = Some m" and "plain_range (decimal_val n)"
  shows "\<exists>x k. parseDuration v = Some (Fin x) \<and> k \<le> 5 \<and> near (decimal_val n * m) k x"
proof -
  let ?d = "decimal_val n"
  have mid: "mid_range (?d * q)" if "1 / 2 ^ 100 \<le> q" "q \<le> 2 ^ 100" for q
    using mid_range_scale [OF assms(3) that] .
  note p = parseFloat_near [OF plain_mid [OF assms(3)]]
  have e: "UNIT_PATTERN_exec v = Some (n, u)" using assms(1) by (simp add: unit_pattern_exec_iff)
  define x1 where "x1 = rnd (rnd ?d * 1000)"
  define x2 where "x2 = rnd (x1 * 60)"
  define x3 where "x3 = rnd (x2 * 60)"
  define x4 where "x4 = rnd (x3 * 24)"
  have s1: "js_mul (Fin (rnd ?d)) (Fin 1000) = Fin x1" "near (?d * 1000) 2 x1"
    using js_mul_near [OF p(2), of 1000] mid [of 1000] by (simp_all add: x1_def numeral_2_eq_2)
  have s2: "js_mul (Fin x1) (Fin 60) = Fin x2" "near (?d * 60000) 3 x2"
    using js_mul_near [OF s1(2), of 60] mid [of 60000] by (simp_all add: x2_def mult.assoc numeral_3_eq_3)
  have s3: "js_mul (Fin x2) (Fin 60) = Fin x3" "near (?d * 3600000) 4 x3"
    using js_mul_near [OF s2(2), of 60] mid [of 3600000] by (simp_all add: x3_def mult.assoc)
  have s4: "js_mul (Fin x3) (Fin 24) = Fin x4" "near (?d * 86400000) 5 x4"
    using js_mul_near [OF s3(2), of 24] mid [of 86400000] by (simp_all add: x4_def mult.assoc)
  have d1: "js_div (Fin (rnd ?d)) (Fin 1000000) = Fin (rnd (rnd ?d / 1000000))"
      "near (?d / 1000000) 2 (rnd (rnd ?d / 1000000))"
    using js_div_near [OF p(2), of 1000000] mid [of "1/1000000"] by (simp_all add: numeral_2_eq_2)
  have d2: "js_div (Fin (rnd ?d)) (Fin 1000) = Fin (rnd (rnd ?d / 1000))" "near (?d / 1000) 2 (rnd (rnd ?d / 1000))"
    using js_div_near [OF p(2), of 1000] mid [of "1/1000"] by (simp_all add: numeral_2_eq_2)
  have inv: "?d * m = ?d / c" if "m * c = 1" for c
  proof -
    have "c \<noteq> 0" using that by auto
    then show ?thesis using that by (simp add: field_simps)
  qed
  have n1: "m * 1000000 = 1 \<Longrightarrow> near (?d * m) 2 (rnd (rnd ?d / 1000000))"
    and n2: "m * 1000 = 1 \<Longrightarrow> near (?d * m) 2 (rnd (rnd ?d / 1000))"
    using d1(2) d2(2) inv by simp_all
  show ?thesis
    using assms(2) e p s1 s2 s3 s4 d1(1) d2(1) n1 n2
    by (auto simp: parseDuration_def duration_unit_def Let_def simp del: js_mul.simps js_div.simps
        split: if_splits intro: exI [of _ 1] exI [of _ 2] exI [of _ 3] exI [of _ 4] exI [of _ 5])
qed

text \<open>
  \<open>parseDuration\<close> accepts exactly the strings of the pattern whose unit is one of
  ns, us, ms, s, m, h and d, and returns the duration in milliseconds to within a relative error of five roundings.
\<close>

theorem parseDuration_correct:
  "(parseDuration v = None \<longleftrightarrow> \<not> (\<exists>n u. unit_pattern v n u \<and> duration_unit u \<noteq> None))
   \<and> (\<forall>n u m. unit_pattern v n u \<and> duration_unit u = Some m \<and> plain_range (decimal_val n) \<longrightarrow>
        (\<exists>x. parseDuration v = Some (Fin x)
           \<and> \<bar>x - decimal_val n * m\<bar> \<le> decimal_val n * m * (5 / 2 ^ 52)))"
proof (intro conjI allI impI parseDuration_None)
  fix n u m
  assume "unit_pattern v n u \<and> duration_unit u = Some m \<and> plain_range (decimal_val n)"
  then obtain x k where x: "parseDuration v = Some (Fin x)" "k \<le> 5" "near (decimal_val n * m) k x"
    using parseDuration_near by blast
  have "of_nat k / 2 ^ 52 \<le> (5 / 2 ^ 52 :: rat)" using x(2) by (simp add: divide_right_mono)
  then have "decimal_val n * m * (of_nat k / 2 ^ 52) \<le> decimal_val n * m * (5 / 2 ^ 52)"
    using x(3) by (intro mult_left_mono) (auto simp: near_def)
  then show "\<exists>x. parseDuration v = Some (Fin x)
           \<and> \<bar>x - decimal_val n * m\<bar> \<le> decimal_val n * m * (5 / 2 ^ 52)"
    using x by (intro exI [of _ x]) (auto simp: near_def)
qed

theorem parseDuration_correct_witness:
  "parseDuration ''2.5h'' = Some (Fin 9000000) \<and>
   (\<exists>x. parseDuration ''2.5h'' = Some (Fin x) \<and> \<bar>x - 9000000\<bar> \<le> 9000000 * (5 / 2 ^ 52))"
proof
  show "parseDuration ''2.5h'' = Some (Fin 9000000)" by code_simp
  have d: "decimal_val ''2.5'' = 5/2" by code_simp
  have "unit_pattern ''2.5h'' ''2.5'' ''h''" unfolding unit_pattern_exec_iff [symmetric] by code_simp
  moreover have "duration_unit ''h'' = Some 3600000" by (simp add: duration_unit_def)
  moreover have "plain_range (decimal_val ''2.5'')" unfolding d by (simp add: plain_range_def)
  ultimately have "\<exists>x. parseDuration ''2.5h'' = Some (Fin x)
      \<and> \<bar>x - decimal_val ''2.5'' * 3600000\<bar> \<le> decimal_val ''2.5'' * 3600000 * (5 / 2 ^ 52)"
    using parseDuration_correct [of "''2.5h''"] by blast
  then show "\<exists>x. parseDuration ''2.5h'' = Some (Fin x) \<and> \<bar>x - 9000000\<bar> \<le> 9000000 * (5 / 2 ^ 52)"
    unfolding d by simp
qed

section \<open>Reading back what is printed\<close>

lemma point_str_decimal:
  assumes "0 < f"
  shows "is_decimal (point_str n f)"
proof -
  define m where "m = (if length (nat_str n) \<le> f
      then replicate (f + 1 - length (nat_str n)) (CHR ''0'') @ nat_str n else nat_str n)"
  have "f < length m" and "list_all is_digit m"
    using nat_str_digits [of n] by (auto simp: m_def list_all_iff)
  moreover have "point_str n f = take (length m - f) m @ CHR ''.'' # drop (length m - f) m"
    using assms by (simp add: point_str_def Let_def m_def)
  ultimately show ?thesis
    using assms unfolding is_decimal_def
    by (intro exI [of _ "take (length m - f) m"] exI [of _ "drop (length m - f) m"])
      (auto simp: list_all_iff dest: in_set_takeD in_set_dropD)
qed

lemma nat_str_decimal: "is_decimal (nat_str n)"
  using nat_str_digits [of n] unfolding is_decimal_def
  by (intro exI [of _ "nat_str n"] exI [of _ "[]"]) (auto simp: list_all_iff)

lemma precisionRound_decimal:
  assumes "0 \<le> x" and "x \<le> 4 * 10 ^ 15"
  shows "is_decimal (precisionRound (Fin x))"
  using assms round_str [OF assms]
  by (auto simp: precisionRound_def toFixed_def point_str_decimal nat_str_decimal)

lemma read_back:
  assumes "is_decimal n" and "u \<noteq> []" and "list_all is_alpha u"
  shows "unit_pattern (n @ u) n u"
  using assms unfolding unit_pattern_def by (intro exI [of _ "[]"]) simp

lemma alpha_letters [simp]:
  "is_alpha (CHR ''B'')" "is_alpha (CHR ''K'')" "is_alpha (CHR ''M'')" "is_alpha (CHR ''G'')"
  "is_alpha (CHR ''T'')" "is_alpha (CHR ''P'')"
  by (simp_all add: is_alpha_def is_upper_def code_unit_def)

lemma printed_units:
  assumes "k \<le> 5" and "u = [[], ''K'', ''M'', ''G'', ''T'', ''P''] ! k @ ''B''"
  shows "u \<noteq> []" "list_all is_alpha u" "size_unit u = (if k = 1 then None else Some (1024 ^ k))"
  using assms by (auto simp: le_Suc_eq numeral_eq_Suc size_unit_def)

lemma kilobyte_range:
  assumes "1 \<le> (r::rat) / 1024 ^ k" and "k < 5 \<longrightarrow> r / 1024 ^ k < 1024" and "k \<le> 5"
  shows "k = 1 \<longleftrightarrow> 1024 \<le> r \<and> r < 1024 ^ 2"
proof
  assume "k = 1"
  then show "1024 \<le> r \<and> r < 1024 ^ 2" using assms(1,2) by simp
next
  assume r: "1024 \<le> r \<and> r < 1024 ^ 2"
  have "(1024::rat) ^ k < 1024 ^ 2" using assms(1) r by (simp add: le_divide_eq)
  then have "k < 2" by (rule power_less_imp_less_exp [rotated]) simp
  moreover have "k \<noteq> 0" using r assms(2) by (intro notI) simp
  ultimately show "k = 1" by linarith
qed

text \<open>
  C10: reading back a printed data size gives the size to within 1/199, except between 1024 bytes
  and one megabyte: the printer writes the unit KB, which the reader (it knows kB only) rejects.
\<close>

theorem data_size_read_back:
  assumes "is_num (Fin r)" and "1 \<le> r" and "r \<le> 2 ^ 100"
  shows "if 1024 \<le> r \<and> r < 1024 ^ 2 then parseDataSize (formatDataSize (Fin r)) = None
         else \<exists>x. parseDataSize (formatDataSize (Fin r)) = Some (Fin x) \<and> \<bar>x - r\<bar> \<le> r / 199"
proof -
  from formatDataSize_scaled [OF assms, of "''B''"] obtain k where k: "k \<le> 5"
    "formatDataSize (Fin r) = precisionRound (Fin (r / 1024 ^ k)) @ [[], ''K'', ''M'', ''G'', ''T'', ''P''] ! k @ ''B''"
    "1 \<le> r / 1024 ^ k" "k < 5 \<longrightarrow> r / 1024 ^ k < 1024" "r / 1024 ^ k \<le> 4 * 10 ^ 15"
    unfolding formatDataSize_def by blast
  define q where "q = r / 1024 ^ k"
  define u where "u = [[], ''K'', ''M'', ''G'', ''T'', ''P''] ! k @ ''B''"
  let ?n = "precisionRound (Fin q)"
  note u = printed_units [OF k(1) u_def]
  have q: "1 \<le> q" "q \<le> 4 * 10 ^ 15" using k(3,5) by (simp_all add: q_def)
  have p: "unit_pattern (formatDataSize (Fin r)) ?n u"
    unfolding k(2) q_def [symmetric] u_def [symmetric]
    using precisionRound_decimal q u(1,2) by (intro read_back) simp_all
  note kb = kilobyte_range [OF k(3,4,1)]
  show ?thesis
  proof (cases "k = 1")
    case True
    then have "\<not> (\<exists>n u. unit_pattern (formatDataSize (Fin r)) n u \<and> size_unit u \<noteq> None)"
      using p u(3) by (auto simp: unit_pattern_exec_iff [symmetric])
    then show ?thesis using True kb by (simp add: parseDataSize_None)
  next
    case False
    have e: "\<bar>decimal_val ?n - q\<bar> \<le> q / 200" using q by (rule precisionRound_accurate)
    then have "1/2 \<le> decimal_val ?n" "decimal_val ?n \<le> 8 * 10 ^ 15" using q by linarith+
    then have m: "mid_range (decimal_val ?n)" by (simp add: mid_range_def)
    then have x: "parseDataSize (formatDataSize (Fin r)) = Some (Fin (rnd (decimal_val ?n) * 1024 ^ k))"
      using parseDataSize_exact [OF p] u(3) False by simp
    have "\<bar>rnd (decimal_val ?n) - decimal_val ?n\<bar> \<le> decimal_val ?n * (1 / 2 ^ 52)"
      using parseFloat_near(2) [OF m] by (simp add: near_def)
    also have "\<dots> \<le> decimal_val ?n * (1 / 100000)" by (intro mult_left_mono decimal_val_nonneg) simp
    finally have "\<bar>rnd (decimal_val ?n) - q\<bar> \<le> q / 199" using e by linarith
    then have "\<bar>rnd (decimal_val ?n) - q\<bar> * 1024 ^ k \<le> q / 199 * 1024 ^ k" by (intro mult_right_mono) simp_all
    moreover have "\<bar>rnd (decimal_val ?n) - q\<bar> * 1024 ^ k = \<bar>rnd (decimal_val ?n) * 1024 ^ k - r\<bar>"
      using abs_diff_scale [of "1024 ^ k" "rnd (decimal_val ?n)" q] by (simp add: q_def)
    moreover have "q / 199 * 1024 ^ k = r / 199" by (simp add: q_def)
    ultimately have "\<bar>rnd (decimal_val ?n) * 1024 ^ k - r\<bar> \<le> r / 199" by simp
    then show ?thesis using x False kb by auto
  qed
qed

theorem data_size_read_back_witness:
  "formatDataSize (Fin 2048) = ''2.00KB'' \<and> parseDataSize (formatDataSize (Fin 2048)) = None"
proof
  show "formatDataSize (Fin 2048) = ''2.00KB''" by code_simp
  show "parseDataSize (formatDataSize (Fin 2048)) = None"
    using data_size_read_back [of 2048] is_num_int [of 2048] by simp
qed

end
