(* ===== verification/JsSort.thy ===== *)
theory JsSort
  imports JsNumber
begin

text \<open>
  \<open>Array.prototype.sort\<close> with a comparison function: elements move only past elements they compare
  greater to, a comparison that gives \<open>NaN\<close> counts as equal, and equal elements keep their order.  For
  a consistent comparison function the result is fixed by these requirements alone, so it does not depend on
  the algorithm of the engine; the interface of a consistent comparison is the locale \<open>comparator\<close>.
\<close>

section \<open>The sorting routine\<close>

definition cmp_le :: "('a \<Rightarrow> 'a \<Rightarrow> jsnum) \<Rightarrow> 'a \<Rightarrow> 'a \<Rightarrow> bool" where
  "cmp_le cmp x y \<longleftrightarrow> \<not> js_gt (cmp x y) (Fin 0)"

definition cmp_same :: "('a \<Rightarrow> 'a \<Rightarrow> jsnum) \<Rightarrow> 'a \<Rightarrow> 'a \<Rightarrow> bool" where
  "cmp_same cmp x y \<longleftrightarrow> cmp_le cmp x y \<and> cmp_le cmp y x"

fun insert_by :: "('a \<Rightarrow> 'a \<Rightarrow> jsnum) \<Rightarrow> 'a \<Rightarrow> 'a list \<Rightarrow> 'a list" where
  "insert_by cmp x [] = [x]"
| "insert_by cmp x (y # ys) = (if cmp_le cmp x y then x # y # ys else y # insert_by cmp x ys)"

definition js_sort :: "('a \<Rightarrow> 'a \<Rightarrow> jsnum) \<Rightarrow> 'a list \<Rightarrow> 'a list" where
  "js_sort cmp xs = foldr (insert_by cmp) xs []"

lemma mset_insert_by [simp]: "mset (insert_by cmp x ys) = add_mset x (mset ys)"
  by (induction ys) auto

lemma js_sort_Nil [simp]: "js_sort cmp [] = []"
  by (simp add: js_sort_def)

lemma js_sort_Cons [simp]: "js_sort cmp (x # xs) = insert_by cmp x (js_sort cmp xs)"
  by (simp add: js_sort_def)

lemma mset_js_sort [simp]: "mset (js_sort cmp xs) = mset xs"
  by (induction xs) auto

lemma set_js_sort [simp]: "set (js_sort cmp xs) = set xs"
  by (metis mset_js_sort set_mset_mset)

lemma length_js_sort [simp]: "length (js_sort cmp xs) = length xs"
  by (metis mset_js_sort size_mset)

lemma distinct_map_js_sort [simp]: "distinct (map f (js_sort cmp xs)) = distinct (map f xs)"
  by (metis mset_js_sort mset_map mset_eq_imp_distinct_iff)

lemma insert_by_sorted_head: "\<forall>y \<in> set ys. cmp_le cmp x y \<Longrightarrow> insert_by cmp x ys = x # ys"
  by (cases ys) auto

text \<open>Sorting a sorted list changes nothing, whatever the comparison.\<close>

lemma js_sort_idle: "sorted_wrt (cmp_le cmp) xs \<Longrightarrow> js_sort cmp xs = xs"
  by (induction xs) (auto simp: insert_by_sorted_head)

section \<open>Consistent comparisons\<close>

locale comparator =
  fixes cmp :: "'a \<Rightarrow> 'a \<Rightarrow> jsnum" and D :: "'a set"
  assumes le_total: "x \<in> D \<Longrightarrow> y \<in> D \<Longrightarrow> cmp_le cmp x y \<or> cmp_le cmp y x"
    and le_trans: "x \<in> D \<Longrightarrow> y \<in> D \<Longrightarrow> z \<in> D \<Longrightarrow> cmp_le cmp x y \<Longrightarrow> cmp_le cmp y z \<Longrightarrow> cmp_le cmp x z"
begin

lemma le_refl: "x \<in> D \<Longrightarrow> cmp_le cmp x x"
  using le_total by blast

lemma insert_sorted:
  assumes "sorted_wrt (cmp_le cmp) ys" and "set ys \<subseteq> D" and "x \<in> D"
  shows "sorted_wrt (cmp_le cmp) (insert_by cmp x ys)"
  using assms
proof (induction ys)
  case (Cons y ys)
  have s: "set (insert_by cmp x ys) = insert x (set ys)"
    by (metis mset_insert_by set_mset_add_mset_insert set_mset_mset)
  show ?case
  proof (cases "cmp_le cmp x y")
    case True
    then show ?thesis using Cons.prems le_trans [of x y] by auto
  next
    case False
    then have "cmp_le cmp y x" using le_total Cons.prems by auto
    then show ?thesis using False Cons s by auto
  qed
qed simp

lemma sort_sorted: "set xs \<subseteq> D \<Longrightarrow> sorted_wrt (cmp_le cmp) (js_sort cmp xs)"
proof (induction xs)
  case (Cons x xs)
  then show ?case using insert_sorted [of "js_sort cmp xs" x] by simp
qed simp

text \<open>Elements that compare equal to a given one keep their order.\<close>

lemma filter_insert:
  assumes "set ys \<subseteq> D" and "x \<in> D" and "a \<in> D"
  shows "filter (cmp_same cmp a) (insert_by cmp x ys) = filter (cmp_same cmp a) (x # ys)"
  using assms
proof (induction ys)
  case (Cons y ys)
  show ?case
  proof (cases "cmp_le cmp x y")
    case False
    have "\<not> (cmp_same cmp a x \<and> cmp_same cmp a y)"
      using False le_trans [of x a y] Cons.prems by (auto simp: cmp_same_def)
    then show ?thesis using False Cons by auto
  qed simp
qed simp

lemma sort_stable:
  "set xs \<subseteq> D \<Longrightarrow> a \<in> D \<Longrightarrow> filter (cmp_same cmp a) (js_sort cmp xs) = filter (cmp_same cmp a) xs"
proof (induction xs)
  case (Cons x xs)
  then show ?case using filter_insert [of "js_sort cmp xs" x a] by auto
qed simp

text \<open>The requirements fix the result: any sorted, stable rearrangement is \<open>js_sort\<close>.\<close>

lemma sorted_stable_unique:
  assumes "sorted_wrt (cmp_le cmp) xs" and "sorted_wrt (cmp_le cmp) ys" and "set xs \<subseteq> D" and "set ys \<subseteq> D"
    and "\<And>a. a \<in> D \<Longrightarrow> filter (cmp_same cmp a) xs = filter (cmp_same cmp a) ys"
  shows "xs = ys"
  using assms
proof (induction xs arbitrary: ys)
  case Nil
  show ?case
  proof (cases ys)
    case (Cons y zs)
    then show ?thesis using Nil.prems(5) [of y] Nil.prems(4) le_refl by (auto simp: cmp_same_def)
  qed simp
next
  case (Cons x xs)
  have fx: "filter (cmp_same cmp x) (x # xs) = filter (cmp_same cmp x) ys" using Cons.prems(3,5) by auto
  have sx: "cmp_same cmp x x" using Cons.prems(3) le_refl by (simp add: cmp_same_def)
  then obtain y zs where ys: "ys = y # zs" using fx by (cases ys) auto
  have D: "x \<in> D" "y \<in> D" "set xs \<subseteq> D" "set zs \<subseteq> D" using Cons.prems(3,4) ys by auto
  have "x \<in> set (filter (cmp_same cmp x) (x # xs))" using sx by simp
  then have "x \<in> set ys" unfolding fx by simp
  then have "cmp_le cmp y x" using Cons.prems(2) ys le_refl D by auto
  moreover have "y \<in> set (filter (cmp_same cmp y) ys)" using ys le_refl D by (simp add: cmp_same_def)
  then have "y \<in> set (x # xs)" unfolding Cons.prems(5) [OF D(2), symmetric] by (simp only: set_filter) simp
  then have "cmp_le cmp x y" using Cons.prems(1) le_refl D by auto
  ultimately have "cmp_same cmp x y" by (simp add: cmp_same_def)
  then have xy: "x = y" using fx sx ys by simp
  have "filter (cmp_same cmp a) xs = filter (cmp_same cmp a) zs" if "a \<in> D" for a
    using Cons.prems(5) [OF that] ys xy by (auto split: if_splits)
  then have "xs = zs" using Cons.IH Cons.prems(1,2) ys D by auto
  then show ?case using ys xy by simp
qed

end

section \<open>Comparing by a numeric key\<close>

text \<open>
  The order of the numbers other than \<open>NaN\<close>: what \<open>key(a) - key(b)\<close> means as a comparison when both
  keys are doubles.
\<close>

fun num_le :: "jsnum \<Rightarrow> jsnum \<Rightarrow> bool" where
  "num_le NInf _ \<longleftrightarrow> True"
| "num_le _ PInf \<longleftrightarrow> True"
| "num_le (Fin a) (Fin b) \<longleftrightarrow> a \<le> b"
| "num_le _ _ \<longleftrightarrow> False"

definition sort_key :: "jsnum \<Rightarrow> bool" where
  "sort_key x \<longleftrightarrow> x \<noteq> NaN \<and> is_num x"

lemma num_le_total: "sort_key x \<Longrightarrow> sort_key y \<Longrightarrow> num_le x y \<or> num_le y x"
  by (cases x; cases y) (auto simp: sort_key_def)

lemma num_le_trans: "sort_key x \<Longrightarrow> sort_key y \<Longrightarrow> sort_key z \<Longrightarrow> num_le x y \<Longrightarrow> num_le y z \<Longrightarrow> num_le x z"
  by (cases x; cases y; cases z) (auto simp: sort_key_def)

lemma sub_le_zero:
  assumes "sort_key x" and "sort_key y"
  shows "\<not> js_gt (js_sub x y) (Fin 0) \<longleftrightarrow> num_le x y"
  using assms js_sub_pos
  by (cases x; cases y) (auto simp: sort_key_def js_sub_def js_le_def js_eq_def inf_of_sign_def)

lemma neg_sub_le_zero:
  assumes "sort_key x" and "sort_key y"
  shows "\<not> js_gt (js_neg (js_sub x y)) (Fin 0) \<longleftrightarrow> num_le y x"
  using assms js_sub_neg
  by (cases x; cases y) (auto simp: sort_key_def js_zero_lt_neg js_sub_def)

definition key_diff :: "('a \<Rightarrow> jsnum) \<Rightarrow> 'a \<Rightarrow> 'a \<Rightarrow> jsnum" where
  "key_diff key a b = js_sub (key a) (key b)"

definition key_diff_desc :: "('a \<Rightarrow> jsnum) \<Rightarrow> 'a \<Rightarrow> 'a \<Rightarrow> jsnum" where
  "key_diff_desc key a b = js_neg (js_sub (key a) (key b))"

lemma key_diff_le:
  "sort_key (key a) \<Longrightarrow> sort_key (key b) \<Longrightarrow> cmp_le (key_diff key) a b \<longleftrightarrow> num_le (key a) (key b)"
  by (simp add: cmp_le_def key_diff_def sub_le_zero)

lemma key_diff_desc_le:
  "sort_key (key a) \<Longrightarrow> sort_key (key b) \<Longrightarrow> cmp_le (key_diff_desc key) a b \<longleftrightarrow> num_le (key b) (key a)"
  by (simp add: cmp_le_def key_diff_desc_def neg_sub_le_zero)

interpretation by_key: comparator "key_diff key" "{x. sort_key (key x)}" for key
  by unfold_locales (auto simp: key_diff_le dest: num_le_total intro: num_le_trans)

interpretation by_key_desc: comparator "key_diff_desc key" "{x. sort_key (key x)}" for key
  by unfold_locales (auto simp: key_diff_desc_le dest: num_le_total intro: num_le_trans)

end
