(* ===== verification/JsDate.thy ===== *)
theory JsDate
  imports JsDecimal
begin

text \<open>
  \<open>Date.parse\<close> on the timestamps the server sends (\<open>2020-01-31T23:59:59.999Z\<close>, the format in which it serialises a
  \<open>DateTime\<close>): the milliseconds since 1970 of the proleptic Gregorian calendar, as the language defines them.
  Strings of any other form, which the server does not send, give \<open>NaN\<close> here.
\<close>

section \<open>The calendar\<close>

record iso_fields =
  iso_year :: nat
  iso_month :: nat
  iso_day :: nat
  iso_hour :: nat
  iso_minute :: nat
  iso_second :: nat
  iso_milli :: nat

definition leap_year :: "nat \<Rightarrow> bool" where
  "leap_year y \<longleftrightarrow> y mod 4 = 0 \<and> (y mod 100 \<noteq> 0 \<or> y mod 400 = 0)"

definition days_in_month :: "nat \<Rightarrow> nat \<Rightarrow> nat" where
  "days_in_month y m =
     (if m = 2 then (if leap_year y then 29 else 28) else if m \<in> {4, 6, 9, 11} then 30 else 31)"

definition valid_iso :: "iso_fields \<Rightarrow> bool" where
  "valid_iso f \<longleftrightarrow> iso_year f < 10000 \<and> 1 \<le> iso_month f \<and> iso_month f \<le> 12
     \<and> 1 \<le> iso_day f \<and> iso_day f \<le> days_in_month (iso_year f) (iso_month f)
     \<and> iso_hour f < 24 \<and> iso_minute f < 60 \<and> iso_second f < 60 \<and> iso_milli f < 1000"

definition day_from_year :: "int \<Rightarrow> int" where
  "day_from_year y = 365 * (y - 1970) + (y - 1969) div 4 - (y - 1901) div 100 + (y - 1601) div 400"

fun day_within_year :: "nat \<Rightarrow> nat \<Rightarrow> nat \<Rightarrow> nat" where
  "day_within_year y m d = sum_list (map (days_in_month y) [1..<m]) + (d - 1)"

definition time_value :: "iso_fields \<Rightarrow> int" where
  "time_value f =
     (day_from_year (int (iso_year f)) + int (day_within_year (iso_year f) (iso_month f) (iso_day f))) * 86400000
     + int (iso_hour f) * 3600000 + int (iso_minute f) * 60000 + int (iso_second f) * 1000 + int (iso_milli f)"

section \<open>Reading\<close>

definition iso_part :: "string \<Rightarrow> nat \<Rightarrow> nat \<Rightarrow> nat" where
  "iso_part s i w = digits_val (take w (drop i s))"

definition iso_shape :: "string \<Rightarrow> bool" where
  "iso_shape s \<longleftrightarrow> length s = 24
     \<and> s ! 4 = CHR ''-'' \<and> s ! 7 = CHR ''-'' \<and> s ! 10 = CHR ''T'' \<and> s ! 13 = CHR '':'' \<and> s ! 16 = CHR '':''
     \<and> s ! 19 = CHR ''.'' \<and> s ! 23 = CHR ''Z''
     \<and> list_all is_digit (map ((!) s) [0, 1, 2, 3, 5, 6, 8, 9, 11, 12, 14, 15, 17, 18, 20, 21, 22])"

definition iso_read :: "string \<Rightarrow> iso_fields" where
  "iso_read s = \<lparr>iso_year = iso_part s 0 4, iso_month = iso_part s 5 2, iso_day = iso_part s 8 2,
     iso_hour = iso_part s 11 2, iso_minute = iso_part s 14 2, iso_second = iso_part s 17 2,
     iso_milli = iso_part s 20 3\<rparr>"

definition Date_parse :: "string \<Rightarrow> jsnum" where
  "Date_parse s = (if iso_shape s \<and> valid_iso (iso_read s) then Fin (of_int (time_value (iso_read s))) else NaN)"

section \<open>Order\<close>

lemma div_add_one:
  assumes "0 < (n::int)"
  shows "(a + 1) div n = a div n + (if (a + 1) mod n = 0 then 1 else 0)"
proof -
  define q r where "q = a div n" and "r = a mod n"
  have a: "a = n * q + r" and r: "0 \<le> r" "r < n" using assms by (simp_all add: q_def r_def)
  show ?thesis
  proof (cases "r + 1 = n")
    case True
    then have "a + 1 = n * (q + 1)" using a by (simp add: algebra_simps)
    then show ?thesis using assms by (simp add: q_def [symmetric])
  next
    case False
    then have "(n * q + (r + 1)) div n = q" "(n * q + (r + 1)) mod n = r + 1" using r assms by simp_all
    then show ?thesis using r a by (simp add: q_def [symmetric] add.assoc)
  qed
qed

lemma div_step:
  assumes "0 < (n::int)" and "c = k * n" and "c' = c + 1"
  shows "(z - c) div n = (z - c') div n + (if z mod n = 0 then 1 else 0)"
proof -
  have "z - c' + 1 = z - c" using assms(3) by simp
  moreover have "(z - c) mod n = z mod n" using mod_mult_self1 [of z "-k" n] assms(2) by simp
  ultimately show ?thesis using div_add_one [OF assms(1), of "z - c'"] by (simp only:)
qed

definition leap_int :: "int \<Rightarrow> int" where
  "leap_int z = (if z mod 4 = 0 then 1 else 0) - (if z mod 100 = 0 then 1 else 0) + (if z mod 400 = 0 then 1 else 0)"

lemma day_from_year_step: "day_from_year (z + 1) = day_from_year z + 365 + leap_int z"
proof -
  have d: "(z - 1968) div 4 = (z - 1969) div 4 + (if z mod 4 = 0 then 1 else 0)"
    "(z - 1900) div 100 = (z - 1901) div 100 + (if z mod 100 = 0 then 1 else 0)"
    "(z - 1600) div 400 = (z - 1601) div 400 + (if z mod 400 = 0 then 1 else 0)"
    by (rule div_step [of 4 1968 492] div_step [of 100 1900 19] div_step [of 400 1600 4]; simp)+
  have e: "z + 1 - 1970 = z - 1970 + 1" "z + 1 - 1969 = z - 1968" "z + 1 - 1901 = z - 1900" "z + 1 - 1601 = z - 1600"
    by simp_all
  show ?thesis unfolding day_from_year_def leap_int_def e d by (simp only: algebra_simps)
qed

lemma leap_int_leap: "leap_int (int y) = (if leap_year y then 1 else 0)"
proof -
  have z: "int y mod int n = 0 \<longleftrightarrow> n dvd y" for n by (simp add: zmod_int [symmetric] mod_eq_0_iff_dvd)
  have "int y mod 4 = 0 \<longleftrightarrow> 4 dvd y" "int y mod 100 = 0 \<longleftrightarrow> 100 dvd y" "int y mod 400 = 0 \<longleftrightarrow> 400 dvd y"
    using z [of 4] z [of 100] z [of 400] by (simp_all only: of_nat_numeral)
  moreover have "leap_year y \<longleftrightarrow> 4 dvd y \<and> (\<not> 100 dvd y \<or> 400 dvd y)" by (simp add: leap_year_def mod_eq_0_iff_dvd)
  moreover have "400 dvd y \<Longrightarrow> 100 dvd y" and "100 dvd y \<Longrightarrow> 4 dvd y"
    by (auto intro: dvd_trans [of 100 400 y] dvd_trans [of 4 100 y])
  ultimately show ?thesis unfolding leap_int_def by (simp only: split: if_split) auto
qed

lemma day_from_year_Suc:
  "day_from_year (int y + 1) = day_from_year (int y) + 365 + (if leap_year y then 1 else 0)"
  using day_from_year_step [of "int y"] by (simp only: leap_int_leap)

lemma day_from_year_mono:
  assumes "y < y'"
  shows "day_from_year (int y) + 365 + (if leap_year y then 1 else 0) \<le> day_from_year (int y')"
  using assms
proof (induction y')
  case (Suc n)
  then show ?case
    using day_from_year_Suc [of n] day_from_year_Suc [of y] by (cases "y = n") (auto simp: add.commute)
qed simp

lemma months_upt: "[1..<13] = [1, 2, 3, 4, 5, 6, 7, 8, 9, 10, 11, 12 :: nat]"
  by (simp add: upt_rec)

lemma sum_list_take: "sum_list (take k xs) \<le> sum_list (xs :: nat list)"
  by (induction xs arbitrary: k) (auto simp: take_Cons' add_le_mono)

lemma months_before:
  assumes "1 \<le> m" and "m < m'"
  shows "sum_list (map g [1..<m]) + g m \<le> sum_list (map (g :: nat \<Rightarrow> nat) [1..<m'])"
proof -
  obtain k where k: "m' = m + Suc k" using assms(2) by (auto dest: less_imp_Suc_add)
  have "[1..<m + Suc k] = [1..<m] @ [m..<m + Suc k]" using assms(1) by (rule upt_add_eq_append)
  moreover have "[m..<m + Suc k] = m # [Suc m..<m + Suc k]" by (rule upt_conv_Cons) simp
  ultimately show ?thesis by (simp only: k map_append list.map sum_list_append sum_list.Cons)
qed

lemma year_length: "sum_list (map (days_in_month y) [1..<13]) = 365 + (if leap_year y then 1 else 0)"
  unfolding months_upt by (simp add: days_in_month_def)

lemma day_within_year_bound:
  assumes "valid_iso f"
  shows "day_within_year (iso_year f) (iso_month f) (iso_day f) < 365 + (if leap_year (iso_year f) then 1 else 0)"
  using months_before [of "iso_month f" 13 "days_in_month (iso_year f)"] year_length [of "iso_year f"] assms
  by (auto simp: valid_iso_def)

text \<open>The moments of two timestamps in the order of their fields.\<close>

definition iso_less :: "iso_fields \<Rightarrow> iso_fields \<Rightarrow> bool" where
  "iso_less f g \<longleftrightarrow>
     iso_year f < iso_year g \<or> iso_year f = iso_year g \<and> (
     iso_month f < iso_month g \<or> iso_month f = iso_month g \<and> (
     iso_day f < iso_day g \<or> iso_day f = iso_day g \<and> (
     iso_hour f < iso_hour g \<or> iso_hour f = iso_hour g \<and> (
     iso_minute f < iso_minute g \<or> iso_minute f = iso_minute g \<and> (
     iso_second f < iso_second g \<or> iso_second f = iso_second g \<and> iso_milli f < iso_milli g)))))"

definition day_number :: "iso_fields \<Rightarrow> int" where
  "day_number f = day_from_year (int (iso_year f)) + int (day_within_year (iso_year f) (iso_month f) (iso_day f))"

definition milli_of_day :: "iso_fields \<Rightarrow> nat" where
  "milli_of_day f = iso_hour f * 3600000 + iso_minute f * 60000 + iso_second f * 1000 + iso_milli f"

lemma time_value_split: "time_value f = day_number f * 86400000 + int (milli_of_day f)"
  by (simp add: time_value_def day_number_def milli_of_day_def)

lemma milli_of_day_less: "valid_iso f \<Longrightarrow> milli_of_day f < 86400000"
  by (simp add: valid_iso_def milli_of_day_def)

lemma day_number_less:
  assumes "valid_iso f" and "valid_iso g"
    and "iso_year f < iso_year g \<or> iso_year f = iso_year g \<and> (iso_month f < iso_month g
         \<or> iso_month f = iso_month g \<and> iso_day f < iso_day g)"
  shows "day_number f < day_number g"
  using assms(3)
proof (elim disjE conjE)
  assume "iso_year f < iso_year g"
  from day_from_year_mono [OF this] day_within_year_bound [OF assms(1)]
  show ?thesis unfolding day_number_def by (simp split: if_splits del: day_within_year.simps)
next
  assume y: "iso_year f = iso_year g" and "iso_month f < iso_month g"
  then show ?thesis
    using months_before [of "iso_month f" "iso_month g" "days_in_month (iso_year f)"] assms(1,2)
    by (auto simp: day_number_def valid_iso_def)
qed (use assms(1,2) in \<open>auto simp: day_number_def valid_iso_def\<close>)

lemma time_value_less:
  assumes "valid_iso f" and "valid_iso g" and "iso_less f g"
  shows "time_value f < time_value g"
proof (cases "day_number f < day_number g")
  case True
  then have "day_number f * 86400000 + 86400000 \<le> day_number g * 86400000" by simp
  then show ?thesis using milli_of_day_less [OF assms(1)] unfolding time_value_split by linarith
next
  case False
  then have e: "iso_year f = iso_year g" "iso_month f = iso_month g" "iso_day f = iso_day g"
    using day_number_less [OF assms(1,2)] assms(3) unfolding iso_less_def by blast+
  then have "milli_of_day f < milli_of_day g"
    using assms by (auto simp: iso_less_def milli_of_day_def valid_iso_def)
  then show ?thesis using e by (simp add: time_value_split day_number_def)
qed

lemma iso_less_linear:
  fixes f g :: iso_fields
  shows "iso_less f g \<or> f = g \<or> iso_less g f"
proof (rule ccontr)
  assume n: "\<not> ?thesis"
  then have "iso_year f = iso_year g" unfolding iso_less_def by linarith
  moreover from this n have "iso_month f = iso_month g" unfolding iso_less_def by linarith
  moreover from calculation n have "iso_day f = iso_day g" unfolding iso_less_def by linarith
  moreover from calculation n have "iso_hour f = iso_hour g" unfolding iso_less_def by linarith
  moreover from calculation n have "iso_minute f = iso_minute g" unfolding iso_less_def by linarith
  moreover from calculation n have "iso_second f = iso_second g" unfolding iso_less_def by linarith
  moreover from calculation n have "iso_milli f = iso_milli g" unfolding iso_less_def by linarith
  ultimately have "f = g" by (intro iso_fields.equality) simp_all
  with n show False by simp
qed

lemma iso_less_irrefl: "\<not> iso_less f f"
  by (simp add: iso_less_def)

text \<open>Comparing two timestamps as numbers is comparing them chronologically.\<close>

lemma Date_parse_less:
  assumes "iso_shape s" and "iso_shape t" and "valid_iso (iso_read s)" and "valid_iso (iso_read t)"
  shows "js_lt (Date_parse s) (Date_parse t) \<longleftrightarrow> iso_less (iso_read s) (iso_read t)"
proof -
  have "time_value (iso_read s) < time_value (iso_read t) \<longleftrightarrow> iso_less (iso_read s) (iso_read t)"
    using time_value_less iso_less_linear assms(3,4) by (metis less_asym less_irrefl)
  then show ?thesis using assms by (simp add: Date_parse_def)
qed

lemmas iso_eval = iso_shape_def is_digit_def code_unit_def iso_read_def iso_part_def digits_val_def digit_val_def
  valid_iso_def days_in_month_def leap_year_def

text \<open>Timestamps are integers far below \<open>2^53\<close>, so they are numbers a sort may compare.\<close>

lemma day_from_year_bounds:
  assumes "0 \<le> y" and "y < 10000"
  shows "\<bar>day_from_year y\<bar> \<le> 4000000"
proof -
  have "(y - 1969) div 4 \<le> 10000 div 4" "-2000 div 4 \<le> (y - 1969) div 4"
    "(y - 1901) div 100 \<le> 10000 div 100" "-2000 div 100 \<le> (y - 1901) div 100"
    "(y - 1601) div 400 \<le> 10000 div 400" "-2000 div 400 \<le> (y - 1601) div 400"
    using assms by (intro zdiv_mono1; simp)+
  moreover define a b c where "a = (y - 1969) div 4" and "b = (y - 1901) div 100" and "c = (y - 1601) div 400"
  ultimately have "a \<le> 2500" "-500 \<le> a" "b \<le> 100" "-20 \<le> b" "c \<le> 25" "-5 \<le> c" by (simp_all only:) simp_all
  moreover have "day_from_year y = 365 * y - 719050 + a - b + c"
    unfolding day_from_year_def a_def b_def c_def by simp
  ultimately show ?thesis using assms by linarith
qed

lemma time_value_bounds:
  assumes "valid_iso f"
  shows "\<bar>time_value f\<bar> \<le> 2 ^ 53"
proof -
  have "\<bar>day_from_year (int (iso_year f))\<bar> \<le> 4000000"
    using assms by (intro day_from_year_bounds) (auto simp: valid_iso_def)
  moreover have "day_within_year (iso_year f) (iso_month f) (iso_day f) < 366"
    using day_within_year_bound [OF assms] by (auto split: if_splits simp del: day_within_year.simps)
  ultimately have "\<bar>day_number f\<bar> \<le> 5000000" unfolding day_number_def by linarith
  then show ?thesis using milli_of_day_less [OF assms] unfolding time_value_split by simp
qed

lemma is_num_Date_parse: "is_num (Date_parse s)"
  using is_num_int [OF time_value_bounds] by (simp add: Date_parse_def)

end
