(* ===== verification/JsObject.thy ===== *)
theory JsObject
  imports JsString "HOL-Library.AList"
begin

text \<open>
  Plain objects and \<open>Map\<close>s used as dictionaries: association lists in insertion order, as both
  enumerate their entries.  (An object lists keys that are array indices first and inherits a few
  names from \<open>Object.prototype\<close>: where keys are not generated identifiers, \<open>object_keys\<close> and \<open>proto_names\<close> below
  account for it.)  The interface the components rely on is the locale \<open>ordered_map\<close>.
\<close>

locale ordered_map =
  fixes get :: "'m \<Rightarrow> 'k \<Rightarrow> 'v option"
    and put :: "'m \<Rightarrow> 'k \<Rightarrow> 'v \<Rightarrow> 'm"
    and entries :: "'m \<Rightarrow> ('k \<times> 'v) list"
    and inv :: "'m \<Rightarrow> bool"
  assumes inv_put: "inv m \<Longrightarrow> inv (put m k v)"
    and distinct_entries: "inv m \<Longrightarrow> distinct (map fst (entries m))"
    and get_entries: "inv m \<Longrightarrow> get m = map_of (entries m)"
    and entries_put_new: "inv m \<Longrightarrow> get m k = None \<Longrightarrow> entries (put m k v) = entries m @ [(k, v)]"
    and entries_put_old: "inv m \<Longrightarrow> get m k \<noteq> None \<Longrightarrow>
      entries (put m k v) = map (\<lambda>(k', v'). (k', if k' = k then v else v')) (entries m)"
begin

lemma get_None_iff: "inv m \<Longrightarrow> get m k = None \<longleftrightarrow> k \<notin> fst ` set (entries m)"
  by (simp add: get_entries map_of_eq_None_iff)

lemma map_of_update_values:
  "map_of (map (\<lambda>(k', v'). (k', if k' = k then v else v')) xs) =
   (\<lambda>k'. map_option (\<lambda>v'. if k' = k then v else v') (map_of xs k'))"
  by (induction xs) (auto simp: fun_eq_iff)

lemma get_put: "inv m \<Longrightarrow> get (put m k v) = (get m)(k \<mapsto> v)"
proof (cases "get m k = None")
  case True
  assume i: "inv m"
  have "map_of (entries m @ [(k, v)]) = (map_of (entries m))(k \<mapsto> v)"
    using True get_entries [OF i] by (auto simp: fun_eq_iff map_add_def split: option.splits)
  then show ?thesis using True i by (simp add: get_entries inv_put entries_put_new)
next
  case False
  assume i: "inv m"
  show ?thesis
  proof
    fix k'
    show "get (put m k v) k' = ((get m)(k \<mapsto> v)) k'"
      using False i
      by (cases "map_of (entries m) k'") (auto simp: get_entries inv_put entries_put_old map_of_update_values)
  qed
qed

text \<open>Filling a map with elements whose keys differ lists them in the order of insertion.\<close>

lemma fill_entries:
  assumes "inv m" and "distinct (map f xs)" and "\<forall>x \<in> set xs. get m (f x) = None"
  shows "entries (foldl (\<lambda>m x. put m (f x) (g x)) m xs) = entries m @ map (\<lambda>x. (f x, g x)) xs
       \<and> inv (foldl (\<lambda>m x. put m (f x) (g x)) m xs)"
  using assms
proof (induction xs arbitrary: m)
  case (Cons x xs)
  let ?m = "put m (f x) (g x)"
  have i: "inv ?m" using Cons.prems(1) by (rule inv_put)
  have "\<forall>y \<in> set xs. get ?m (f y) = None"
    using Cons.prems by (auto simp: get_put image_iff)
  with Cons.IH [OF i] Cons.prems show ?case by (simp add: entries_put_new)
qed simp

end

section \<open>Association lists\<close>

definition obj_get :: "('k \<times> 'v) list \<Rightarrow> 'k \<Rightarrow> 'v option" where
  "obj_get m k = map_of m k"

definition obj_set :: "('k \<times> 'v) list \<Rightarrow> 'k \<Rightarrow> 'v \<Rightarrow> ('k \<times> 'v) list" where
  "obj_set m k v = AList.update k v m"

definition obj_ok :: "('k \<times> 'v) list \<Rightarrow> bool" where
  "obj_ok m \<longleftrightarrow> distinct (map fst m)"

lemma update_new: "map_of m k = None \<Longrightarrow> AList.update k v m = m @ [(k, v)]"
  by (induction m) (auto split: if_splits)

lemma update_old:
  "distinct (map fst m) \<Longrightarrow> map_of m k \<noteq> None \<Longrightarrow>
   AList.update k v m = map (\<lambda>(k', v'). (k', if k' = k then v else v')) m"
proof (induction m)
  case (Cons p m)
  have "k \<notin> fst ` set m \<Longrightarrow> map (\<lambda>(k', v'). (k', if k' = k then v else v')) m = m"
    by (induction m) auto
  then show ?case using Cons by (cases p) (auto split: if_splits)
qed simp

interpretation obj: ordered_map obj_get obj_set "\<lambda>m. m" obj_ok
  by unfold_locales
    (auto simp: obj_get_def obj_set_def obj_ok_def update_new update_old distinct_update)

section \<open>Names of properties\<close>

text \<open>
  \<open>Object.keys\<close> lists the names that are array indices first, in numeric order, then the others in the order of
  insertion.  A property that was never set but is inherited from \<open>Object.prototype\<close> reads as a function or an object.
\<close>

definition array_index :: "string \<Rightarrow> bool" where
  "array_index k \<longleftrightarrow> nat_str (digits_val k) = k \<and> digits_val k < 2 ^ 32 - 1"

definition object_keys :: "(string \<times> 'v) list \<Rightarrow> string list" where
  "object_keys m = sort_key digits_val (filter array_index (map fst m)) @ filter (\<lambda>k. \<not> array_index k) (map fst m)"

definition proto_names :: "string list" where
  "proto_names = [''constructor'', ''__defineGetter__'', ''__defineSetter__'', ''hasOwnProperty'', ''__lookupGetter__'',
     ''__lookupSetter__'', ''isPrototypeOf'', ''propertyIsEnumerable'', ''toString'', ''valueOf'', ''__proto__'',
     ''toLocaleString'']"

lemma set_object_keys [simp]: "set (object_keys m) = fst ` set m"
  by (auto simp: object_keys_def)

lemma distinct_object_keys: "distinct (map fst m) \<Longrightarrow> distinct (object_keys m)"
  by (auto simp: object_keys_def)

end
