(* ===== verification/QueryList.thy ===== *)
theory QueryList
  imports QueryState ParseUnits JsSort JsDate JsObject
begin

text \<open>
  The state of \<open>webapp/src/components/QueryList.jsx\<close>: the filters, the sort orders, the operations
  of the class \<open>QueryList\<close> that read and change its state, its timers and its requests, and the
  step relation of all their interleavings.  Times are whole milliseconds (\<open>Date.now\<close>).
\<close>

section \<open>Filters and sort keys\<close>

datatype filter_type = FT_RUNNING | FT_QUEUED | FT_FINISHED

fun FILTER_TYPE :: "filter_type \<Rightarrow> query \<Rightarrow> bool" where
  "FILTER_TYPE FT_RUNNING query \<longleftrightarrow>
     \<not> (q_state query = ''QUEUED'' \<or> q_state query = ''FINISHED'' \<or> q_state query = ''FAILED'')"
| "FILTER_TYPE FT_QUEUED query \<longleftrightarrow> q_state query = ''QUEUED''"
| "FILTER_TYPE FT_FINISHED query \<longleftrightarrow> q_state query = ''FINISHED''"

datatype sort_type = ST_CREATED | ST_ELAPSED | ST_EXECUTION | ST_CPU | ST_CUMULATIVE_MEMORY | ST_CURRENT_MEMORY

text \<open>\<open>None\<close> is the \<open>null\<close> of a string that cannot be parsed.\<close>

fun SORT_TYPE :: "sort_type \<Rightarrow> query \<Rightarrow> jsnum option" where
  "SORT_TYPE ST_CREATED query = Some (Date_parse (qs_createTime (q_queryStats query)))"
| "SORT_TYPE ST_ELAPSED query = parseDuration (qs_elapsedTime (q_queryStats query))"
| "SORT_TYPE ST_EXECUTION query = parseDuration (qs_executionTime (q_queryStats query))"
| "SORT_TYPE ST_CPU query = parseDuration (qs_totalCpuTime (q_queryStats query))"
| "SORT_TYPE ST_CUMULATIVE_MEMORY query = Some (qs_cumulativeUserMemory (q_queryStats query))"
| "SORT_TYPE ST_CURRENT_MEMORY query = parseDataSize (qs_userMemoryReservation (q_queryStats query))"

datatype error_type = ET_USER_ERROR | ET_INTERNAL_ERROR | ET_INSUFFICIENT_RESOURCES | ET_EXTERNAL

fun ERROR_TYPE :: "error_type \<Rightarrow> query \<Rightarrow> bool" where
  "ERROR_TYPE ET_USER_ERROR query \<longleftrightarrow> q_state query = ''FAILED'' \<and> q_errorType query = Some ''USER_ERROR''"
| "ERROR_TYPE ET_INTERNAL_ERROR query \<longleftrightarrow>
     q_state query = ''FAILED'' \<and> q_errorType query = Some ''INTERNAL_ERROR''"
| "ERROR_TYPE ET_INSUFFICIENT_RESOURCES query \<longleftrightarrow>
     q_state query = ''FAILED'' \<and> q_errorType query = Some ''INSUFFICIENT_RESOURCES''"
| "ERROR_TYPE ET_EXTERNAL query \<longleftrightarrow> q_state query = ''FAILED'' \<and> q_errorType query = Some ''EXTERNAL''"

datatype sort_order = ASCENDING | DESCENDING

fun SORT_ORDER :: "sort_order \<Rightarrow> jsnum \<Rightarrow> jsnum" where
  "SORT_ORDER ASCENDING value = value"
| "SORT_ORDER DESCENDING value = js_neg value"

definition query_cmp :: "sort_type \<Rightarrow> sort_order \<Rightarrow> query \<Rightarrow> query \<Rightarrow> jsnum" where
  "query_cmp sortType sortOrder queryA queryB =
     SORT_ORDER sortOrder (js_sub (to_number (SORT_TYPE sortType queryA)) (to_number (SORT_TYPE sortType queryB)))"

text \<open>\<open>splice(n, length - n)\<close> when the list is longer than a non-zero limit.\<close>

definition limit_queries :: "nat \<Rightarrow> query list \<Rightarrow> query list" where
  "limit_queries maxQueries queries =
     (if maxQueries \<noteq> 0 \<and> length queries > maxQueries then take maxQueries queries else queries)"

text \<open>
  The last argument is \<open>None\<close> where the caller passes none: \<open>undefined !== 0\<close> holds and
  \<open>queries.length > undefined\<close> does not, so nothing is cut.
\<close>

definition sortAndLimitQueries :: "query list \<Rightarrow> sort_type \<Rightarrow> sort_order \<Rightarrow> nat option \<Rightarrow> query list" where
  "sortAndLimitQueries queries sortType sortOrder maxQueries =
     (let queries = js_sort (query_cmp sortType sortOrder) queries in
      case maxQueries of None \<Rightarrow> queries | Some m \<Rightarrow> limit_queries m queries)"

definition mentions :: "string \<Rightarrow> string \<Rightarrow> bool" where
  "mentions text term = (indexOf (toLowerCase text) term \<noteq> -1)"

definition warning_matches :: "string \<Rightarrow> warning \<Rightarrow> bool" where
  "warning_matches term w \<longleftrightarrow>
     indexOf ''warning'' term \<noteq> -1 \<or> mentions (w_codeName w) term \<or> mentions (w_message w) term"

text \<open>The parts of a query other than its identifier and state that the search looks at.\<close>

definition search_rest :: "string \<Rightarrow> query \<Rightarrow> bool" where
  "search_rest term query \<longleftrightarrow>
     mentions (q_query query) term
     \<or> s_user (q_session query) \<noteq> [] \<and> mentions (s_user (q_session query)) term
     \<or> (case s_source (q_session query) of None \<Rightarrow> False | Some src \<Rightarrow> src \<noteq> [] \<and> mentions src term)
     \<or> (case q_resourceGroupId query of None \<Rightarrow> False | Some g \<Rightarrow> mentions (js_join ''.'' g) term)
     \<or> list_ex (warning_matches term) (q_warnings query)"

definition search_matches :: "string \<Rightarrow> query \<Rightarrow> exn + bool" where
  "search_matches searchString query =
     (let term = toLowerCase searchString in
      if mentions (q_queryId query) term then Inr True
      else res_map (\<lambda>st. mentions st term \<or> search_rest term query) (getHumanReadableState query))"

definition state_filter_matches :: "filter_type list \<Rightarrow> error_type list \<Rightarrow> query \<Rightarrow> bool" where
  "state_filter_matches stateFilters errorTypeFilters query \<longleftrightarrow>
     list_ex (\<lambda>f. FILTER_TYPE f query) stateFilters \<or> list_ex (\<lambda>e. ERROR_TYPE e query) errorTypeFilters"

definition filterQueries ::
  "query list \<Rightarrow> filter_type list \<Rightarrow> error_type list \<Rightarrow> string \<Rightarrow> exn + query list" where
  "filterQueries queries stateFilters errorTypeFilters searchString =
     (let stateFilteredQueries = filter (state_filter_matches stateFilters errorTypeFilters) queries in
      if searchString = [] then Inr stateFilteredQueries
      else res_filter (search_matches searchString) stateFilteredQueries)"

section \<open>The component\<close>

text \<open>
  Beside the React state: whether the refresh timer (\<open>timeoutId\<close>) and the search timer
  (\<open>searchTimeoutId\<close>) are pending, and the number of requests that have not been answered.
\<close>

record ql_state =
  ql_allQueries :: "query list"
  ql_displayedQueries :: "query list"
  ql_reorderInterval :: int
  ql_currentSortType :: sort_type
  ql_currentSortOrder :: sort_order
  ql_stateFilters :: "filter_type list"
  ql_errorTypeFilters :: "error_type list"
  ql_searchString :: string
  ql_maxQueries :: nat
  ql_lastRefresh :: int
  ql_lastReorder :: int
  ql_initialized :: bool
  ql_timeout :: bool
  ql_searchTimeout :: bool
  ql_requests :: nat

definition ql_init :: "int \<Rightarrow> ql_state" where
  "ql_init now = \<lparr>ql_allQueries = [], ql_displayedQueries = [], ql_reorderInterval = 5000,
     ql_currentSortType = ST_CREATED, ql_currentSortOrder = DESCENDING,
     ql_stateFilters = [FT_RUNNING, FT_QUEUED],
     ql_errorTypeFilters = [ET_INTERNAL_ERROR, ET_INSUFFICIENT_RESOURCES, ET_EXTERNAL],
     ql_searchString = [], ql_maxQueries = 100, ql_lastRefresh = now, ql_lastReorder = now,
     ql_initialized = False, ql_timeout = False, ql_searchTimeout = False, ql_requests = 0\<rparr>"

definition ql_filter :: "ql_state \<Rightarrow> query list \<Rightarrow> exn + query list" where
  "ql_filter s queries = filterQueries queries (ql_stateFilters s) (ql_errorTypeFilters s) (ql_searchString s)"

text \<open>
  The state has no field \<open>query\<close> and no field \<open>ended\<close>, so the condition of \<open>resetTimer\<close> always holds.
\<close>

definition ql_resetTimer :: "ql_state \<Rightarrow> ql_state" where
  "ql_resetTimer s = s\<lparr>ql_timeout := True\<rparr>"

definition ql_refreshLoop :: "ql_state \<Rightarrow> ql_state" where
  "ql_refreshLoop s = s\<lparr>ql_timeout := False, ql_searchTimeout := False, ql_requests := ql_requests s + 1\<rparr>"

section \<open>An answered request\<close>

text \<open>\<open>queryMap\<close>: an entry is \<open>None\<close> once its query has been taken (the value \<open>false\<close>).\<close>

definition query_map :: "query list \<Rightarrow> (string \<times> query option) list" where
  "query_map queryList = foldl (\<lambda>m query. obj_set m (q_queryId query) (Some query)) [] queryList"

text \<open>
  Taking an entry twice would push \<open>false\<close> into the list of queries, and reading its statistics
  then raises a \<open>TypeError\<close>; here the raise is immediate.  It never happens: C1.
\<close>

fun take_displayed ::
  "query list \<Rightarrow> (string \<times> query option) list \<Rightarrow> exn + (query list \<times> (string \<times> query option) list)" where
  "take_displayed [] m = Inr ([], m)"
| "take_displayed (oldQuery # rest) m =
     (case obj_get m (q_queryId oldQuery) of
        None \<Rightarrow> take_displayed rest m
      | Some None \<Rightarrow> Inl TypeError
      | Some (Some query) \<Rightarrow>
          res_map (\<lambda>(qs, m'). (query # qs, m')) (take_displayed rest (obj_set m (q_queryId oldQuery) None)))"

definition remaining :: "(string \<times> query option) list \<Rightarrow> query list" where
  "remaining m = List.map_filter snd m"

text \<open>The two reads of the clock give \<open>now\<close> and \<open>later\<close>.\<close>

definition reorder_due :: "ql_state \<Rightarrow> int \<Rightarrow> bool" where
  "reorder_due s now \<longleftrightarrow> ql_reorderInterval s \<noteq> 0 \<and> now - ql_lastReorder s \<ge> ql_reorderInterval s"

definition ql_refresh_success :: "query list \<Rightarrow> int \<Rightarrow> int \<Rightarrow> ql_state \<Rightarrow> exn + ql_state" where
  "ql_refresh_success queryList now later s =
     res_bind (take_displayed (ql_displayedQueries s) (query_map queryList)) (\<lambda>(updated, queryMap).
     res_bind (ql_filter s (remaining queryMap)) (\<lambda>newQueries.
     res_map (\<lambda>(updatedQueries, lastReorder).
         ql_resetTimer (s\<lparr>ql_allQueries := queryList,
           ql_displayedQueries := limit_queries (ql_maxQueries s) updatedQueries,
           ql_lastRefresh := now, ql_lastReorder := lastReorder, ql_initialized := True\<rparr>))
       (if reorder_due s now then
          res_map (\<lambda>kept. (sortAndLimitQueries (kept @ newQueries) (ql_currentSortType s) (ql_currentSortOrder s) (Some 0), later))
            (ql_filter s updated)
        else Inr (updated @ sortAndLimitQueries newQueries (ql_currentSortType s) (ql_currentSortOrder s) (Some 0),
                  ql_lastReorder s))))"

definition ql_refresh_error :: "ql_state \<Rightarrow> ql_state" where
  "ql_refresh_error s = ql_resetTimer (s\<lparr>ql_initialized := True\<rparr>)"

section \<open>The other handlers\<close>

definition ql_handleSearchStringChange :: "string \<Rightarrow> ql_state \<Rightarrow> ql_state" where
  "ql_handleSearchStringChange newSearchString s =
     s\<lparr>ql_searchString := newSearchString, ql_searchTimeout := True\<rparr>"

definition ql_executeSearch :: "ql_state \<Rightarrow> exn + ql_state" where
  "ql_executeSearch s =
     res_map (\<lambda>qs. s\<lparr>ql_searchTimeout := False,
         ql_displayedQueries := sortAndLimitQueries qs (ql_currentSortType s) (ql_currentSortOrder s) (Some (ql_maxQueries s))\<rparr>)
       (ql_filter s (ql_allQueries s))"

definition ql_handleMaxQueriesClick :: "nat \<Rightarrow> ql_state \<Rightarrow> exn + ql_state" where
  "ql_handleMaxQueriesClick newMaxQueries s =
     res_map (\<lambda>qs. s\<lparr>ql_maxQueries := newMaxQueries,
         ql_displayedQueries := sortAndLimitQueries qs (ql_currentSortType s) (ql_currentSortOrder s) (Some newMaxQueries)\<rparr>)
       (ql_filter s (ql_allQueries s))"

definition ql_handleReorderClick :: "int \<Rightarrow> ql_state \<Rightarrow> ql_state" where
  "ql_handleReorderClick interval s =
     (if ql_reorderInterval s \<noteq> interval then s\<lparr>ql_reorderInterval := interval\<rparr> else s)"

definition ql_handleSortClick :: "sort_type \<Rightarrow> ql_state \<Rightarrow> exn + ql_state" where
  "ql_handleSortClick sortType s =
     (let newSortOrder = (if ql_currentSortType s = sortType \<and> ql_currentSortOrder s = DESCENDING
                          then ASCENDING else DESCENDING)
      in res_map (\<lambda>qs. s\<lparr>ql_displayedQueries := sortAndLimitQueries qs sortType newSortOrder (Some (ql_maxQueries s)),
             ql_currentSortType := sortType, ql_currentSortOrder := newSortOrder\<rparr>)
           (ql_filter s (ql_allQueries s)))"

text \<open>\<open>splice(indexOf(filter), 1)\<close> or \<open>push(filter)\<close>.\<close>

definition toggle_filter :: "'f \<Rightarrow> 'f list \<Rightarrow> 'f list" where
  "toggle_filter f filters = (if f \<in> set filters then remove1 f filters else filters @ [f])"

definition ql_handleStateFilterClick :: "filter_type \<Rightarrow> ql_state \<Rightarrow> exn + ql_state" where
  "ql_handleStateFilterClick f s =
     (let newFilters = toggle_filter f (ql_stateFilters s) in
      res_map (\<lambda>qs. s\<lparr>ql_stateFilters := newFilters,
          ql_displayedQueries := sortAndLimitQueries qs (ql_currentSortType s) (ql_currentSortOrder s) None\<rparr>)
        (filterQueries (ql_allQueries s) newFilters (ql_errorTypeFilters s) (ql_searchString s)))"

definition ql_handleErrorTypeFilterClick :: "error_type \<Rightarrow> ql_state \<Rightarrow> exn + ql_state" where
  "ql_handleErrorTypeFilterClick e s =
     (let newFilters = toggle_filter e (ql_errorTypeFilters s) in
      res_map (\<lambda>qs. s\<lparr>ql_errorTypeFilters := newFilters,
          ql_displayedQueries := sortAndLimitQueries qs (ql_currentSortType s) (ql_currentSortOrder s) None\<rparr>)
        (filterQueries (ql_allQueries s) (ql_stateFilters s) newFilters (ql_searchString s)))"

section \<open>What the operations compute\<close>

definition query_visible :: "filter_type list \<Rightarrow> error_type list \<Rightarrow> string \<Rightarrow> query \<Rightarrow> bool" where
  "query_visible stateFilters errorTypeFilters searchString query \<longleftrightarrow>
     state_filter_matches stateFilters errorTypeFilters query
     \<and> (searchString = [] \<or> search_matches searchString query = Inr True)"

lemma search_matches_ok:
  assumes "error_fields_ok query"
  shows "search_matches str query = Inr (search_matches str query = Inr True)"
  using getHumanReadableState_ok [OF assms] by (auto simp: search_matches_def Let_def)

lemma filterQueries_ok:
  assumes "list_all error_fields_ok queries"
  shows "filterQueries queries sf ef str = Inr (filter (query_visible sf ef str) queries)"
proof -
  let ?qs = "filter (state_filter_matches sf ef) queries"
  have "res_filter (search_matches str) ?qs = Inr (filter (\<lambda>q. search_matches str q = Inr True) ?qs)"
    using assms by (intro res_filter_Inr search_matches_ok) (auto simp: list_all_iff)
  then show ?thesis
    by (cases "str = []") (simp_all add: filterQueries_def query_visible_def [abs_def] Let_def)
qed

lemma limit_queries_take: "limit_queries m qs = (if m = 0 then qs else take m qs)"
  by (simp add: limit_queries_def)

lemma set_limit_queries: "set (limit_queries m qs) \<subseteq> set qs"
  by (auto simp: limit_queries_take dest: in_set_takeD)

lemma distinct_limit_queries: "distinct (map f qs) \<Longrightarrow> distinct (map f (limit_queries m qs))"
  by (simp add: limit_queries_take take_map [symmetric])

lemma set_sortAndLimitQueries: "set (sortAndLimitQueries qs st so m) \<subseteq> set qs"
  using set_limit_queries [of _ "js_sort (query_cmp st so) qs"]
  by (cases m) (simp_all add: sortAndLimitQueries_def)

lemma distinct_sortAndLimitQueries:
  "distinct (map f qs) \<Longrightarrow> distinct (map f (sortAndLimitQueries qs st so m))"
  by (cases m) (simp_all add: sortAndLimitQueries_def distinct_limit_queries)

text \<open>The current version of a query in an answer of the server.\<close>

definition lookup_query :: "query list \<Rightarrow> string \<Rightarrow> query option" where
  "lookup_query queryList k = map_of (map (\<lambda>q. (q_queryId q, q)) queryList) k"

lemma query_map_distinct:
  assumes "distinct (map q_queryId l)"
  shows "query_map l = map (\<lambda>q. (q_queryId q, Some q)) l" and "obj_ok (query_map l)"
  using obj.fill_entries [of "[]" q_queryId l Some] assms
  by (simp_all add: query_map_def obj_ok_def obj_get_def comp_def)

lemma obj_get_query_map:
  "distinct (map q_queryId l) \<Longrightarrow> obj_get (query_map l) k = map_option Some (lookup_query l k)"
  by (simp add: query_map_distinct obj_get_def lookup_query_def) (induction l; auto)

lemma lookup_query_Some:
  "lookup_query l k = Some q \<Longrightarrow> q \<in> set l \<and> q_queryId q = k"
  by (auto simp: lookup_query_def dest: map_of_SomeD)

lemma lookup_query_None: "lookup_query l k = None \<longleftrightarrow> k \<notin> q_queryId ` set l"
  by (simp add: lookup_query_def map_of_eq_None_iff image_image)

lemma take_displayed_closed:
  assumes "obj_ok m" and "distinct (map q_queryId ds)" and "\<forall>d \<in> set ds. obj_get m (q_queryId d) \<noteq> Some None"
  shows "take_displayed ds m =
     Inr (List.map_filter (\<lambda>d. Option.bind (obj_get m (q_queryId d)) (\<lambda>x. x)) ds,
          map (\<lambda>(k, v). (k, if k \<in> q_queryId ` set ds then None else v)) m)"
  using assms
proof (induction ds arbitrary: m)
  case Nil
  then show ?case by simp
next
  case (Cons d ds)
  show ?case
  proof (cases "obj_get m (q_queryId d)")
    case None
    then have "q_queryId d \<notin> fst ` set m" using Cons.prems(1) by (simp add: obj.get_None_iff)
    then have "map (\<lambda>(k, v). (k, if k \<in> q_queryId ` set (d # ds) then None else v)) m
      = map (\<lambda>(k, v). (k, if k \<in> q_queryId ` set ds then None else v)) m" by (force intro: map_cong)
    then show ?thesis using None Cons by simp
  next
    case (Some v)
    then obtain q where q: "obj_get m (q_queryId d) = Some (Some q)" using Cons.prems(3) by (cases v) auto
    let ?m = "obj_set m (q_queryId d) None"
    have g: "obj_get ?m (q_queryId e) = obj_get m (q_queryId e)" if "e \<in> set ds" for e
      using that Cons.prems(1,2) by (auto simp: obj.get_put image_iff)
    have "?m = map (\<lambda>(k', v'). (k', if k' = q_queryId d then None else v')) m"
      using q Cons.prems(1) by (simp add: obj.entries_put_old)
    then have e: "map (\<lambda>(k, v). (k, if k \<in> q_queryId ` set ds then None else v)) ?m
      = map (\<lambda>(k, v). (k, if k \<in> q_queryId ` set (d # ds) then None else v)) m"
      by (auto simp: comp_def case_prod_beta)
    have "take_displayed ds ?m = Inr (List.map_filter (\<lambda>d. Option.bind (obj_get ?m (q_queryId d)) (\<lambda>x. x)) ds,
        map (\<lambda>(k, v). (k, if k \<in> q_queryId ` set ds then None else v)) ?m)"
      using Cons.prems g by (intro Cons.IH obj.inv_put) auto
    moreover have "List.map_filter (\<lambda>d. Option.bind (obj_get ?m (q_queryId d)) (\<lambda>x. x)) ds
      = List.map_filter (\<lambda>d. Option.bind (obj_get m (q_queryId d)) (\<lambda>x. x)) ds"
      using g by (auto simp: map_filter_def intro!: map_cong filter_cong)
    ultimately show ?thesis using q e by simp
  qed
qed

text \<open>
  The answer splits into the current versions of the displayed queries, in the order in which they
  are displayed, and the other queries, in the order of the answer.
\<close>

definition updated_queries :: "query list \<Rightarrow> query list \<Rightarrow> query list" where
  "updated_queries l ds = List.map_filter (\<lambda>d. lookup_query l (q_queryId d)) ds"

definition fresh_queries :: "query list \<Rightarrow> query list \<Rightarrow> query list" where
  "fresh_queries l ds = filter (\<lambda>q. q_queryId q \<notin> q_queryId ` set ds) l"

lemma bind_map_Some: "Option.bind (map_option Some v) (\<lambda>x. x) = v"
  by (cases v) simp_all

lemma take_displayed_query_map:
  assumes "distinct (map q_queryId l)" and "distinct (map q_queryId ds)"
  shows "\<exists>m. take_displayed ds (query_map l) = Inr (updated_queries l ds, m) \<and> remaining m = fresh_queries l ds"
proof -
  let ?f = "\<lambda>(k, v). (k, if k \<in> q_queryId ` set ds then None else v)"
  have "\<forall>d \<in> set ds. obj_get (query_map l) (q_queryId d) \<noteq> Some None"
    using assms(1) by (simp add: obj_get_query_map)
  from take_displayed_closed [OF query_map_distinct(2) [OF assms(1)] assms(2) this]
  have "take_displayed ds (query_map l) = Inr (updated_queries l ds, map ?f (query_map l))"
    using assms(1) by (simp add: obj_get_query_map bind_map_Some updated_queries_def)
  moreover have "remaining (map ?f (query_map l)) = fresh_queries l ds"
    using assms(1)
    by (simp add: query_map_distinct remaining_def fresh_queries_def map_filter_def comp_def filter_map)
      (induction l; simp)
  ultimately show ?thesis by blast
qed

lemma map_id_updated:
  "map q_queryId (updated_queries l ds) = filter (\<lambda>k. k \<in> q_queryId ` set l) (map q_queryId ds)"
proof (induction ds)
  case (Cons d ds)
  show ?case
  proof (cases "lookup_query l (q_queryId d)")
    case None
    then have "q_queryId d \<notin> q_queryId ` set l" by (simp add: lookup_query_None)
    then show ?thesis using Cons None by (simp add: updated_queries_def)
  next
    case (Some q)
    then have "q \<in> set l" and k: "q_queryId q = q_queryId d" using lookup_query_Some by blast+
    then have "q_queryId d \<in> q_queryId ` set l" by (metis imageI)
    then show ?thesis using Cons Some k by (simp add: updated_queries_def)
  qed
qed (simp add: updated_queries_def)

lemma set_updated: "set (updated_queries l ds) \<subseteq> set l"
  using lookup_query_Some by (fastforce simp: updated_queries_def map_filter_def)

lemma set_fresh: "set (fresh_queries l ds) \<subseteq> set l"
  by (auto simp: fresh_queries_def)

lemma distinct_updated:
  assumes "distinct (map q_queryId ds)"
  shows "distinct (map q_queryId (updated_queries l ds))"
  using assms by (simp add: map_id_updated)

lemma distinct_fresh:
  "distinct (map q_queryId l) \<Longrightarrow> distinct (map q_queryId (fresh_queries l ds))"
  by (simp add: fresh_queries_def distinct_map_filter)

lemma updated_fresh_disjoint:
  "q_queryId ` set (updated_queries l ds) \<inter> q_queryId ` set (fresh_queries l ds) = {}"
proof -
  have "q_queryId ` set (updated_queries l ds) \<subseteq> q_queryId ` set ds"
    unfolding set_map [symmetric] map_id_updated by auto
  moreover have "q_queryId ` set (fresh_queries l ds) \<inter> q_queryId ` set ds = {}" by (auto simp: fresh_queries_def)
  ultimately show ?thesis by blast
qed

text \<open>What an answered request makes of the displayed list.\<close>

definition refreshed :: "query list \<Rightarrow> int \<Rightarrow> ql_state \<Rightarrow> query list" where
  "refreshed l now s =
     (let sort = js_sort (query_cmp (ql_currentSortType s) (ql_currentSortOrder s));
          visible = filter (query_visible (ql_stateFilters s) (ql_errorTypeFilters s) (ql_searchString s));
          updated = updated_queries l (ql_displayedQueries s); fresh = visible (fresh_queries l (ql_displayedQueries s))
      in limit_queries (ql_maxQueries s)
           (if reorder_due s now then sort (visible updated @ fresh) else updated @ sort fresh))"

lemma ql_refresh_success_closed:
  assumes "distinct (map q_queryId l)" and "list_all error_fields_ok l"
    and "distinct (map q_queryId (ql_displayedQueries s))"
  shows "ql_refresh_success l now later s = Inr (s\<lparr>ql_allQueries := l,
     ql_displayedQueries := refreshed l now s, ql_lastRefresh := now,
     ql_lastReorder := (if reorder_due s now then later else ql_lastReorder s),
     ql_initialized := True, ql_timeout := True\<rparr>)"
proof -
  obtain m where m: "take_displayed (ql_displayedQueries s) (query_map l)
      = Inr (updated_queries l (ql_displayedQueries s), m)" "remaining m = fresh_queries l (ql_displayedQueries s)"
    using take_displayed_query_map [OF assms(1,3)] by blast
  have "list_all error_fields_ok (updated_queries l (ql_displayedQueries s))"
    and "list_all error_fields_ok (fresh_queries l (ql_displayedQueries s))"
    using set_updated set_fresh assms(2) by (fastforce simp: list_all_iff)+
  then show ?thesis
    using m by (simp add: ql_refresh_success_def ql_filter_def filterQueries_ok refreshed_def sortAndLimitQueries_def
        ql_resetTimer_def limit_queries_take [of 0] Let_def)
qed

end
