(* ===== verification/QueryListSteps.thy ===== *)
theory QueryListSteps
  imports QueryList
begin

text \<open>
  The interleavings of the component \<open>QueryList\<close>: user events, timers and answers to requests, in any
  order their preconditions allow, and the invariants of every reachable state.
\<close>

section \<open>Events\<close>

datatype ql_event =
    QL_RefreshTimer
  | QL_RefreshSuccess "query list" int int
  | QL_RefreshError
  | QL_SearchChange string
  | QL_SearchTimer
  | QL_MaxQueriesClick nat
  | QL_ReorderClick int
  | QL_SortClick sort_type
  | QL_StateFilterClick filter_type
  | QL_ErrorTypeFilterClick error_type

text \<open>A timer fires only while it is pending, an answer comes only for an outstanding request.\<close>

fun ql_enabled :: "ql_event \<Rightarrow> ql_state \<Rightarrow> bool" where
  "ql_enabled QL_RefreshTimer s \<longleftrightarrow> ql_timeout s"
| "ql_enabled (QL_RefreshSuccess l now later) s \<longleftrightarrow> 0 < ql_requests s"
| "ql_enabled QL_RefreshError s \<longleftrightarrow> 0 < ql_requests s"
| "ql_enabled QL_SearchTimer s \<longleftrightarrow> ql_searchTimeout s"
| "ql_enabled _ s \<longleftrightarrow> True"

definition answered :: "ql_state \<Rightarrow> ql_state" where
  "answered s = s\<lparr>ql_requests := ql_requests s - 1\<rparr>"

lemma reorder_due_answered: "reorder_due (answered s) now = reorder_due s now"
  by (simp add: reorder_due_def answered_def)

fun ql_handle :: "ql_event \<Rightarrow> ql_state \<Rightarrow> exn + ql_state" where
  "ql_handle QL_RefreshTimer s = Inr (ql_refreshLoop s)"
| "ql_handle (QL_RefreshSuccess l now later) s = ql_refresh_success l now later (answered s)"
| "ql_handle QL_RefreshError s = Inr (ql_refresh_error (answered s))"
| "ql_handle (QL_SearchChange str) s = Inr (ql_handleSearchStringChange str s)"
| "ql_handle QL_SearchTimer s = ql_executeSearch s"
| "ql_handle (QL_MaxQueriesClick n) s = ql_handleMaxQueriesClick n s"
| "ql_handle (QL_ReorderClick n) s = Inr (ql_handleReorderClick n s)"
| "ql_handle (QL_SortClick t) s = ql_handleSortClick t s"
| "ql_handle (QL_StateFilterClick f) s = ql_handleStateFilterClick f s"
| "ql_handle (QL_ErrorTypeFilterClick e) s = ql_handleErrorTypeFilterClick e s"

text \<open>
  A handler that raises leaves the React state as it was; the request has been answered and the
  search timer has fired all the same, and the refresh timer is not set again.
\<close>

fun ql_raised :: "ql_event \<Rightarrow> ql_state \<Rightarrow> ql_state" where
  "ql_raised (QL_RefreshSuccess l now later) s = answered s"
| "ql_raised QL_SearchTimer s = s\<lparr>ql_searchTimeout := False\<rparr>"
| "ql_raised _ s = s"

inductive ql_step :: "ql_state \<Rightarrow> ql_event \<Rightarrow> ql_state \<Rightarrow> bool" where
  ql_step_ok: "ql_enabled e s \<Longrightarrow> ql_handle e s = Inr s' \<Longrightarrow> ql_step s e s'"
| ql_step_raise: "ql_enabled e s \<Longrightarrow> ql_handle e s = Inl x \<Longrightarrow> ql_step s e (ql_raised e s)"

inductive_cases ql_stepE: "ql_step s e s'"

text \<open>
  What the server guarantees of an answer: the queries have different identifiers, and their error
  fields are consistent.
\<close>

fun ql_server_ok :: "ql_event \<Rightarrow> bool" where
  "ql_server_ok (QL_RefreshSuccess l now later) \<longleftrightarrow> distinct (map q_queryId l) \<and> list_all error_fields_ok l"
| "ql_server_ok _ \<longleftrightarrow> True"

inductive ql_reachable :: "ql_state \<Rightarrow> bool" where
  ql_mounted: "ql_reachable (ql_refreshLoop (ql_init now))"
| ql_reachable_step: "ql_reachable s \<Longrightarrow> ql_step s e s' \<Longrightarrow> ql_server_ok e \<Longrightarrow> ql_reachable s'"

section \<open>The invariant\<close>

text \<open>Exactly one of a pending refresh timer and a single outstanding request keeps the polling alive.\<close>

definition ql_polling :: "ql_state \<Rightarrow> bool" where
  "ql_polling s \<longleftrightarrow> (if ql_timeout s then ql_requests s = 0 else ql_requests s = 1)"

definition ql_inv :: "ql_state \<Rightarrow> bool" where
  "ql_inv s \<longleftrightarrow>
     distinct (map q_queryId (ql_allQueries s)) \<and> list_all error_fields_ok (ql_allQueries s)
     \<and> distinct (map q_queryId (ql_displayedQueries s)) \<and> set (ql_displayedQueries s) \<subseteq> set (ql_allQueries s)
     \<and> distinct (ql_stateFilters s) \<and> distinct (ql_errorTypeFilters s) \<and> ql_polling s"

lemma distinct_toggle: "distinct fs \<Longrightarrow> distinct (toggle_filter f fs)"
  by (simp add: toggle_filter_def)

lemma redisplay_inv:
  assumes "distinct (map q_queryId all)"
  shows "distinct (map q_queryId (sortAndLimitQueries (filter P all) st so m))
       \<and> set (sortAndLimitQueries (filter P all) st so m) \<subseteq> set all"
  using assms set_sortAndLimitQueries [of "filter P all" st so m]
  by (auto simp: distinct_map_filter intro: distinct_sortAndLimitQueries)

lemma refreshed_inv:
  assumes "distinct (map q_queryId l)" and "distinct (map q_queryId (ql_displayedQueries s))"
  shows "distinct (map q_queryId (refreshed l now s)) \<and> set (refreshed l now s) \<subseteq> set l"
proof -
  let ?u = "updated_queries l (ql_displayedQueries s)" and ?f = "fresh_queries l (ql_displayedQueries s)"
  let ?v = "query_visible (ql_stateFilters s) (ql_errorTypeFilters s) (ql_searchString s)"
  let ?c = "query_cmp (ql_currentSortType s) (ql_currentSortOrder s)"
  have d: "distinct (map q_queryId (filter ?v ?u @ filter ?v ?f))" "distinct (map q_queryId (?u @ filter ?v ?f))"
    using distinct_updated [OF assms(2), of l] distinct_fresh [OF assms(1), of "ql_displayedQueries s"]
      updated_fresh_disjoint [of l "ql_displayedQueries s"]
    by (auto simp: distinct_map_filter)
  have s: "set ?u \<subseteq> set l" "set ?f \<subseteq> set l" using set_updated set_fresh by blast+
  define xs where "xs = (if reorder_due s now then js_sort ?c (filter ?v ?u @ filter ?v ?f) else ?u @ js_sort ?c (filter ?v ?f))"
  have "refreshed l now s = limit_queries (ql_maxQueries s) xs" by (simp add: refreshed_def xs_def Let_def)
  moreover have "distinct (map q_queryId xs)" "set xs \<subseteq> set l" using d s by (auto simp: xs_def)
  ultimately show ?thesis using set_limit_queries [of "ql_maxQueries s" xs] by (auto intro: distinct_limit_queries)
qed

lemma ql_filter_inv:
  "ql_inv s \<Longrightarrow> filterQueries (ql_allQueries s) sf ef str = Inr (filter (query_visible sf ef str) (ql_allQueries s))"
  by (simp add: ql_inv_def filterQueries_ok)

lemma ql_handle_inv:
  assumes inv: "ql_inv s" and en: "ql_enabled e s" and ok: "ql_server_ok e"
  shows "\<exists>s'. ql_handle e s = Inr s' \<and> ql_inv s'"
proof -
  note d = redisplay_inv [of "ql_allQueries s"]
  have di: "distinct (map q_queryId (ql_allQueries s))" using inv by (simp add: ql_inv_def)
  note f = ql_filter_inv [OF inv]
  show ?thesis
  proof (cases e)
    case (QL_RefreshSuccess l now later)
    have "distinct (map q_queryId (ql_displayedQueries (answered s)))" using inv by (simp add: ql_inv_def answered_def)
    then show ?thesis
      using inv en ok QL_RefreshSuccess refreshed_inv [of l "answered s" now]
      by (auto simp: ql_refresh_success_closed ql_inv_def answered_def ql_polling_def split: if_splits)
  qed (use inv en d [OF di] in \<open>auto simp: f ql_inv_def ql_polling_def answered_def ql_refreshLoop_def ql_refresh_error_def
      ql_resetTimer_def ql_handleSearchStringChange_def ql_executeSearch_def ql_filter_def ql_handleMaxQueriesClick_def
      ql_handleReorderClick_def ql_handleSortClick_def ql_handleStateFilterClick_def ql_handleErrorTypeFilterClick_def
      distinct_toggle Let_def split: if_splits\<close>)
qed

lemma ql_step_inv:
  assumes "ql_inv s" and "ql_step s e s'" and "ql_server_ok e"
  shows "ql_inv s'"
  using assms(2)
proof (cases rule: ql_step.cases)
  case ql_step_ok
  then show ?thesis using ql_handle_inv [OF assms(1) _ assms(3)] by auto
next
  case (ql_step_raise x)
  then show ?thesis using ql_handle_inv [OF assms(1) _ assms(3)] by auto
qed

lemma ql_reachable_inv: "ql_reachable s \<Longrightarrow> ql_inv s"
proof (induction rule: ql_reachable.induct)
  case (ql_mounted now)
  show ?case by (simp add: ql_inv_def ql_refreshLoop_def ql_init_def ql_polling_def)
next
  case (ql_reachable_step s e s')
  then show ?case using ql_step_inv by blast
qed

section \<open>Sort keys\<close>

text \<open>The parsed durations and sizes are non-negative numbers or infinite, never \<open>NaN\<close>.\<close>

definition nonneg_num :: "jsnum \<Rightarrow> bool" where
  "nonneg_num x \<longleftrightarrow> is_num x \<and> (x = PInf \<or> (\<exists>r. x = Fin r \<and> 0 \<le> r))"

lemma nonneg_num_key: "nonneg_num x \<Longrightarrow> sort_key x"
  by (auto simp: nonneg_num_def sort_key_def)

lemma nonneg_fl: "0 \<le> x \<Longrightarrow> nonneg_num (fl x)"
  using is_num_fl [of x] rnd_nonneg [of x] by (auto simp: nonneg_num_def fl_def Let_def split: if_splits)

lemma nonneg_mul: "nonneg_num x \<Longrightarrow> 0 < m \<Longrightarrow> nonneg_num (js_mul x (Fin m))"
proof (cases x)
  case (Fin r)
  assume "nonneg_num x" "0 < m"
  then show ?thesis using Fin nonneg_fl [of "r * m"] by (simp add: nonneg_num_def)
qed (simp_all add: nonneg_num_def inf_of_sign_def)

lemma nonneg_div: "nonneg_num x \<Longrightarrow> 0 < m \<Longrightarrow> nonneg_num (js_div x (Fin m))"
proof (cases x)
  case (Fin r)
  assume "nonneg_num x" "0 < m"
  then show ?thesis using Fin nonneg_fl [of "r / m"] by (simp add: nonneg_num_def)
qed (simp_all add: nonneg_num_def)

lemma nonneg_parseFloat: "nonneg_num (parseFloat_dec n)"
  by (simp add: parseFloat_dec_def nonneg_fl decimal_val_nonneg)

lemma nonneg_zero: "nonneg_num (Fin 0)"
  using nonneg_fl [of 0] by (simp add: fl_def rnd_0)

lemmas nonneg_intros = nonneg_zero nonneg_parseFloat nonneg_mul nonneg_div

lemma nonneg_parseDuration: "nonneg_num (to_number (parseDuration v))"
proof (cases "UNIT_PATTERN_exec v")
  case (Some nu)
  obtain n u where "nu = (n, u)" by (cases nu)
  with Some show ?thesis
    by (simp add: parseDuration_def to_number_def Let_def nonneg_intros del: js_mul.simps js_div.simps)
qed (simp add: parseDuration_def to_number_def nonneg_zero)

lemma nonneg_parseDataSize: "nonneg_num (to_number (parseDataSize v))"
proof (cases "UNIT_PATTERN_exec v")
  case (Some nu)
  obtain n u where "nu = (n, u)" by (cases nu)
  with Some show ?thesis
    by (simp add: parseDataSize_def to_number_def Let_def nonneg_intros del: js_mul.simps)
qed (simp add: parseDataSize_def to_number_def nonneg_zero)

definition numbers_ok :: "query \<Rightarrow> bool" where
  "numbers_ok q \<longleftrightarrow> Date_parse (qs_createTime (q_queryStats q)) \<noteq> NaN
     \<and> sort_key (qs_cumulativeUserMemory (q_queryStats q))"

lemma numbers_ok_key: "numbers_ok q \<Longrightarrow> sort_key (to_number (SORT_TYPE st q))"
proof (cases st)
  case ST_CREATED
  assume "numbers_ok q"
  then show ?thesis using ST_CREATED is_num_Date_parse by (simp add: numbers_ok_def to_number_def sort_key_def)
qed (auto simp: numbers_ok_def to_number_def [of "Some _"] intro: nonneg_num_key nonneg_parseDuration nonneg_parseDataSize)

definition query_key :: "sort_type \<Rightarrow> query \<Rightarrow> jsnum" where
  "query_key st q = to_number (SORT_TYPE st q)"

lemma query_cmp_key:
  "query_cmp st ASCENDING = key_diff (query_key st)" "query_cmp st DESCENDING = key_diff_desc (query_key st)"
  by (simp_all add: fun_eq_iff query_cmp_def key_diff_def key_diff_desc_def query_key_def)

interpretation query_order: comparator "query_cmp st so" "{q. sort_key (query_key st q)}" for st so
  by (cases so) (simp_all add: query_cmp_key by_key.comparator_axioms by_key_desc.comparator_axioms)

section \<open>Properties\<close>

text \<open>A concrete run, for the instances of the properties below.\<close>

definition q_a :: query where
  "q_a = example_query\<lparr>q_queryId := ''a''\<rparr>"

definition q_b :: query where
  "q_b = example_query\<lparr>q_queryId := ''b'', q_state := ''QUEUED''\<rparr>"

lemma q_ids [simp]: "q_queryId q_a = ''a''" "q_queryId q_b = ''b''"
  by (simp_all add: q_a_def q_b_def)

fun ql_run :: "ql_event list \<Rightarrow> ql_state \<Rightarrow> exn + ql_state" where
  "ql_run [] s = Inr s"
| "ql_run (e # es) s = res_bind (ql_handle e s) (ql_run es)"

lemma ql_run_snoc: "ql_run (es @ [e]) s = res_bind (ql_run es s) (ql_handle e)"
proof (induction es arbitrary: s)
  case Nil
  then show ?case by (cases "ql_handle e s") simp_all
next
  case (Cons d es)
  then show ?case by (cases "ql_handle d s") simp_all
qed

definition ql_started :: ql_state where
  "ql_started = ql_refreshLoop (ql_init 0)"

definition ql_loaded :: ql_state where
  "ql_loaded = ql_started\<lparr>ql_allQueries := [q_a, q_b], ql_displayedQueries := [q_a, q_b],
     ql_lastRefresh := 1000, ql_initialized := True, ql_timeout := True, ql_requests := 0\<rparr>"

lemma server_ok_ab: "ql_server_ok (QL_RefreshSuccess [q_a, q_b] now later)"
  by (simp add: q_a_def q_b_def error_fields_ok_def example_defs)

lemma cmp_same_key:
  assumes "query_key st a = query_key st b"
  shows "cmp_le (query_cmp st so) a b"
proof -
  have "js_sub x x = Fin 0 \<or> js_sub x x = NaN" for x
    by (cases x) (simp_all add: js_sub_def fl_def)
  from this [of "query_key st b"] show ?thesis
    using assms by (cases so) (auto simp: cmp_le_def query_cmp_def query_key_def)
qed

lemma ql_loaded_step: "ql_handle (QL_RefreshSuccess [q_a, q_b] 1000 1000) ql_started = Inr ql_loaded"
proof -
  have k: "query_key ST_CREATED q_a = query_key ST_CREATED q_b" by (simp add: query_key_def q_a_def q_b_def)
  have v: "query_visible [FT_RUNNING, FT_QUEUED] e [] q_a" "query_visible [FT_RUNNING, FT_QUEUED] e [] q_b" for e
    by (simp_all add: query_visible_def state_filter_matches_def q_a_def q_b_def example_defs)
  have "refreshed [q_a, q_b] 1000 (answered ql_started) = [q_a, q_b]"
    by (simp add: refreshed_def ql_started_def ql_init_def ql_refreshLoop_def answered_def reorder_due_def v
        updated_queries_def fresh_queries_def cmp_same_key [OF k] limit_queries_def Let_def)
  then show ?thesis
    using server_ok_ab
    by (simp add: ql_refresh_success_closed ql_loaded_def ql_started_def ql_init_def ql_refreshLoop_def
        answered_def reorder_due_def)
qed

lemma ql_started_reachable: "ql_reachable ql_started"
  unfolding ql_started_def by (rule ql_mounted)

lemma ql_loaded_reachable: "ql_reachable ql_loaded"
proof (rule ql_reachable_step [OF ql_started_reachable _ server_ok_ab])
  show "ql_step ql_started (QL_RefreshSuccess [q_a, q_b] 1000 1000) ql_loaded"
    by (rule ql_step_ok [OF _ ql_loaded_step]) (simp add: ql_started_def ql_refreshLoop_def)
qed

lemma ql_handle_reachable:
  assumes "ql_reachable s" and "ql_enabled e s" and "ql_server_ok e"
  shows "\<exists>s'. ql_handle e s = Inr s' \<and> ql_reachable s' \<and> ql_inv s'"
proof -
  obtain s' where s': "ql_handle e s = Inr s'" "ql_inv s'"
    using ql_handle_inv [OF ql_reachable_inv [OF assms(1)] assms(2,3)] by blast
  then show ?thesis using ql_reachable_step [OF assms(1) ql_step_ok assms(3)] assms(2) by blast
qed

text \<open>
  C1: whatever the user does and however timers and answers interleave, no handler of the query list
  raises and it can always go on: the result is again a reachable state, in which the displayed queries
  have different identifiers and all come from the last answer, and in which either the refresh
  timer is pending or exactly one request is outstanding, so polling neither stops nor doubles.
\<close>

theorem query_list_safe:
  assumes "ql_reachable s" and "ql_enabled e s" and "ql_server_ok e"
  shows "\<exists>s'. ql_handle e s = Inr s' \<and> ql_reachable s'
     \<and> distinct (map q_queryId (ql_displayedQueries s')) \<and> set (ql_displayedQueries s') \<subseteq> set (ql_allQueries s')
     \<and> (if ql_timeout s' then ql_requests s' = 0 else ql_requests s' = 1)"
  using ql_handle_reachable [OF assms] by (auto simp: ql_inv_def ql_polling_def)

theorem query_list_safe_witness:
  "\<exists>s'. ql_handle (QL_SortClick ST_ELAPSED) ql_loaded = Inr s' \<and> ql_reachable s'"
  using query_list_safe [OF ql_loaded_reachable, of "QL_SortClick ST_ELAPSED"] by auto



text \<open>
  The list shows the first queries: those that pass the filters and the search, in sort order, cut
  to the maximum, so that no query left out comes before a displayed one.
\<close>

definition shows_first :: "ql_state \<Rightarrow> bool" where
  "shows_first s \<longleftrightarrow>
     (let le = cmp_le (query_cmp (ql_currentSortType s) (ql_currentSortOrder s));
          matching = filter (query_visible (ql_stateFilters s) (ql_errorTypeFilters s) (ql_searchString s)) (ql_allQueries s)
      in sorted_wrt le (ql_displayedQueries s)
         \<and> set (ql_displayedQueries s) \<subseteq> set matching
         \<and> length (ql_displayedQueries s) =
             (if ql_maxQueries s = 0 then length matching else min (ql_maxQueries s) (length matching))
         \<and> (\<forall>d \<in> set (ql_displayedQueries s). \<forall>q \<in> set matching - set (ql_displayedQueries s). le d q))"

lemma sorted_limit_first:
  assumes "sorted_wrt le xs"
  shows "sorted_wrt le (limit_queries m xs)
    \<and> (\<forall>d \<in> set (limit_queries m xs). \<forall>q \<in> set xs - set (limit_queries m xs). le d q)"
proof (cases "m = 0")
  case False
  have "sorted_wrt le (take m xs @ drop m xs)" using assms by simp
  then have "sorted_wrt le (take m xs)" "\<forall>d \<in> set (take m xs). \<forall>q \<in> set (drop m xs). le d q"
    unfolding sorted_wrt_append by simp_all
  moreover have "set xs - set (take m xs) \<subseteq> set (drop m xs)" by (metis Diff_subset_conv append_take_drop_id set_append subset_refl)
  ultimately show ?thesis using False by (auto simp: limit_queries_take)
qed (use assms in \<open>simp add: limit_queries_take\<close>)

lemma shows_firstI:
  assumes "ql_displayedQueries s =
      limit_queries (ql_maxQueries s) (js_sort (query_cmp (ql_currentSortType s) (ql_currentSortOrder s)) ys)"
    and "mset ys = mset (filter (query_visible (ql_stateFilters s) (ql_errorTypeFilters s) (ql_searchString s)) (ql_allQueries s))"
    and "list_all numbers_ok (ql_allQueries s)"
  shows "shows_first s"
proof -
  let ?cmp = "query_cmp (ql_currentSortType s) (ql_currentSortOrder s)"
  let ?match = "filter (query_visible (ql_stateFilters s) (ql_errorTypeFilters s) (ql_searchString s)) (ql_allQueries s)"
  have s: "set ys = set ?match" "length ys = length ?match"
    using assms(2) by (metis set_mset_mset, metis size_mset)
  then have "set ys \<subseteq> {q. sort_key (query_key (ql_currentSortType s) q)}"
    using assms(3) numbers_ok_key by (auto simp: list_all_iff query_key_def)
  then have "sorted_wrt (cmp_le ?cmp) (js_sort ?cmp ys)" by (rule query_order.sort_sorted)
  from sorted_limit_first [OF this, of "ql_maxQueries s"] show ?thesis
    using s assms(1) set_limit_queries [of "ql_maxQueries s" "js_sort ?cmp ys"]
    by (auto simp: shows_first_def limit_queries_take Let_def)
qed

lemma mset_updated_fresh:
  assumes "distinct (map q_queryId l)" and "distinct (map q_queryId ds)"
  shows "mset (updated_queries l ds @ fresh_queries l ds) = mset l"
proof -
  have d: "distinct (map q_queryId (updated_queries l ds @ fresh_queries l ds))"
    using distinct_updated [OF assms(2), of l] distinct_fresh [OF assms(1), of ds] updated_fresh_disjoint [of l ds]
    by auto
  have "set l \<subseteq> set (updated_queries l ds @ fresh_queries l ds)"
  proof
    fix q assume q: "q \<in> set l"
    show "q \<in> set (updated_queries l ds @ fresh_queries l ds)"
    proof (cases "q_queryId q \<in> q_queryId ` set ds")
      case True
      then have "q_queryId q \<in> set (map q_queryId (updated_queries l ds))"
        using q unfolding map_id_updated by auto
      then obtain q' where "q' \<in> set (updated_queries l ds)" "q_queryId q' = q_queryId q" by auto
      moreover from this have "q' = q" using assms(1) q set_updated by (metis distinct_map inj_onD subsetD)
      ultimately show ?thesis by simp
    qed (use q in \<open>simp add: fresh_queries_def\<close>)
  qed
  then have "set (updated_queries l ds @ fresh_queries l ds) = set l" using set_updated set_fresh by fastforce
  then show ?thesis using d assms(1) by (metis distinct_map set_eq_iff_mset_eq_distinct)
qed

text \<open>The events after which the list is filtered and sorted anew, and the queries they work on.\<close>

fun redisplays :: "ql_event \<Rightarrow> ql_state \<Rightarrow> bool" where
  "redisplays QL_SearchTimer s \<longleftrightarrow> True"
| "redisplays (QL_MaxQueriesClick n) s \<longleftrightarrow> True"
| "redisplays (QL_SortClick t) s \<longleftrightarrow> True"
| "redisplays (QL_RefreshSuccess l now later) s \<longleftrightarrow> reorder_due s now"
| "redisplays _ s \<longleftrightarrow> False"

fun queries_after :: "ql_event \<Rightarrow> ql_state \<Rightarrow> query list" where
  "queries_after (QL_RefreshSuccess l now later) s = l"
| "queries_after _ s = ql_allQueries s"

lemma refresh_reorder_first:
  assumes "ql_inv s" and "ql_server_ok (QL_RefreshSuccess l now later)" and "reorder_due s now" and "list_all numbers_ok l"
  shows "\<exists>s'. ql_handle (QL_RefreshSuccess l now later) s = Inr s' \<and> shows_first s'"
proof -
  let ?a = "answered s"
  let ?v = "query_visible (ql_stateFilters s) (ql_errorTypeFilters s) (ql_searchString s)"
  let ?u = "updated_queries l (ql_displayedQueries s)" and ?f = "fresh_queries l (ql_displayedQueries s)"
  let ?s = "?a\<lparr>ql_allQueries := l, ql_displayedQueries := refreshed l now ?a, ql_lastRefresh := now,
     ql_lastReorder := later, ql_initialized := True, ql_timeout := True\<rparr>"
  have d: "distinct (map q_queryId l)" "distinct (map q_queryId (ql_displayedQueries s))"
    using assms(1,2) by (simp_all add: ql_inv_def)
  have "refreshed l now ?a = limit_queries (ql_maxQueries s)
      (js_sort (query_cmp (ql_currentSortType s) (ql_currentSortOrder s)) (filter ?v (?u @ ?f)))"
    using assms(3) by (simp add: refreshed_def reorder_due_answered Let_def) (simp add: answered_def)
  moreover have "mset (filter ?v (?u @ ?f)) = mset (filter ?v l)"
    using mset_updated_fresh [OF d] by (simp only: mset_filter)
  ultimately have "shows_first ?s"
    using assms(4) by (intro shows_firstI [where ys = "filter ?v (?u @ ?f)"]) (simp_all add: answered_def)
  moreover have "ql_handle (QL_RefreshSuccess l now later) s = Inr ?s"
    using assms(2,3) d(2) ql_refresh_success_closed [of l ?a now later]
    by (simp add: reorder_due_answered) (simp add: answered_def)
  ultimately show ?thesis by blast
qed

text \<open>
  C2: after a search, a change of the maximum, a change of the sort order, and an answer that comes when a
  reordering is due, the list shows the first matching queries in sort order.
\<close>

theorem redisplay_shows_first:
  assumes "ql_reachable s" and "ql_server_ok e" and "redisplays e s" and "list_all numbers_ok (queries_after e s)"
  shows "\<exists>s'. ql_handle e s = Inr s' \<and> shows_first s'"
proof -
  have inv: "ql_inv s" using assms(1) by (rule ql_reachable_inv)
  note f = ql_filter_inv [OF inv]
  show ?thesis
  proof (cases e)
    case (QL_RefreshSuccess l now later)
    then show ?thesis using refresh_reorder_first [OF inv] assms(2-4) by simp
  qed (use assms(3,4) in \<open>auto simp: f ql_executeSearch_def ql_filter_def ql_handleMaxQueriesClick_def
      ql_handleSortClick_def sortAndLimitQueries_def Let_def intro!: shows_firstI\<close>)
qed

lemma numbers_ok_examples: "list_all numbers_ok [q_a, q_b]"
proof -
  have "iso_shape ''2020-01-01T00:00:00.000Z''" "valid_iso (iso_read ''2020-01-01T00:00:00.000Z'')"
    by (simp_all add: iso_eval)
  then have "Date_parse ''2020-01-01T00:00:00.000Z'' \<noteq> NaN" by (simp add: Date_parse_def)
  moreover have "sort_key (Fin 4096)" using is_num_int [of 4096] by (simp add: sort_key_def)
  ultimately show ?thesis by (simp add: numbers_ok_def q_a_def q_b_def example_defs)
qed

theorem redisplay_shows_first_witness:
  "\<exists>s'. ql_handle (QL_MaxQueriesClick 20) ql_loaded = Inr s' \<and> shows_first s' \<and> ql_maxQueries s' = 20"
proof -
  obtain s' where s': "ql_handle (QL_MaxQueriesClick 20) ql_loaded = Inr s'" "shows_first s'"
    using redisplay_shows_first [OF ql_loaded_reachable, of "QL_MaxQueriesClick 20"] numbers_ok_examples
    by (auto simp: ql_loaded_def)
  then show ?thesis by (auto simp: ql_handleMaxQueriesClick_def)
qed

text \<open>
  C23: a click on a state filter does not respect the chosen maximum: it displays every query that
  passes the new filters, since it calls the sort without the limit.
\<close>

theorem state_filter_click_unlimited:
  assumes "ql_reachable s"
  shows "\<exists>s'. ql_handle (QL_StateFilterClick f) s = Inr s' \<and> ql_maxQueries s' = ql_maxQueries s
     \<and> mset (ql_displayedQueries s') = mset (filter (query_visible (ql_stateFilters s') (ql_errorTypeFilters s')
         (ql_searchString s')) (ql_allQueries s'))"
  using ql_filter_inv [OF ql_reachable_inv [OF assms]]
  by (auto simp: ql_handleStateFilterClick_def sortAndLimitQueries_def Let_def)

definition many_queries :: "query list" where
  "many_queries = map (\<lambda>i. example_query\<lparr>q_queryId := nat_str i\<rparr>) [0..<21]"

lemma many_queries_ok: "ql_server_ok (QL_RefreshSuccess many_queries now later)"
  by (simp add: many_queries_def comp_def distinct_map inj_on_def list_all_iff error_fields_ok_def example_defs)

theorem state_filter_click_unlimited_witness:
  "\<exists>s s'. ql_reachable s \<and> ql_maxQueries s = 20 \<and> ql_handle (QL_StateFilterClick FT_FINISHED) s = Inr s'
     \<and> length (ql_displayedQueries s') = 21"
proof -
  have "ql_enabled (QL_RefreshSuccess many_queries 1 1) ql_started" by (simp add: ql_started_def ql_refreshLoop_def)
  then obtain s1 where s1: "ql_handle (QL_RefreshSuccess many_queries 1 1) ql_started = Inr s1" "ql_reachable s1"
    using ql_handle_reachable [OF ql_started_reachable] many_queries_ok by blast
  then have all: "ql_allQueries s1 = many_queries" "ql_stateFilters s1 = [FT_RUNNING, FT_QUEUED]" "ql_searchString s1 = []"
    using ql_refresh_success_closed [of many_queries "answered ql_started" 1 1] many_queries_ok [of 1 1]
    by (auto simp: answered_def ql_started_def ql_refreshLoop_def ql_init_def)
  obtain s2 where s2: "ql_handle (QL_MaxQueriesClick 20) s1 = Inr s2" "ql_reachable s2"
    using ql_handle_reachable [OF s1(2), of "QL_MaxQueriesClick 20"] by auto
  then have all2: "ql_allQueries s2 = many_queries" "ql_maxQueries s2 = 20" "ql_stateFilters s2 = [FT_RUNNING, FT_QUEUED]"
    "ql_searchString s2 = []" using all by (auto simp: ql_handleMaxQueriesClick_def)
  obtain s3 where s3: "ql_handle (QL_StateFilterClick FT_FINISHED) s2 = Inr s3"
    "mset (ql_displayedQueries s3) = mset (filter (query_visible (ql_stateFilters s3) (ql_errorTypeFilters s3)
         (ql_searchString s3)) (ql_allQueries s3))"
    using state_filter_click_unlimited [OF s2(2), of FT_FINISHED] by blast
  from s3(1) have "ql_allQueries s3 = many_queries" "ql_stateFilters s3 = [FT_RUNNING, FT_QUEUED, FT_FINISHED]"
    "ql_searchString s3 = []" using all2 by (auto simp: ql_handleStateFilterClick_def toggle_filter_def Let_def)
  then have "filter (query_visible (ql_stateFilters s3) (ql_errorTypeFilters s3) (ql_searchString s3)) (ql_allQueries s3) = many_queries"
    by (simp add: many_queries_def query_visible_def state_filter_matches_def example_defs filter_id_conv)
  then have "mset (ql_displayedQueries s3) = mset many_queries" using s3(2) by simp
  then have "length (ql_displayedQueries s3) = length many_queries" by (rule mset_eq_length)
  then have "length (ql_displayedQueries s3) = 21" by (simp add: many_queries_def)
  then show ?thesis using s2(2) all2(2) s3(1) by blast
qed



text \<open>
  Sorting by creation time in descending order puts a query before another unless it was created
  earlier, reading the two timestamps year first and millisecond last.
\<close>

theorem newest_first:
  assumes c: "qs_createTime (q_queryStats a) = ca" "qs_createTime (q_queryStats b) = cb"
    and v: "iso_shape ca" "valid_iso (iso_read ca)" "iso_shape cb" "valid_iso (iso_read cb)"
  shows "cmp_le (query_cmp ST_CREATED DESCENDING) a b \<longleftrightarrow> \<not> iso_less (iso_read ca) (iso_read cb)"
proof -
  have "Date_parse ca \<noteq> NaN" "Date_parse cb \<noteq> NaN" using v by (simp_all add: Date_parse_def)
  then have k: "sort_key (query_key ST_CREATED a)" "sort_key (query_key ST_CREATED b)"
    using is_num_Date_parse by (simp_all add: query_key_def to_number_def sort_key_def c)
  have "num_le (Date_parse cb) (Date_parse ca) \<longleftrightarrow> \<not> js_lt (Date_parse ca) (Date_parse cb)"
    using v by (auto simp: Date_parse_def)
  also have "\<dots> \<longleftrightarrow> \<not> iso_less (iso_read ca) (iso_read cb)" using Date_parse_less v by simp
  finally show ?thesis
    using key_diff_desc_le [of "query_key ST_CREATED" a b] k by (simp add: query_cmp_key query_key_def to_number_def c)
qed

definition q_leap :: query where
  "q_leap = example_query\<lparr>q_queryStats := example_stats\<lparr>qs_createTime := ''2020-02-29T23:59:59.999Z''\<rparr>\<rparr>"

definition q_march :: query where
  "q_march = example_query\<lparr>q_queryStats := example_stats\<lparr>qs_createTime := ''2020-03-01T00:00:00.000Z''\<rparr>\<rparr>"

theorem newest_first_witness:
  "cmp_le (query_cmp ST_CREATED DESCENDING) q_march q_leap \<and> \<not> cmp_le (query_cmp ST_CREATED DESCENDING) q_leap q_march"
proof -
  let ?s = "''2020-02-29T23:59:59.999Z''" and ?t = "''2020-03-01T00:00:00.000Z''"
  have c: "qs_createTime (q_queryStats q_leap) = ?s" "qs_createTime (q_queryStats q_march) = ?t"
    by (simp_all add: q_leap_def q_march_def)
  have r: "iso_read ?s = \<lparr>iso_year = 2020, iso_month = 2, iso_day = 29, iso_hour = 23, iso_minute = 59,
      iso_second = 59, iso_milli = 999\<rparr>"
    "iso_read ?t = \<lparr>iso_year = 2020, iso_month = 3, iso_day = 1, iso_hour = 0, iso_minute = 0,
      iso_second = 0, iso_milli = 0\<rparr>"
    by (simp_all add: iso_eval)
  have v: "iso_shape ?s" "valid_iso (iso_read ?s)" "iso_shape ?t" "valid_iso (iso_read ?t)"
    unfolding r by (simp_all add: iso_eval)
  have "iso_less (iso_read ?s) (iso_read ?t)" "\<not> iso_less (iso_read ?t) (iso_read ?s)"
    unfolding r by (simp_all add: iso_less_def)
  then show ?thesis
    using newest_first [OF c(2,1)] newest_first [OF c] v by simp
qed

end
