(* ===== verification/Identifiers.thy ===== *)
theory Identifiers
  imports JsDecimal
begin

text \<open>
  The part \<open>Utility functions\<close> of \<open>webapp/src/utils.js\<close> that takes strings apart: identifiers of
  stages and tasks, the query string of a page, host names, node types, and the short notation of
  dates.  The server writes a stage as \<open>query.stage\<close> and a task as \<open>query.stage.attempt.task\<close>
  (\<open>StageId.toString\<close> and \<open>TaskId.toString\<close>).
\<close>

section \<open>The functions\<close>

definition truncateString :: "string \<Rightarrow> int \<Rightarrow> string" where
  "truncateString inputString len =
     (if inputString \<noteq> [] \<and> int (length inputString) > len
      then js_substring inputString 0 len @ ''...''
      else inputString)"

definition getStageNumber :: "string \<Rightarrow> jsnum" where
  "getStageNumber stageId =
     parseInt (js_slice stageId (indexOf stageId ''.'' + 1) (int (length stageId)))"

definition getTaskIdSuffix :: "string \<Rightarrow> string" where
  "getTaskIdSuffix taskId = js_slice taskId (indexOf taskId ''.'' + 1) (int (length taskId))"

definition getTaskNumber :: "string \<Rightarrow> jsnum" where
  "getTaskNumber taskId = parseInt (getTaskIdSuffix (getTaskIdSuffix taskId))"

definition getFirstParameter :: "string \<Rightarrow> string" where
  "getFirstParameter searchString =
     (let searchText = js_substring_from searchString 1 in
      if indexOf searchText ''&'' \<noteq> -1 then js_substring searchText 0 (indexOf searchText ''&'')
      else searchText)"

text \<open>
  The constructor \<open>URL\<close> of the browser is a parameter: it raises a \<open>TypeError\<close> or returns an
  object of which the code reads \<open>hostname\<close> and \<open>port\<close>.
\<close>

record url_parts =
  hostname :: string
  port :: string

definition getHostname :: "(string \<Rightarrow> exn + url_parts) \<Rightarrow> string \<Rightarrow> exn + string" where
  "getHostname URL url =
     res_map (\<lambda>u. let h = hostname u in
        if js_charAt h 0 = ''['' \<and> js_charAt h (int (length h) - 1) = '']''
        then js_substr h 1 (int (length h) - 2) else h) (URL url)"

definition getPort :: "(string \<Rightarrow> exn + url_parts) \<Rightarrow> string \<Rightarrow> exn + string" where
  "getPort URL url = res_map port (URL url)"

definition getHostAndPort :: "(string \<Rightarrow> exn + url_parts) \<Rightarrow> string \<Rightarrow> exn + string" where
  "getHostAndPort URL urlStr = res_map (\<lambda>u. hostname u @ '':'' @ port u) (URL urlStr)"

definition removeNodeTypePackage :: "string \<Rightarrow> string" where
  "removeNodeTypePackage nodeType =
     (let classEndIndex = lastIndexOf nodeType (CHR ''.'') in js_substr_from nodeType (classEndIndex + 1))"

text \<open>The fields of a \<open>Date\<close> in local time; months are numbered from 0.\<close>

record js_date =
  getFullYear :: nat
  getMonth :: nat
  getDate :: nat
  getHours :: nat
  getMinutes :: nat

definition formatShortTime :: "js_date \<Rightarrow> string" where
  "formatShortTime date =
     (let hours = (if getHours date mod 12 = 0 then 12 else getHours date mod 12);
          minutes = (if getMinutes date < 10 then ''0'' else []) @ nat_str (getMinutes date)
      in nat_str hours @ '':'' @ minutes @ (if getHours date \<ge> 12 then ''pm'' else ''am''))"

definition formatShortDateTime :: "js_date \<Rightarrow> string" where
  "formatShortDateTime date =
     (let year = getFullYear date;
          month = nat_str (getMonth date + 1);
          dayOfMonth = nat_str (getDate date)
      in nat_str year @ ''-'' @ (if 1 < length month then month else ''0'' @ take 1 month)
         @ ''-'' @ (if 1 < length dayOfMonth then dayOfMonth else ''0'' @ take 1 dayOfMonth)
         @ '' '' @ formatShortTime date)"

section \<open>Identifiers\<close>

text \<open>Dotted identifiers: the text after the first dot, or everything when there is none.\<close>

lemma getTaskIdSuffix_dot:
  assumes "CHR ''.'' \<notin> set q"
  shows "getTaskIdSuffix (q @ CHR ''.'' # rest) = rest"
  using indexOf_char [OF assms, of rest] js_slice_drop [of "q @ CHR ''.'' # rest" "Suc (length q)"]
  by (simp add: getTaskIdSuffix_def add.commute)

lemma getTaskIdSuffix_no_dot:
  assumes "CHR ''.'' \<notin> set q"
  shows "getTaskIdSuffix q = q"
  using assms indexOf_char_absent [of q "CHR ''.''"] js_slice_drop [of q 0] by (simp add: getTaskIdSuffix_def)

lemma getStageNumber_suffix: "getStageNumber s = parseInt (getTaskIdSuffix s)"
  by (simp add: getStageNumber_def getTaskIdSuffix_def)

definition dotted :: "string \<Rightarrow> nat list \<Rightarrow> string" where
  "dotted q ns = concat (q # map (\<lambda>n. CHR ''.'' # nat_str n) ns)"

text \<open>
  C36: on the identifiers the server writes, \<open>getStageNumber\<close> and \<open>getTaskIdSuffix\<close> return the number
  of a stage and the identifier of a task within its query; \<open>getTaskNumber\<close> returns the number of the stage's execution
  attempt, the third of the four parts, and not the number of the task.
\<close>

theorem stage_and_task_identifiers:
  assumes "CHR ''.'' \<notin> set q" and "stage \<le> 2 ^ 53" and "attempt \<le> 2 ^ 53"
  shows "getStageNumber (dotted q [stage]) = js_nat stage
    \<and> getTaskIdSuffix (dotted q [stage, attempt, task])
        = nat_str stage @ ''.'' @ nat_str attempt @ ''.'' @ nat_str task
    \<and> getTaskNumber (dotted q [stage, attempt, task]) = js_nat attempt"
proof (intro conjI)
  have nd: "CHR ''.'' \<notin> set (nat_str stage)" by (rule nat_str_no_char) simp
  show "getStageNumber (dotted q [stage]) = js_nat stage"
    using getTaskIdSuffix_dot [OF assms(1), of "nat_str stage"] parseInt_nat [OF assms(2)]
    by (simp add: getStageNumber_suffix dotted_def)
  show s: "getTaskIdSuffix (dotted q [stage, attempt, task])
           = nat_str stage @ ''.'' @ nat_str attempt @ ''.'' @ nat_str task"
    using getTaskIdSuffix_dot [OF assms(1), of "nat_str stage @ ''.'' @ nat_str attempt @ ''.'' @ nat_str task"]
    by (simp add: dotted_def)
  have "parseInt_int (nat_str attempt @ CHR ''.'' # nat_str task) = Some (int attempt)"
    using parseInt_leading_digits [of "nat_str attempt" "CHR ''.''"] nat_str_digits by simp
  then have "parseInt (nat_str attempt @ CHR ''.'' # nat_str task) = js_nat attempt"
    using fl_int [of "int attempt"] assms(3) by (simp add: parseInt_def js_nat_def)
  then show "getTaskNumber (dotted q [stage, attempt, task]) = js_nat attempt"
    using s getTaskIdSuffix_dot [OF nd] by (simp add: getTaskNumber_def)
qed

theorem stage_and_task_identifiers_witness:
  "dotted ''query'' [3, 0, 7] = ''query.3.0.7'' \<and> getTaskNumber (dotted ''query'' [3, 0, 7]) = Fin 0"
proof
  show "dotted ''query'' [3, 0, 7] = ''query.3.0.7''" by code_simp
  show "getTaskNumber (dotted ''query'' [3, 0, 7]) = Fin 0"
    using stage_and_task_identifiers [of "''query''" 3 0 7] by (simp add: js_nat_def)
qed

text \<open>
  The first parameter of a page's query string is the text between its first character (the
  question mark) and the first ampersand, or the end.
\<close>

theorem first_parameter: "getFirstParameter (c # s) = takeWhile (\<lambda>x. x \<noteq> CHR ''&'') s"
proof (cases "CHR ''&'' \<in> set s")
  case True
  then obtain a b where s: "s = a @ CHR ''&'' # b" and a: "CHR ''&'' \<notin> set a" by (meson split_list_first)
  have "js_substring_from (c # s) 1 = s" using js_substring_from_drop [of "c # s" 1] by simp
  moreover have "js_substring s 0 (int (length a)) = a"
    using js_substring_prefix [of "length a" s] s by simp
  moreover have "takeWhile (\<lambda>x. x \<noteq> CHR ''&'') s = a"
    using a unfolding s by (subst takeWhile_append2) auto
  ultimately show ?thesis using indexOf_char [OF a, of b] s by (simp add: getFirstParameter_def)
next
  case False
  have "js_substring_from (c # s) 1 = s" using js_substring_from_drop [of "c # s" 1] by simp
  moreover have "takeWhile (\<lambda>x. x \<noteq> CHR ''&'') s = s" using False by (auto simp: takeWhile_eq_all_conv)
  ultimately show ?thesis
    using False indexOf_char_absent [of s "CHR ''&''"]
    by (simp add: getFirstParameter_def del: takeWhile_eq_all_conv)
qed

lemma removeNodeTypePackage_dot:
  "CHR ''.'' \<notin> set name \<Longrightarrow> removeNodeTypePackage (package @ CHR ''.'' # name) = name"
  using lastIndexOf_char [of "CHR ''.''" name package]
    js_substr_from_drop [of "Suc (length package)" "package @ CHR ''.'' # name"]
  by (simp add: removeNodeTypePackage_def add.commute)

lemma removeNodeTypePackage_plain: "CHR ''.'' \<notin> set name \<Longrightarrow> removeNodeTypePackage name = name"
  using lastIndexOf_absent [of "CHR ''.''" name] js_substr_from_drop [of 0 name]
  by (simp add: removeNodeTypePackage_def)

text \<open>The short name of a node type is the last of the parts its dots separate.\<close>

theorem short_node_type: "removeNodeTypePackage s = last (js_split (CHR ''.'') s)"
proof (cases "CHR ''.'' \<in> set s")
  case True
  then obtain a b where s: "s = a @ CHR ''.'' # b" and b: "CHR ''.'' \<notin> set b" by (meson split_list_last)
  have "\<exists>w ws. js_split (CHR ''.'') (a @ CHR ''.'' # b) = w # ws @ js_split (CHR ''.'') b" for a
    by (induction a) (auto split: list.split)
  then have "last (js_split (CHR ''.'') (a @ CHR ''.'' # b)) = last (js_split (CHR ''.'') b)"
    by (metis append_is_Nil_conv js_split_nonempty last.simps last_append)
  then show ?thesis using removeNodeTypePackage_dot [OF b] js_split_no_sep [OF b] s by simp
next
  case False
  then show ?thesis using removeNodeTypePackage_plain js_split_no_sep by simp
qed

section \<open>Host names\<close>

text \<open>
  The displayed host name is the one of the address, without the brackets an IPv6 address
  carries in it, and an address that the browser rejects raises in all three functions.
\<close>

theorem host_names:
  assumes "case URL url of Inl e \<Rightarrow> True | Inr u \<Rightarrow> hostname u = h \<or> hostname u = ''['' @ h @ '']''"
    and "hd (h @ '' '') \<noteq> CHR ''[''"
  shows "case URL url of
           Inl e \<Rightarrow> getHostname URL url = Inl e \<and> getPort URL url = Inl e \<and> getHostAndPort URL url = Inl e
         | Inr u \<Rightarrow> getHostname URL url = Inr h \<and> getHostAndPort URL url = Inr (hostname u @ '':'' @ port u)"
proof (cases "URL url")
  case (Inr u)
  have strip: "js_substr (CHR ''['' # h @ '']'') 1 (int (length h)) = h"
    by (simp add: js_substr_def)
  have plain: "js_charAt h 0 \<noteq> ''[''" using assms(2) by (cases h) (auto simp: js_charAt_def)
  have last: "js_charAt (CHR ''['' # h @ '']'') (int (length h) + 1) = '']''" "js_charAt (CHR ''['' # h @ '']'') 0 = ''[''"
    by (simp_all add: js_charAt_def nth_append nat_add_distrib)
  show ?thesis
    using assms(1) strip plain last Inr
    by (auto simp: getHostname_def getHostAndPort_def add.commute)
qed (simp add: getHostname_def getPort_def getHostAndPort_def)

theorem host_names_witness:
  "getHostname (\<lambda>s. Inr \<lparr>hostname = ''[::1]'', port = ''8080''\<rparr>) ''http://[::1]:8080/v1/task/t'' = Inr ''::1''"
  using host_names [where URL = "\<lambda>s. Inr \<lparr>hostname = ''[::1]'', port = ''8080''\<rparr>"
      and url = "''http://[::1]:8080/v1/task/t''" and h = "''::1''"]
  by simp

section \<open>Dates\<close>

definition valid_date :: "js_date \<Rightarrow> bool" where
  "valid_date d \<longleftrightarrow> 1000 \<le> getFullYear d \<and> getFullYear d < 10000 \<and> getMonth d < 12
     \<and> 1 \<le> getDate d \<and> getDate d \<le> 31 \<and> getHours d < 24 \<and> getMinutes d < 60"

definition pad2 :: "nat \<Rightarrow> string" where
  "pad2 n = (if n < 10 then ''0'' else []) @ nat_str n"

lemma digits_val_pad2 [simp]: "digits_val (pad2 n) = n"
  using digits_val_zeros [of 1 "nat_str n"] by (simp add: pad2_def)

lemma pad2_inject: "pad2 m = pad2 n \<longleftrightarrow> m = n"
  by (metis digits_val_pad2)

lemma length_pad2: "n < 100 \<Longrightarrow> length (pad2 n) = 2"
  by (simp add: pad2_def nat_str_one_digit nat_str_two_digits)

lemma two_digits_pad2:
  "n < 100 \<Longrightarrow> (if 1 < length (nat_str n) then nat_str n else ''0'' @ take 1 (nat_str n)) = pad2 n"
  by (cases "n < 10") (simp_all add: pad2_def nat_str_one_digit nat_str_two_digits)

lemma colon_not_digit: "\<not> is_digit (CHR '':'')" "\<not> is_digit (CHR ''-'')"
  by (simp_all add: is_digit_def code_unit_def)

lemma split_at_char:
  assumes "c \<notin> set a" and "c \<notin> set a'"
  shows "a @ c # b = a' @ c # b' \<longleftrightarrow> a = a' \<and> b = b'"
proof
  assume e: "a @ c # b = a' @ c # b'"
  have "takeWhile (\<lambda>x. x \<noteq> c) (a @ c # b) = a" "takeWhile (\<lambda>x. x \<noteq> c) (a' @ c # b') = a'"
    using assms by (subst takeWhile_append2, auto)+
  then have "a = a'" using e by simp
  then show "a = a' \<and> b = b'" using e by simp
qed simp

lemma formatShortTime_inject:
  assumes "getHours d < 24" "getHours e < 24" "getMinutes d < 60" "getMinutes e < 60"
  shows "formatShortTime d = formatShortTime e \<longleftrightarrow> getHours d = getHours e \<and> getMinutes d = getMinutes e"
proof
  define h where "h x = (if getHours x mod 12 = 0 then 12 else getHours x mod 12)" for x :: js_date
  define a where "a x = (if getHours x \<ge> 12 then ''pm'' else ''am'')" for x :: js_date
  have s: "formatShortTime x = nat_str (h x) @ CHR '':'' # pad2 (getMinutes x) @ a x" for x
    by (simp add: formatShortTime_def h_def a_def pad2_def Let_def)
  assume "formatShortTime d = formatShortTime e"
  then have "nat_str (h d) = nat_str (h e)" and r: "pad2 (getMinutes d) @ a d = pad2 (getMinutes e) @ a e"
    unfolding s using nat_str_no_char [OF colon_not_digit(1)] by (simp_all add: split_at_char)
  then have h: "h d = h e" by simp
  have "pad2 (getMinutes d) = pad2 (getMinutes e)" and "a d = a e"
    using r assms(3,4) by (simp_all add: append_eq_append_conv length_pad2)
  then have "getMinutes d = getMinutes e" and "getHours d \<ge> 12 \<longleftrightarrow> getHours e \<ge> 12"
    by (auto simp: pad2_inject a_def split: if_splits)
  moreover from this h have "getHours d = getHours e"
    using assms(1,2) unfolding h_def by (auto simp: mod_if split: if_splits)
  ultimately show "getHours d = getHours e \<and> getMinutes d = getMinutes e" by simp
qed (simp add: formatShortTime_def)

text \<open>Two valid dates are displayed alike exactly when they agree to the minute.\<close>

theorem short_date_time_faithful:
  assumes "valid_date d" and "valid_date e"
  shows "formatShortDateTime d = formatShortDateTime e \<longleftrightarrow>
     getFullYear d = getFullYear e \<and> getMonth d = getMonth e \<and> getDate d = getDate e
     \<and> getHours d = getHours e \<and> getMinutes d = getMinutes e"
proof -
  have s: "formatShortDateTime x = nat_str (getFullYear x) @ CHR ''-'' # (pad2 (getMonth x + 1) @ CHR ''-'' #
      (pad2 (getDate x) @ CHR '' '' # formatShortTime x))" if "valid_date x" for x
  proof -
    have "getMonth x + 1 < 100" "getDate x < 100" using that by (auto simp: valid_date_def)
    then show ?thesis unfolding formatShortDateTime_def Let_def by (simp only: two_digits_pad2) simp
  qed
  have l: "length (pad2 (getMonth x + 1)) = 2" "length (pad2 (getDate x)) = 2" if "valid_date x" for x
    using that by (simp_all add: length_pad2 valid_date_def)
  have t: "formatShortTime d = formatShortTime e \<longleftrightarrow> getHours d = getHours e \<and> getMinutes d = getMinutes e"
    using assms by (intro formatShortTime_inject) (simp_all add: valid_date_def)
  show ?thesis
    unfolding s [OF assms(1)] s [OF assms(2)]
    using l [OF assms(1)] l [OF assms(2)] nat_str_no_char [OF colon_not_digit(2)]
    by (auto simp: split_at_char append_eq_append_conv pad2_inject t)
qed

definition example_date :: js_date where
  "example_date = \<lparr>getFullYear = 2020, getMonth = 1, getDate = 9, getHours = 15, getMinutes = 4\<rparr>"

theorem short_date_time_faithful_witness:
  "formatShortDateTime example_date = ''2020-02-09 3:04pm''
   \<and> formatShortDateTime (example_date\<lparr>getHours := 3\<rparr>) \<noteq> formatShortDateTime example_date"
proof
  show "formatShortDateTime example_date = ''2020-02-09 3:04pm''" by code_simp
  show "formatShortDateTime (example_date\<lparr>getHours := 3\<rparr>) \<noteq> formatShortDateTime example_date"
    using short_date_time_faithful [of "example_date\<lparr>getHours := 3\<rparr>" example_date]
    by (simp add: valid_date_def example_date_def)
qed

end
