(* ===== verification/Vdom.thy ===== *)
theory Vdom
  imports JsNumber
begin

text \<open>
  React elements as the render methods build them: host elements with attributes and children, text,
  keyed components and nothing (\<open>null\<close> or \<open>undefined\<close>).  A type parameter stands for the events that
  the handlers attached to an element dispatch, so that what a click does is visible in the tree.
\<close>

datatype 'e attr =
    AStr string string
  | ANum string jsnum
  | AStyle "(string \<times> string) list"
  | AOn string 'e

datatype 'e vnode =
    Text string
  | El string "'e attr list" "'e vnode list"
  | Keyed string "'e vnode"
  | Nothing

abbreviation cls :: "string \<Rightarrow> 'e attr" where
  "cls c \<equiv> AStr ''className'' c"

abbreviation divC :: "string \<Rightarrow> 'e vnode list \<Rightarrow> 'e vnode" where
  "divC c kids \<equiv> El ''div'' [cls c] kids"

abbreviation spanC :: "string \<Rightarrow> 'e vnode list \<Rightarrow> 'e vnode" where
  "spanC c kids \<equiv> El ''span'' [cls c] kids"

text \<open>A number or the result of an expression as a child.\<close>

abbreviation num_child :: "jsnum \<Rightarrow> 'e vnode" where
  "num_child n \<equiv> Text (num_str n)"

definition nbsp :: string where
  "nbsp = [CHR 0xA0]"

definition opt_child :: "string option \<Rightarrow> 'e vnode" where
  "opt_child s = (case s of None \<Rightarrow> Nothing | Some t \<Rightarrow> Text t)"

section \<open>Reading a tree\<close>

fun text_of :: "'e vnode \<Rightarrow> string" where
  "text_of (Text s) = s"
| "text_of (El t as kids) = concat (map text_of kids)"
| "text_of (Keyed k v) = text_of v"
| "text_of Nothing = []"

fun attr_handlers :: "'e attr list \<Rightarrow> 'e list" where
  "attr_handlers [] = []"
| "attr_handlers (AOn n e # as) = e # attr_handlers as"
| "attr_handlers (a # as) = attr_handlers as"

text \<open>The events the handlers of a tree dispatch, from left to right.\<close>

fun handlers :: "'e vnode \<Rightarrow> 'e list" where
  "handlers (Text s) = []"
| "handlers (El t as kids) = attr_handlers as @ concat (map handlers kids)"
| "handlers (Keyed k v) = handlers v"
| "handlers Nothing = []"

lemma attr_handlers_map: "attr_handlers (map (map_attr f) as) = map f (attr_handlers as)"
  by (induction as rule: attr_handlers.induct) auto

lemma handlers_map_vnode [simp]: "handlers (map_vnode f v) = map f (handlers v)"
  by (induction v rule: handlers.induct) (auto simp: attr_handlers_map map_concat o_def intro!: arg_cong [of _ _ concat])

lemma attr_handlers_append [simp]: "attr_handlers (as @ bs) = attr_handlers as @ attr_handlers bs"
  by (induction as rule: attr_handlers.induct) auto

lemma handlers_none: "(\<And>k. k \<in> set kids \<Longrightarrow> handlers k = []) \<Longrightarrow> concat (map handlers kids) = []"
  by auto

text \<open>The keys of the components directly below an element.\<close>

fun child_keys :: "'e vnode list \<Rightarrow> string list" where
  "child_keys [] = []"
| "child_keys (Keyed k v # kids) = k # child_keys kids"
| "child_keys (v # kids) = child_keys kids"

lemma child_keys_Keyed: "child_keys (map (\<lambda>x. Keyed (f x) (g x)) xs) = map f xs"
  by (induction xs) auto

text \<open>React renders and reconciles a list of siblings reliably only if their keys differ.\<close>

fun keys_ok :: "'e vnode \<Rightarrow> bool" where
  "keys_ok (El t as kids) \<longleftrightarrow> distinct (child_keys kids) \<and> list_all keys_ok kids"
| "keys_ok (Keyed k v) \<longleftrightarrow> keys_ok v"
| "keys_ok v \<longleftrightarrow> True"

end
