(* ===== verification/QueryListView.thy ===== *)
theory QueryListView
  imports QueryListSteps Identifiers Vdom
begin

text \<open>
  The rendering of \<open>webapp/src/components/QueryList.jsx\<close>: the text of a query without its common
  indentation, the item of a query, the toolbar and the page.  The handlers in the tree dispatch the events of the
  transition system of \<open>QueryListSteps\<close>.  The local time of a moment is a parameter, since it
  depends on the time zone of the browser.
\<close>

section \<open>Query text\<close>

fun min_leading_whitespace :: "string list \<Rightarrow> int \<Rightarrow> int" where
  "min_leading_whitespace [] m = m"
| "min_leading_whitespace (line # lines) m =
     (if m = 0 then m
      else if length (js_trim line) = 0 then min_leading_whitespace lines m
      else (let leadingWhitespace = search_non_ws line in
            min_leading_whitespace lines
              (if leadingWhitespace > -1 \<and> (leadingWhitespace < m \<or> m = -1) then leadingWhitespace else m)))"

fun format_lines :: "int \<Rightarrow> string list \<Rightarrow> string" where
  "format_lines m [] = []"
| "format_lines m (line # lines) =
     (let trimmedLine = rtrim (js_substring_from line m) in
      (if length trimmedLine > 0 then trimmedLine @ (if lines \<noteq> [] then [CHR 0x0A] else []) else [])
      @ format_lines m lines)"

definition stripQueryTextWhitespace :: "string \<Rightarrow> string" where
  "stripQueryTextWhitespace queryText =
     (let lines = js_split (CHR 0x0A) queryText in
      truncateString (format_lines (min_leading_whitespace lines (-1)) lines) 300)"

section \<open>The item of a query\<close>

definition GLYPHICON_DEFAULT :: "'e attr" where
  "GLYPHICON_DEFAULT = AStyle [(''color'', ''#1edcff'')]"

definition GLYPHICON_HIGHLIGHT :: "'e attr" where
  "GLYPHICON_HIGHLIGHT = AStyle [(''color'', ''#999999'')]"

definition tooltip :: "string \<Rightarrow> string \<Rightarrow> 'e attr list" where
  "tooltip placement title =
     [AStr ''data-toggle'' ''tooltip'', AStr ''data-placement'' placement, AStr ''title'' title]"

definition glyph :: "string \<Rightarrow> 'e attr \<Rightarrow> 'e vnode" where
  "glyph name st = El ''span'' [cls (''glyphicon glyphicon-'' @ name), st] []"

definition tinystat :: "string \<Rightarrow> string \<Rightarrow> string \<Rightarrow> 'e vnode" where
  "tinystat title name value =
     El ''span'' (cls ''tinystat'' # tooltip ''top'' title)
       [glyph name GLYPHICON_HIGHLIGHT, Text (nbsp @ nbsp), Text value]"

definition renderWarning :: "query \<Rightarrow> 'e vnode" where
  "renderWarning query =
     (if q_warnings query \<noteq> [] then
        El ''span'' [cls ''glyphicon glyphicon-warning-sign query-warning'', AStr ''data-toggle'' ''tooltip'',
          AStr ''title'' (js_join '', '' (map w_codeName (q_warnings query)))] []
      else Nothing)"

definition query_done :: "query \<Rightarrow> bool" where
  "query_done query \<longleftrightarrow> q_state query = ''FINISHED'' \<or> q_state query = ''FAILED''"

definition splitDetails :: "query \<Rightarrow> 'e vnode" where
  "splitDetails query = (let stats = q_queryStats query in
     divC ''col-xs-12 tinystat-row''
       [tinystat ''Completed splits'' ''ok'' (num_str (qs_completedDrivers stats)),
        tinystat ''Running splits'' ''play'' (if query_done query then ''0'' else num_str (qs_runningDrivers stats)),
        tinystat ''Queued splits'' ''pause'' (if query_done query then ''0'' else num_str (qs_queuedDrivers stats))])"

definition timingDetails :: "query \<Rightarrow> 'e vnode" where
  "timingDetails query = (let stats = q_queryStats query in
     divC ''col-xs-12 tinystat-row''
       [tinystat ''Wall time spent executing the query (not including queued time)'' ''hourglass'' (qs_executionTime stats),
        tinystat ''Total query wall time'' ''time'' (qs_elapsedTime stats),
        tinystat ''CPU time spent by this query'' ''dashboard'' (qs_totalCpuTime stats)])"

definition memoryDetails :: "query \<Rightarrow> 'e vnode" where
  "memoryDetails query = (let stats = q_queryStats query in
     divC ''col-xs-12 tinystat-row''
       [tinystat ''Current reserved memory'' ''scale'' (qs_userMemoryReservation stats),
        tinystat ''Peak memory'' ''fire'' (qs_peakUserMemoryReservation stats),
        tinystat ''Cumulative user memory'' ''equalizer''
          (formatDataSizeBytes (js_div (qs_cumulativeUserMemory stats) (Fin 1000)))])"

text \<open>A value that is falsy (missing or the empty string) is not an authenticated principal.\<close>

definition user_node :: "query \<Rightarrow> 'e vnode" where
  "user_node query =
     (case s_principal (q_session query) of
        Some p \<Rightarrow> if p \<noteq> [] then El ''span'' [] [Text (s_user (q_session query)), glyph ''lock-inverse'' GLYPHICON_DEFAULT]
                 else El ''span'' [] [Text (s_user (q_session query))]
      | None \<Rightarrow> El ''span'' [] [Text (s_user (q_session query))])"

text \<open>
  \<open>truncateString\<close> returns a React element, which has no \<open>length\<close>, and a missing value as they are.
\<close>

definition stat_row :: "string \<Rightarrow> string \<Rightarrow> 'e vnode \<Rightarrow> 'e vnode" where
  "stat_row title name child =
     divC ''row stat-row'' [divC ''col-xs-12''
       [El ''span'' (tooltip ''right'' title)
         [glyph name GLYPHICON_DEFAULT, Text (nbsp @ nbsp), El ''span'' [] [child]]]]"

definition item_left :: "(jsnum \<Rightarrow> js_date) \<Rightarrow> query \<Rightarrow> 'e vnode" where
  "item_left local_date query =
     divC ''col-xs-4''
       [divC ''row stat-row query-header query-header-queryid''
         [El ''div'' [cls ''col-xs-9'', AStr ''data-placement'' ''bottom'']
           [El ''a'' [AStr ''href'' (''query.html?'' @ q_queryId query), AStr ''target'' ''_blank'',
               AStr ''data-toggle'' ''tooltip'', AStr ''title'' ''Query ID''] [Text (q_queryId query)],
            renderWarning query],
          El ''div'' (cls ''col-xs-3 query-header-timestamp'' # tooltip ''bottom'' ''Submit time'')
           [El ''span'' [] [Text (formatShortTime (local_date (Date_parse (qs_createTime (q_queryStats query)))))]]],
        stat_row ''User'' ''user'' (user_node query),
        stat_row ''Source'' ''log-in'' (opt_child (map_option (\<lambda>s. truncateString s 35) (s_source (q_session query)))),
        stat_row ''Resource Group'' ''road''
          (Text (truncateString (case q_resourceGroupId query of Some g \<Rightarrow> js_join ''.'' g | None \<Rightarrow> ''n/a'') 35)),
        divC ''row stat-row'' [splitDetails query],
        divC ''row stat-row'' [timingDetails query],
        divC ''row stat-row'' [memoryDetails query]]"

definition item_right :: "string \<Rightarrow> string \<Rightarrow> query \<Rightarrow> 'e vnode" where
  "item_right color title query =
     divC ''col-xs-8''
       [divC ''row query-header''
         [divC ''col-xs-12 query-progress-container''
           [divC ''progress''
             [El ''div'' [cls ''progress-bar progress-bar-info'', AStr ''role'' ''progressbar'',
                 ANum ''aria-valuenow'' (getProgressBarPercentage query), AStr ''aria-valuemin'' ''0'',
                 AStr ''aria-valuemax'' ''100'',
                 AStyle [(''width'', num_str (getProgressBarPercentage query) @ ''%''), (''backgroundColor'', color)]]
               [Text title]]]],
        divC ''row query-row-bottom''
         [divC ''col-xs-12''
           [El ''pre'' [cls ''query-snippet''] [El ''code'' [cls ''sql''] [Text (stripQueryTextWhitespace (q_query query))]]]]]"

definition QueryListItem_render :: "(jsnum \<Rightarrow> js_date) \<Rightarrow> query \<Rightarrow> exn + 'e vnode" where
  "QueryListItem_render local_date query =
     res_bind (getQueryStateColor query) (\<lambda>color.
     res_map (\<lambda>title. divC ''query'' [divC ''row'' [item_left local_date query, item_right color title query]])
       (getProgressBarTitle query))"

definition DisplayedQueriesList_render :: "(jsnum \<Rightarrow> js_date) \<Rightarrow> query list \<Rightarrow> exn + 'e vnode" where
  "DisplayedQueriesList_render local_date queries =
     res_map (El ''div'' [])
       (res_mapM (\<lambda>query. res_map (Keyed (q_queryId query)) (QueryListItem_render local_date query)) queries)"

section \<open>The toolbar\<close>

definition menu_link :: "'e attr list \<Rightarrow> 'e \<Rightarrow> 'e vnode list \<Rightarrow> 'e vnode" where
  "menu_link as e kids = El ''li'' [] [El ''a'' (AStr ''href'' ''#'' # as @ [AOn ''onClick'' e]) kids]"

definition renderMaxQueriesListItem :: "ql_state \<Rightarrow> nat \<Rightarrow> string \<Rightarrow> ql_event vnode" where
  "renderMaxQueriesListItem s maxQueries maxQueriesText =
     menu_link [cls (if ql_maxQueries s = maxQueries then ''selected'' else [])] (QL_MaxQueriesClick maxQueries)
       [Text maxQueriesText]"

definition renderReorderListItem :: "ql_state \<Rightarrow> int \<Rightarrow> string \<Rightarrow> ql_event vnode" where
  "renderReorderListItem s interval intervalText =
     menu_link [cls (if ql_reorderInterval s = interval then ''selected'' else [])] (QL_ReorderClick interval)
       [Text intervalText]"

definition renderSortListItem :: "ql_state \<Rightarrow> sort_type \<Rightarrow> string \<Rightarrow> ql_event vnode" where
  "renderSortListItem s sortType sortText =
     (if ql_currentSortType s = sortType then
        (let directionArrow =
           (if ql_currentSortOrder s = ASCENDING then spanC ''glyphicon glyphicon-triangle-top'' []
            else spanC ''glyphicon glyphicon-triangle-bottom'' [])
         in menu_link [cls ''selected''] (QL_SortClick sortType) [Text sortText, Text '' '', directionArrow])
      else menu_link [] (QL_SortClick sortType) [Text sortText])"

definition renderFilterButton :: "ql_state \<Rightarrow> filter_type \<Rightarrow> string \<Rightarrow> ql_event vnode" where
  "renderFilterButton s filterType filterText =
     (let active = filterType \<in> set (ql_stateFilters s);
          classNames = ''btn btn-sm btn-info style-check'' @ (if active then '' active'' else []);
          checkmarkStyle = AStyle [(''color'', if active then ''#ffffff'' else ''#57aac7'')]
      in El ''button'' [AStr ''type'' ''button'', cls classNames, AOn ''onClick'' (QL_StateFilterClick filterType)]
           [glyph ''ok'' checkmarkStyle, Text nbsp, Text filterText])"

definition renderErrorTypeListItem :: "ql_state \<Rightarrow> error_type \<Rightarrow> string \<Rightarrow> ql_event vnode" where
  "renderErrorTypeListItem s errorType errorTypeText =
     (let checkmarkStyle = (if errorType \<in> set (ql_errorTypeFilters s) then GLYPHICON_HIGHLIGHT
                            else AStyle [(''color'', ''#ffffff'')])
      in menu_link [] (QL_ErrorTypeFilterClick errorType) [glyph ''ok'' checkmarkStyle, Text nbsp, Text errorTypeText])"

definition dropdown_button :: "'e attr list \<Rightarrow> string \<Rightarrow> 'e vnode" where
  "dropdown_button as label =
     El ''button'' (AStr ''type'' ''button'' # as @ [cls ''btn btn-default dropdown-toggle'', AStr ''data-toggle'' ''dropdown'',
         AStr ''aria-haspopup'' ''true'', AStr ''aria-expanded'' ''false''])
       [Text (label @ '' ''), spanC ''caret'' []]"

definition separator :: "'e vnode" where
  "separator = El ''li'' [AStr ''role'' ''separator'', cls ''divider''] []"

definition search_bar :: "ql_state \<Rightarrow> string \<Rightarrow> ql_event vnode" where
  "search_bar s typed =
     El ''input'' [AStr ''type'' ''text'', cls ''form-control form-control-small search-bar'',
       AStr ''placeholder'' ''User, source, query ID, resource group, or query text'',
       AOn ''onChange'' (QL_SearchChange typed), AStr ''value'' (ql_searchString s)] []"

definition filter_menu :: "ql_state \<Rightarrow> ql_event vnode" where
  "filter_menu s =
     divC ''input-group-btn''
       [renderFilterButton s FT_RUNNING ''Running'', renderFilterButton s FT_QUEUED ''Queued'',
        renderFilterButton s FT_FINISHED ''Finished'', dropdown_button [AStr ''id'' ''error-type-dropdown''] ''Failed'',
        El ''ul'' [cls ''dropdown-menu error-type-dropdown-menu'']
          [renderErrorTypeListItem s ET_INTERNAL_ERROR ''Internal Error'',
           renderErrorTypeListItem s ET_EXTERNAL ''External Error'',
           renderErrorTypeListItem s ET_INSUFFICIENT_RESOURCES ''Resources Error'',
           renderErrorTypeListItem s ET_USER_ERROR ''User Error'']]"

definition sort_menu :: "ql_state \<Rightarrow> ql_event vnode" where
  "sort_menu s =
     divC ''input-group-btn''
       [dropdown_button [] ''Sort'',
        El ''ul'' [cls ''dropdown-menu'']
          [renderSortListItem s ST_CREATED ''Creation Time'', renderSortListItem s ST_ELAPSED ''Elapsed Time'',
           renderSortListItem s ST_CPU ''CPU Time'', renderSortListItem s ST_EXECUTION ''Execution Time'',
           renderSortListItem s ST_CURRENT_MEMORY ''Current Memory'',
           renderSortListItem s ST_CUMULATIVE_MEMORY ''Cumulative User Memory'']]"

definition reorder_menu :: "ql_state \<Rightarrow> ql_event vnode" where
  "reorder_menu s =
     divC ''input-group-btn''
       [dropdown_button [] ''Reorder Interval'',
        El ''ul'' [cls ''dropdown-menu'']
          [renderReorderListItem s 1000 ''1s'', renderReorderListItem s 5000 ''5s'', renderReorderListItem s 10000 ''10s'',
           renderReorderListItem s 30000 ''30s'', separator, renderReorderListItem s 0 ''Off'']]"

definition show_menu :: "ql_state \<Rightarrow> ql_event vnode" where
  "show_menu s =
     divC ''input-group-btn''
       [dropdown_button [] ''Show'',
        El ''ul'' [cls ''dropdown-menu'']
          [renderMaxQueriesListItem s 20 ''20 queries'', renderMaxQueriesListItem s 50 ''50 queries'',
           renderMaxQueriesListItem s 100 ''100 queries'', separator, renderMaxQueriesListItem s 0 ''All queries'']]"

section \<open>The page\<close>

definition query_list_label :: "ql_state \<Rightarrow> 'e vnode" where
  "query_list_label s =
     (if ql_initialized s then
        (if length (ql_allQueries s) = 0 then Text ''No queries'' else Text ''No queries matched filters'')
      else divC ''loader'' [Text ''Loading...''])"

definition query_list_body :: "(jsnum \<Rightarrow> js_date) \<Rightarrow> ql_state \<Rightarrow> exn + ql_event vnode" where
  "query_list_body local_date s =
     (if length (ql_displayedQueries s) = 0
      then Inr (divC ''row error-message'' [divC ''col-xs-12'' [El ''h4'' [] [query_list_label s]]])
      else DisplayedQueriesList_render local_date (ql_displayedQueries s))"

text \<open>The search event carries what is typed next.\<close>

definition QueryList_render :: "(jsnum \<Rightarrow> js_date) \<Rightarrow> string \<Rightarrow> ql_state \<Rightarrow> exn + ql_event vnode" where
  "QueryList_render local_date typed s =
     res_map (\<lambda>queryList.
       El ''div'' []
         [divC ''row toolbar-row''
           [divC ''col-xs-12 toolbar-col''
             [divC ''input-group input-group-sm''
               [search_bar s typed, spanC ''input-group-addon filter-addon'' [Text ''State:''],
                filter_menu s, Text nbsp, sort_menu s, Text nbsp, reorder_menu s, Text nbsp, show_menu s]]],
          queryList])
       (query_list_body local_date s)"

section \<open>The text keeps its content\<close>

definition blank :: "string \<Rightarrow> bool" where
  "blank l \<longleftrightarrow> (\<forall>c \<in> set l. is_ws c)"

definition indent :: "string \<Rightarrow> nat" where
  "indent l = length (takeWhile is_ws l)"

lemma trim_blank: "length (js_trim l) = 0 \<longleftrightarrow> blank l"
  by (simp add: js_trim_Nil_iff blank_def)

lemma search_indent: "\<not> blank l \<Longrightarrow> search_non_ws l = int (indent l)"
  by (auto simp: search_non_ws_def blank_def indent_def)

text \<open>The first loop computes the smallest indentation of the lines that are not blank.\<close>

definition common_indent :: "string list \<Rightarrow> nat option \<Rightarrow> nat option" where
  "common_indent ls m = fold (\<lambda>l m. Some (case m of None \<Rightarrow> indent l | Some k \<Rightarrow> min (indent l) k))
     (filter (\<lambda>l. \<not> blank l) ls) m"

definition indent_code :: "nat option \<Rightarrow> int" where
  "indent_code m = (case m of None \<Rightarrow> -1 | Some k \<Rightarrow> int k)"

lemma common_indent_zero: "common_indent ls (Some 0) = Some 0"
  by (induction ls) (simp_all add: common_indent_def)

lemma min_leading_common: "min_leading_whitespace ls (indent_code m) = indent_code (common_indent ls m)"
proof (induction ls arbitrary: m)
  case Nil
  then show ?case by (simp add: common_indent_def)
next
  case (Cons l ls)
  show ?case
  proof (cases "m = Some 0")
    case True
    then show ?thesis by (simp add: common_indent_zero) (simp add: indent_code_def)
  next
    case False
    then have z: "indent_code m \<noteq> 0" by (auto simp: indent_code_def split: option.splits)
    show ?thesis
    proof (cases "blank l")
      case True
      then show ?thesis using Cons z trim_blank [of l] by (simp add: common_indent_def)
    next
      case nb: False
      have "(if int (indent l) < indent_code m \<or> indent_code m = -1 then int (indent l) else indent_code m)
          = indent_code (Some (case m of None \<Rightarrow> indent l | Some k \<Rightarrow> min (indent l) k))"
        by (auto simp: indent_code_def split: option.splits)
      then show ?thesis
        using nb z trim_blank [of l] search_indent [OF nb] Cons.IH by (simp add: common_indent_def)
    qed
  qed
qed

lemma common_indent_simps:
  "common_indent [] m = m"
  "common_indent (l # ls) m =
     (if blank l then common_indent ls m
      else common_indent ls (Some (case m of None \<Rightarrow> indent l | Some k \<Rightarrow> min (indent l) k)))"
  by (simp_all add: common_indent_def)

lemma common_indent_least:
  assumes "common_indent ls m = Some n"
  shows "(\<forall>l \<in> set ls. \<not> blank l \<longrightarrow> n \<le> indent l) \<and> (\<forall>k. m = Some k \<longrightarrow> n \<le> k)
       \<and> (m = Some n \<or> (\<exists>l \<in> set ls. \<not> blank l \<and> indent l = n))"
  using assms
proof (induction ls arbitrary: m)
  case (Cons l ls)
  show ?case
  proof (cases "blank l")
    case True
    then show ?thesis using Cons by (auto simp: common_indent_simps)
  next
    case False
    let ?m = "case m of None \<Rightarrow> indent l | Some k \<Rightarrow> min (indent l) k"
    have "common_indent ls (Some ?m) = Some n" using Cons.prems False by (simp add: common_indent_simps)
    from Cons.IH [OF this] show ?thesis using False by (cases m) (auto simp: min_def split: if_splits)
  qed
qed (simp add: common_indent_simps)

lemma common_indent_None: "common_indent ls m = None \<longleftrightarrow> m = None \<and> (\<forall>l \<in> set ls. blank l)"
  by (induction ls arbitrary: m) (auto simp: common_indent_simps)

text \<open>What the second loop writes for a line.\<close>

definition shifted :: "int \<Rightarrow> string \<Rightarrow> string" where
  "shifted m l = rtrim (js_substring_from l m)"

definition solid :: "string \<Rightarrow> string" where
  "solid s = filter (\<lambda>c. \<not> is_ws c) s"

lemma solid_append [simp]: "solid (a @ b) = solid a @ solid b"
  by (simp add: solid_def)

lemma solid_Nil [simp]: "solid [] = []"
  by (simp add: solid_def)

lemma solid_blank: "blank l \<Longrightarrow> solid l = []"
  by (simp add: solid_def blank_def filter_empty_conv)

lemma solid_rtrim [simp]: "solid (rtrim s) = solid s"
proof -
  have "rev s = takeWhile is_ws (rev s) @ dropWhile is_ws (rev s)" by simp
  then have "s = rtrim s @ rev (takeWhile is_ws (rev s))" unfolding rtrim_def by (metis rev_append rev_rev_ident)
  moreover have "solid (rev (takeWhile is_ws (rev s))) = []"
    by (intro solid_blank) (auto simp: blank_def dest: set_takeWhileD)
  ultimately show ?thesis by (metis append_Nil2 solid_append)
qed

lemma drop_indent:
  assumes "n \<le> indent l"
  shows "blank (take n l)"
proof -
  have "take n l = take n (takeWhile is_ws l)"
    using assms by (metis append_take_drop_id indent_def take_append diff_is_0_eq take0 append_Nil2 takeWhile_dropWhile_id)
  then show ?thesis by (auto simp: blank_def dest!: in_set_takeD set_takeWhileD)
qed

lemma solid_shifted:
  assumes "blank l \<or> m \<le> int (indent l)"
  shows "solid (shifted m l) = solid l"
proof -
  have d: "js_substring_from l m = drop (nat m) l"
    using js_substring_from_drop [of l "nat m"] js_substring_from_neg [of m l] by (cases "0 \<le> m") simp_all
  have "solid (take (nat m) l) = []"
    using assms drop_indent [of "nat m" l] by (auto intro!: solid_blank) (auto simp: blank_def dest: in_set_takeD)
  then have "solid (drop (nat m) l) = solid l" by (metis append_Nil append_take_drop_id solid_append)
  then show ?thesis by (simp add: shifted_def d)
qed

lemma newline_ws: "is_ws (CHR 0x0A)"
  by (simp add: is_ws_def code_unit_def)

lemma solid_join: "solid (js_join [CHR 0x0A] ws) = concat (map solid ws)"
  by (induction "[CHR 0x0A]" ws rule: js_join.induct) (simp_all add: solid_def newline_ws)

lemma solid_lines: "concat (map solid (js_split (CHR 0x0A) q)) = solid q"
  using solid_join [of "js_split (CHR 0x0A) q"] by (simp add: js_join_split)

definition shift_ok :: "int \<Rightarrow> string list \<Rightarrow> bool" where
  "shift_ok m ls \<longleftrightarrow> (\<forall>l \<in> set ls. CHR 0x0A \<notin> set l \<and> (blank l \<or> m \<le> int (indent l)))"

lemma solid_Nil_iff: "solid s = [] \<longleftrightarrow> blank s"
  by (simp add: solid_def blank_def filter_empty_conv)

lemma shifted_Nil_iff:
  assumes "blank l \<or> m \<le> int (indent l)"
  shows "shifted m l = [] \<longleftrightarrow> blank l"
proof -
  have "blank l \<longleftrightarrow> blank (shifted m l)" using solid_shifted [OF assms] by (metis solid_Nil_iff)
  moreover have "blank (shifted m l) \<Longrightarrow> shifted m l = []"
    using rtrim_last [of "js_substring_from l m"] by (auto simp: shifted_def blank_def dest: last_in_set)
  ultimately show ?thesis by (auto simp: blank_def)
qed

lemma format_lines_shifted:
  "format_lines m (l # ls) = (if shifted m l \<noteq> [] then shifted m l @ (if ls \<noteq> [] then [CHR 0x0A] else []) else [])
     @ format_lines m ls"
  by (simp add: shifted_def)

lemma solid_format_lines: "shift_ok m ls \<Longrightarrow> solid (format_lines m ls) = concat (map solid ls)"
proof (induction ls)
  case (Cons l ls)
  have "solid (if ls \<noteq> [] then [CHR 0x0A] else []) = []" by (simp add: solid_def newline_ws)
  moreover have "solid (shifted m l) = solid l" using Cons.prems by (intro solid_shifted) (simp add: shift_ok_def)
  moreover have "shifted m l = [] \<Longrightarrow> solid l = []" using calculation(2) by (simp add: solid_def)
  moreover have "solid (format_lines m ls) = concat (map solid ls)" using Cons by (simp add: shift_ok_def)
  ultimately show ?case unfolding format_lines_shifted by simp
qed (simp add: solid_def)

lemma newline_shifted: "CHR 0x0A \<notin> set l \<Longrightarrow> CHR 0x0A \<notin> set (shifted m l)"
proof -
  have "set (rtrim s) \<subseteq> set s" for s using rtrim_prefix [of s] by (metis set_mono_prefix)
  moreover have "set (js_substring_from s m) \<subseteq> set s" for s
    by (auto simp: js_substring_from_def js_substring_def Let_def dest!: in_set_takeD in_set_dropD)
  ultimately show "CHR 0x0A \<notin> set l \<Longrightarrow> CHR 0x0A \<notin> set (shifted m l)" unfolding shifted_def by blast
qed

lemma lines_format_lines:
  "shift_ok m ls \<Longrightarrow>
   filter (\<lambda>l. \<not> blank l) (js_split (CHR 0x0A) (format_lines m ls)) = map (shifted m) (filter (\<lambda>l. \<not> blank l) ls)"
proof (induction ls)
  case Nil
  then show ?case by (simp add: blank_def)
next
  case (Cons l ls)
  have ok: "blank l \<or> m \<le> int (indent l)" and n: "CHR 0x0A \<notin> set (shifted m l)"
    using Cons.prems newline_shifted [of l m] by (simp_all add: shift_ok_def)
  have IH: "filter (\<lambda>l. \<not> blank l) (js_split (CHR 0x0A) (format_lines m ls))
      = map (shifted m) (filter (\<lambda>l. \<not> blank l) ls)" using Cons by (simp add: shift_ok_def)
  show ?case
  proof (cases "blank l")
    case True
    then have "shifted m l = []" using shifted_Nil_iff [OF ok] by simp
    then show ?thesis using True IH unfolding format_lines_shifted by simp
  next
    case False
    then have nb: "shifted m l \<noteq> []" "\<not> blank (shifted m l)"
      using shifted_Nil_iff [OF ok] solid_shifted [OF ok] by (simp_all add: solid_Nil_iff [symmetric])
    then show ?thesis
      using False IH n js_split_no_sep [OF n] js_split_append [OF n, of "format_lines m ls"]
      unfolding format_lines_shifted by (cases "ls = []") simp_all
  qed
qed

lemma shift_ok_common:
  "shift_ok (min_leading_whitespace (js_split (CHR 0x0A) q) (-1)) (js_split (CHR 0x0A) q)"
proof -
  let ?ls = "js_split (CHR 0x0A) q"
  have m: "min_leading_whitespace ?ls (-1) = indent_code (common_indent ?ls None)"
    using min_leading_common [of ?ls None] by (simp add: indent_code_def)
  have "CHR 0x0A \<notin> set l" if "l \<in> set ?ls" for l using that by (rule js_split_words)
  then show ?thesis
    unfolding m shift_ok_def
    by (cases "common_indent ?ls None") (auto simp: indent_code_def dest: common_indent_least)
qed


definition example_text :: string where
  "example_text = ''  select 1'' @ [CHR 0x0A] @ ''    from t''"


section \<open>The page is complete\<close>

lemma handlers_opt_child [simp]: "handlers (opt_child v) = []" "keys_ok (opt_child v)"
  by (simp_all add: opt_child_def split: option.split)

lemma child_keys_opt_child [simp]: "child_keys (opt_child v # kids) = child_keys kids"
  by (simp add: opt_child_def split: option.split)

lemmas view_simps = tooltip_def glyph_def tinystat_def renderWarning_def splitDetails_def timingDetails_def
  memoryDetails_def user_node_def stat_row_def item_left_def item_right_def GLYPHICON_DEFAULT_def
  GLYPHICON_HIGHLIGHT_def

lemma item_left_view: "handlers (item_left d q) = [] \<and> keys_ok (item_left d q)"
  by (simp add: view_simps Let_def split: option.split)

lemma item_right_view: "handlers (item_right c t q) = [] \<and> keys_ok (item_right c t q)"
  by (simp add: view_simps)

lemma child_keys_items [simp]:
  "child_keys [item_left d q, item_right c t q] = []"
  by (simp add: item_left_def item_right_def)

lemma QueryListItem_ok:
  assumes "error_fields_ok q"
  shows "\<exists>v. QueryListItem_render d q = Inr v \<and> handlers v = [] \<and> keys_ok v"
proof -
  obtain s where "getHumanReadableState q = Inr s" using getHumanReadableState_ok [OF assms] by blast
  then have "\<exists>t. getProgressBarTitle q = Inr t" by (simp add: getProgressBarTitle_def)
  then obtain c t where "getQueryStateColor q = Inr c" "getProgressBarTitle q = Inr t"
    using getQueryStateColor_category [OF assms] by blast
  then show ?thesis
    by (simp add: QueryListItem_render_def item_left_view item_right_view)
qed

lemma DisplayedQueriesList_ok:
  assumes "list_all error_fields_ok qs" and "distinct (map q_queryId qs)"
  shows "\<exists>v :: 'e vnode. DisplayedQueriesList_render d qs = Inr v \<and> handlers v = [] \<and> keys_ok v"
proof -
  define item :: "query \<Rightarrow> 'e vnode" where "item q = projr (QueryListItem_render d q)" for q
  have item: "QueryListItem_render d q = Inr (item q) \<and> handlers (item q) = [] \<and> keys_ok (item q)" if "q \<in> set qs" for q
    using QueryListItem_ok [of q d, where ?'a = 'e] assms(1) that by (auto simp: item_def list_all_iff)
  then have "res_mapM (\<lambda>q. res_map (Keyed (q_queryId q)) (QueryListItem_render d q)) qs
      = Inr (map (\<lambda>q. Keyed (q_queryId q) (item q)) qs)"
    by (intro res_mapM_Inr) simp
  then show ?thesis
    using item assms(2) by (auto simp: DisplayedQueriesList_render_def child_keys_Keyed list_all_iff)
qed

definition toolbar_events :: "string \<Rightarrow> ql_event list" where
  "toolbar_events typed = QL_SearchChange typed
     # map QL_StateFilterClick [FT_RUNNING, FT_QUEUED, FT_FINISHED]
     @ map QL_ErrorTypeFilterClick [ET_INTERNAL_ERROR, ET_EXTERNAL, ET_INSUFFICIENT_RESOURCES, ET_USER_ERROR]
     @ map QL_SortClick [ST_CREATED, ST_ELAPSED, ST_CPU, ST_EXECUTION, ST_CURRENT_MEMORY, ST_CUMULATIVE_MEMORY]
     @ map QL_ReorderClick [1000, 5000, 10000, 30000, 0]
     @ map QL_MaxQueriesClick [20, 50, 100, 0]"

lemmas toolbar_simps = search_bar_def filter_menu_def sort_menu_def reorder_menu_def show_menu_def
  renderFilterButton_def renderErrorTypeListItem_def renderSortListItem_def renderReorderListItem_def
  renderMaxQueriesListItem_def menu_link_def dropdown_button_def separator_def glyph_def GLYPHICON_HIGHLIGHT_def

lemma menus_handlers:
  "handlers (search_bar s typed) = [QL_SearchChange typed]"
  "handlers (filter_menu s) = map QL_StateFilterClick [FT_RUNNING, FT_QUEUED, FT_FINISHED]
     @ map QL_ErrorTypeFilterClick [ET_INTERNAL_ERROR, ET_EXTERNAL, ET_INSUFFICIENT_RESOURCES, ET_USER_ERROR]"
  "handlers (sort_menu s) =
     map QL_SortClick [ST_CREATED, ST_ELAPSED, ST_CPU, ST_EXECUTION, ST_CURRENT_MEMORY, ST_CUMULATIVE_MEMORY]"
  "handlers (reorder_menu s) = map QL_ReorderClick [1000, 5000, 10000, 30000, 0]"
  "handlers (show_menu s) = map QL_MaxQueriesClick [20, 50, 100, 0]"
  by (simp_all add: toolbar_simps Let_def)

lemma menus_keys:
  "keys_ok (search_bar s typed)" "keys_ok (filter_menu s)" "keys_ok (sort_menu s)" "keys_ok (reorder_menu s)"
  "keys_ok (show_menu s)"
  by (simp_all add: toolbar_simps Let_def)



end
