(* ===== verification/History.thy ===== *)
theory History
  imports JsDecimal
begin

text \<open>
  The part \<open>Sparkline-related functions\<close> of \<open>webapp/src/utils.js\<close>: the bounded histories behind
  the sparklines, plain and exponentially weighted.
\<close>

section \<open>The operations\<close>

definition MAX_HISTORY :: nat where
  "MAX_HISTORY = 60 * 5"

definition MOVING_AVERAGE_ALPHA :: jsnum where
  "MOVING_AVERAGE_ALPHA = fl (1/5)"

text \<open>\<open>slice(Math.max(valuesArray.length - MAX_HISTORY, 0))\<close> of the extended array.\<close>

definition addToHistory :: "jsnum \<Rightarrow> jsnum list \<Rightarrow> jsnum list" where
  "addToHistory value valuesArray =
     (if length valuesArray = 0 then valuesArray @ [value]
      else drop (nat (max (int (length valuesArray) - int MAX_HISTORY) 0)) (valuesArray @ [value]))"

definition movingAverage :: "jsnum \<Rightarrow> jsnum \<Rightarrow> jsnum" where
  "movingAverage value previous =
     (if js_lt value (Fin 1) then Fin 0
      else js_add (js_mul value MOVING_AVERAGE_ALPHA)
             (js_mul previous (js_sub (Fin 1) MOVING_AVERAGE_ALPHA)))"

definition addExponentiallyWeightedToHistory :: "jsnum \<Rightarrow> jsnum list \<Rightarrow> jsnum list" where
  "addExponentiallyWeightedToHistory value valuesArray =
     (if length valuesArray = 0 then valuesArray @ [value]
      else drop (nat (max (int (length valuesArray) - int MAX_HISTORY) 0))
             (valuesArray @ [movingAverage value (valuesArray ! (length valuesArray - 1))]))"

section \<open>The window\<close>

lemma window_snoc:
  "drop (nat (max (int (length xs) - int m) 0)) (xs @ [v]) = takelast (Suc m) (xs @ [v])"
  by (cases "m \<le> length xs") (auto simp: takelast_def nat_diff_distrib' Suc_diff_le max_def)

lemma addToHistory_takelast: "addToHistory v xs = takelast (Suc MAX_HISTORY) (xs @ [v])"
  using window_snoc [of xs MAX_HISTORY v]
  by (cases "xs = []") (simp_all add: addToHistory_def takelast_all)

lemma addExponentially_takelast:
  "addExponentiallyWeightedToHistory v xs =
     takelast (Suc MAX_HISTORY) (xs @ [if xs = [] then v else movingAverage v (last xs)])"
  using window_snoc [of xs MAX_HISTORY "movingAverage v (last xs)"]
  by (cases "xs = []")
    (simp_all add: addExponentiallyWeightedToHistory_def takelast_all last_conv_nth)

lemma fold_addToHistory: "fold addToHistory samples [] = takelast 301 samples"
proof (induction samples rule: rev_induct)
  case (snoc v vs)
  have t: "takelast 301 (xs @ [v]) = takelast 300 xs @ [v]" for xs
    using takelast_append1 [of 300 xs v] by simp
  have "takelast 301 (takelast 301 vs @ [v]) = takelast 301 (vs @ [v])"
    by (simp only: t) (simp add: takelast_takelast)
  then show ?case using snoc by (simp add: addToHistory_takelast MAX_HISTORY_def)
qed (simp add: takelast_def)

text \<open>
  After any sequence of samples a plain history holds exactly the last 301 of them, in order:
  one more than the 300 seconds its comment announces.
\<close>

theorem history_is_window:
  "fold addToHistory samples [] = takelast 301 samples"
  by (rule fold_addToHistory)

section \<open>The moving average\<close>

definition alpha :: rat where "alpha = 3602879701896397 / 18014398509481984"
definition beta :: rat where "beta = 7205759403792794 / 9007199254740992"

lemma MOVING_AVERAGE_ALPHA_value: "MOVING_AVERAGE_ALPHA = Fin alpha"
  by code_simp

lemma one_minus_alpha_value: "js_sub (Fin 1) (Fin alpha) = Fin beta"
  by code_simp

lemma movingAverage_idle: "js_lt v (Fin 1) \<Longrightarrow> movingAverage v p = Fin 0"
  by (simp add: movingAverage_def)


lemma rnd_rel:
  assumes "x = 0 \<or> 2 powi (-1022) \<le> x"
  shows "x * (1 - 1 / 2 ^ 53) \<le> rnd x" and "rnd x \<le> x * (1 + 1 / 2 ^ 53)"
proof -
  have "(0::rat) < 2 powi (-1022)" by (rule zero_less_power_int) simp
  then have "0 \<le> x" using assms by linarith
  then have "\<bar>rnd x - x\<bar> \<le> x / 2 ^ 53"
    using rnd_relative_error [of x] assms by (cases "x = 0") (simp_all only: rnd_0, simp_all)
  then have "x - x / 2 ^ 53 \<le> rnd x" and "rnd x \<le> x + x / 2 ^ 53" by linarith+
  then show "x * (1 - 1 / 2 ^ 53) \<le> rnd x" and "rnd x \<le> x * (1 + 1 / 2 ^ 53)"
    by (simp_all add: field_simps)
qed

lemma powi_small: "(2::rat) powi (-1022) \<le> 2 powi (-1000) * (1/8)"
proof -
  have "(2::rat) powi (-1000) * (1/8) = 2 powi (-1003)"
    using powi_add [of "-1000" "-3"] by (simp add: power_int_minus del: power_int_numeral_neg_numeral)
  then show ?thesis by (simp only: powi_le_iff)
qed

text \<open>One step on finite values, with the rounding errors of its three operations.\<close>

lemma movingAverage_step:
  assumes v: "1 \<le> v" "v \<le> 2 ^ 1000" and p: "p = 0 \<or> 2 powi (-1000) \<le> p" "p \<le> 2 ^ 1000"
  shows "\<exists>z. movingAverage (Fin v) (Fin p) = Fin z
           \<and> (v * alpha + p * beta) * (1 - 1 / 2 ^ 53) ^ 2 \<le> z
           \<and> z \<le> (v * alpha + p * beta) * (1 + 1 / 2 ^ 53) ^ 2"
proof -
  let ?d = "1 / 2 ^ 53 :: rat"
  define x where "x = v * alpha"
  define y where "y = p * beta"
  have ab: "1/8 \<le> alpha" "alpha \<le> 1/2" "1/8 \<le> beta" "beta \<le> 1" by (simp_all add: alpha_def beta_def)
  have pos: "(0::rat) < 2 powi (-1000)" by (rule zero_less_power_int) simp
  have small: "(2::rat) powi (-1022) \<le> 2 powi (-4)" by (simp only: powi_le_iff)
  have "1 * (1/8) \<le> x" unfolding x_def using v ab by (intro mult_mono) auto
  then have x18: "1/8 \<le> x" by simp
  then have x: "x = 0 \<or> 2 powi (-1022) \<le> x" using small by (simp add: power_int_minus)
  have p0: "0 \<le> p" using p(1) pos by linarith
  have y: "y = 0 \<or> 2 powi (-1022) \<le> y"
  proof (cases "p = 0")
    case False
    with p have "2 powi (-1000) * (1/8) \<le> y" unfolding y_def using ab pos by (intro mult_mono) auto
    with powi_small show ?thesis by linarith
  qed (simp add: y_def)
  have y0: "0 \<le> y" unfolding y_def using p0 ab by simp
  note rx = rnd_rel [OF x] and ry = rnd_rel [OF y]
  have d: "0 \<le> ?d" "?d \<le> 1/2" by simp_all
  have "x \<le> 2 ^ 1000 * (1/2)" unfolding x_def using v ab by (intro mult_mono) auto
  moreover have "y \<le> 2 ^ 1000 * 1" unfolding y_def using p ab p0 by (intro mult_mono) auto
  moreover have "rnd x \<le> x * 2" and "rnd y \<le> y * 2"
    using rx(2) ry(2) x18 y0 by (simp_all add: field_simps)
  moreover define s where "s = rnd x + rnd y"
  ultimately have xs: "rnd x \<le> 2 ^ 1000" "rnd y \<le> 2 * 2 ^ 1000" "s \<le> 3 * 2 ^ 1000" by linarith+
  have ge: "1/16 \<le> rnd x" "0 \<le> rnd y"
    using rx(1) ry(1) x18 y0 by (simp_all add: field_simps rnd_nonneg)
  then have s16: "1/16 \<le> s" by (simp add: s_def)
  then have sn: "s = 0 \<or> 2 powi (-1022) \<le> s" using small by (simp add: power_int_minus)
  note rs = rnd_rel [OF sn]
  have "rnd s \<le> s * 2" using rs(2) s16 by (simp add: field_simps)
  then have "rnd s \<le> 6 * 2 ^ 1000" using xs by linarith
  have not_huge: "\<not> is_huge r" if "0 \<le> r" "r \<le> 6 * 2 ^ 1000" for r
  proof (rule not_huge_powi [of _ 1003])
    have "(2::rat) powi 1003 = 8 * 2 ^ 1000"
      using powi_add [of 3 1000] by (simp only: power_int_numeral) simp
    then show "\<bar>r\<bar> < 2 powi 1003" using that by simp
  qed simp
  have "\<not> is_huge (rnd x)" and "\<not> is_huge (rnd y)" and "\<not> is_huge (rnd s)"
    using ge xs \<open>rnd s \<le> 6 * 2 ^ 1000\<close> rnd_nonneg [of s] s16 by (intro not_huge; linarith)+
  then have "movingAverage (Fin v) (Fin p) = Fin (rnd s)"
    using v(1) by (simp add: movingAverage_def MOVING_AVERAGE_ALPHA_value one_minus_alpha_value
        x_def [symmetric] y_def [symmetric] s_def [symmetric] fl_def)
  moreover have "(x + y) * (1 - ?d) ^ 2 \<le> rnd s"
  proof -
    have "(x + y) * (1 - ?d) \<le> s" using rx(1) ry(1) by (simp add: s_def distrib_right)
    then have "(x + y) * (1 - ?d) * (1 - ?d) \<le> s * (1 - ?d)" using d by (intro mult_right_mono) auto
    with rs(1) show ?thesis by (simp add: power2_eq_square mult.assoc)
  qed
  moreover have "rnd s \<le> (x + y) * (1 + ?d) ^ 2"
  proof -
    have "s \<le> (x + y) * (1 + ?d)" using rx(2) ry(2) by (simp add: s_def distrib_right)
    then have "s * (1 + ?d) \<le> (x + y) * (1 + ?d) * (1 + ?d)" using d by (intro mult_right_mono) auto
    with rs(2) show ?thesis by (simp add: power2_eq_square mult.assoc)
  qed
  ultimately show ?thesis unfolding x_def y_def by blast
qed


lemma alpha_beta_bounds:
  "1 - 1 / 2 ^ 51 \<le> (alpha + beta) * (1 - 1 / 2 ^ 53) ^ 2"
  "(alpha + beta) * (1 + 1 / 2 ^ 53) ^ 2 \<le> 1 + 1 / (2 ^ 51 :: rat)"
  by (simp_all add: alpha_def beta_def power2_eq_square)

lemma weighted_between:
  assumes "lo \<le> v" "lo \<le> p" "v \<le> hi" "p \<le> hi"
  shows "lo * (alpha + beta) \<le> v * alpha + p * beta" and "v * alpha + p * beta \<le> hi * (alpha + beta)"
proof -
  have "0 \<le> alpha" "0 \<le> beta" by (simp_all add: alpha_def beta_def)
  with assms have "lo * alpha \<le> v * alpha" "lo * beta \<le> p * beta" "v * alpha \<le> hi * alpha" "p * beta \<le> hi * beta"
    by (simp_all add: mult_right_mono)
  then show "lo * (alpha + beta) \<le> v * alpha + p * beta" and "v * alpha + p * beta \<le> hi * (alpha + beta)"
    by (simp_all add: distrib_left)
qed



text \<open>
  A sample below 1 resets a weighted history: the appended value is 0 whatever the history held,
  so a \<open>NaN\<close> left by an empty interval does not survive the next idle sample.
\<close>

theorem weighted_history_idle:
  assumes "xs \<noteq> []" and "js_lt v (Fin 1)"
  shows "last (addExponentiallyWeightedToHistory v xs) = Fin 0"
  using assms by (simp add: addExponentially_takelast takelast_append1 movingAverage_idle)

theorem weighted_history_idle_witness:
  "last (addExponentiallyWeightedToHistory (Fin 0) [Fin 7, NaN]) = Fin 0"
  using weighted_history_idle [of "[Fin 7, NaN]" "Fin 0"] by simp

lemma movingAverage_NaN: "\<not> js_lt v (Fin 1) \<Longrightarrow> movingAverage v NaN = NaN"
  by (cases "js_mul v MOVING_AVERAGE_ALPHA") (simp_all add: movingAverage_def)

lemma last_addExponentially:
  "xs \<noteq> [] \<Longrightarrow> last (addExponentiallyWeightedToHistory v xs) = movingAverage v (last xs)"
  by (simp add: addExponentially_takelast takelast_append1)

lemma addExponentially_nonempty: "addExponentiallyWeightedToHistory v xs \<noteq> []"
  using takelast_append1 [of MAX_HISTORY xs] by (simp add: addExponentially_takelast)

lemma length_addExponentially:
  "length (addExponentiallyWeightedToHistory v xs) = min 301 (Suc (length xs))"
  by (simp add: addExponentially_takelast MAX_HISTORY_def)

text \<open>
  A single sample that is not a number (0 divided by 0) stays in a weighted history: as long as
  every later sample is at least 1, every later average is not a number either.
\<close>

theorem weighted_history_poisoned:
  assumes "xs \<noteq> []" and "last xs = NaN" and "list_all (\<lambda>v. \<not> js_lt v (Fin 1)) samples"
  shows "last (fold addExponentiallyWeightedToHistory samples xs) = NaN"
  using assms
proof (induction samples arbitrary: xs)
  case (Cons v samples)
  then show ?case
    by (simp add: addExponentially_nonempty last_addExponentially movingAverage_NaN)
qed simp

theorem weighted_history_poisoned_witness:
  "last (fold addExponentiallyWeightedToHistory [Fin 100, Fin 250, Fin 3] [Fin 5, NaN]) = NaN"
  using weighted_history_poisoned [of "[Fin 5, NaN]" "[Fin 100, Fin 250, Fin 3]"] by simp

end
