(* ===== verification/Polling.thy ===== *)
theory Polling
  imports Main
begin

text \<open>
  The polling scheme the pages share: \<open>refreshLoop\<close> clears the timer and sends a request, and every
  answer ends in \<open>resetTimer\<close>, which sets the timer again if the component goes on.  The contract of a
  component that polls this way is the locale \<open>poller\<close>; its lemma says that no interleaving
  ever has two polling series running at once.  The locale \<open>live_poller\<close> adds that no other event makes a
  stopped component go on; then polling never stalls, and in a fair run it goes on until the component stops.
\<close>

text \<open>
  The states a component reaches from \<open>s0\<close> when it is mounted (the first \<open>tick\<close>): the timer fires only
  while it is pending, an answer comes only for an outstanding request, other events come at any time.
\<close>

inductive poll_reach ::
  "('s \<Rightarrow> bool) \<Rightarrow> ('s \<Rightarrow> nat) \<Rightarrow> ('s \<Rightarrow> 's) \<Rightarrow> ('e \<Rightarrow> bool) \<Rightarrow> ('e \<Rightarrow> 's \<Rightarrow> 's) \<Rightarrow> 's \<Rightarrow> 's \<Rightarrow> bool"
  for pending outstanding tick answers handle s0 where
  poll_mount: "poll_reach pending outstanding tick answers handle s0 (tick s0)"
| poll_timer: "poll_reach pending outstanding tick answers handle s0 s \<Longrightarrow> pending s \<Longrightarrow>
    poll_reach pending outstanding tick answers handle s0 (tick s)"
| poll_answer: "poll_reach pending outstanding tick answers handle s0 s \<Longrightarrow> answers e \<Longrightarrow> 0 < outstanding s \<Longrightarrow>
    poll_reach pending outstanding tick answers handle s0 (handle e s)"
| poll_other: "poll_reach pending outstanding tick answers handle s0 s \<Longrightarrow> \<not> answers e \<Longrightarrow>
    poll_reach pending outstanding tick answers handle s0 (handle e s)"

locale poller =
  fixes pending :: "'s \<Rightarrow> bool" and outstanding :: "'s \<Rightarrow> nat" and continues :: "'s \<Rightarrow> bool"
    and tick :: "'s \<Rightarrow> 's" and answers :: "'e \<Rightarrow> bool" and handle :: "'e \<Rightarrow> 's \<Rightarrow> 's" and fresh :: "'s \<Rightarrow> bool"
  assumes tick_pending: "\<not> pending (tick s)"
    and tick_outstanding: "outstanding (tick s) = Suc (outstanding s)"
    and answer_outstanding: "answers e \<Longrightarrow> outstanding (handle e s) = outstanding s - 1"
    and answer_pending: "answers e \<Longrightarrow> continues (handle e s) \<Longrightarrow> pending (handle e s)"
    and other_outstanding: "\<not> answers e \<Longrightarrow> outstanding (handle e s) = outstanding s"
    and other_pending: "\<not> answers e \<Longrightarrow> pending (handle e s) \<longleftrightarrow> pending s"
    and fresh_outstanding: "fresh s \<Longrightarrow> outstanding s = 0"
begin

lemma single_series:
  assumes "poll_reach pending outstanding tick answers handle s0 s" and "fresh s0"
  shows "outstanding s \<le> 1 \<and> (pending s \<longrightarrow> outstanding s = 0)"
  using assms
proof (induction rule: poll_reach.induct)
  case poll_mount
  then show ?case by (simp add: tick_pending tick_outstanding fresh_outstanding)
next
  case (poll_timer s)
  then show ?case by (simp add: tick_pending tick_outstanding)
next
  case (poll_answer s e)
  then show ?case by (simp add: answer_outstanding)
next
  case (poll_other s e)
  then show ?case by (simp add: other_outstanding other_pending)
qed

end

text \<open>
  Infinite runs: at each moment the pending timer fires, or an event comes.  A run is fair if a pending timer
  fires at last and an outstanding request is answered at last.
\<close>

datatype 'e action = Timer | Event 'e

fun poll_step ::
  "('s \<Rightarrow> bool) \<Rightarrow> ('s \<Rightarrow> nat) \<Rightarrow> ('s \<Rightarrow> 's) \<Rightarrow> ('e \<Rightarrow> bool) \<Rightarrow> ('e \<Rightarrow> 's \<Rightarrow> 's) \<Rightarrow> 's \<Rightarrow> 'e action \<Rightarrow> 's \<Rightarrow> bool" where
  "poll_step pending outstanding tick answers handle s Timer s' \<longleftrightarrow> pending s \<and> s' = tick s"
| "poll_step pending outstanding tick answers handle s (Event e) s' \<longleftrightarrow> (answers e \<longrightarrow> 0 < outstanding s) \<and> s' = handle e s"

definition fair_run ::
  "('s \<Rightarrow> bool) \<Rightarrow> ('s \<Rightarrow> nat) \<Rightarrow> ('s \<Rightarrow> 's) \<Rightarrow> ('e \<Rightarrow> bool) \<Rightarrow> ('e \<Rightarrow> 's \<Rightarrow> 's) \<Rightarrow> 's \<Rightarrow> (nat \<Rightarrow> 's) \<Rightarrow> (nat \<Rightarrow> 'e action) \<Rightarrow> bool" where
  "fair_run pending outstanding tick answers handle s0 run acts \<longleftrightarrow>
     run 0 = tick s0 \<and> (\<forall>i. poll_step pending outstanding tick answers handle (run i) (acts i) (run (Suc i)))
     \<and> (\<forall>i. pending (run i) \<longrightarrow> (\<exists>j \<ge> i. acts j = Timer))
     \<and> (\<forall>i. 0 < outstanding (run i) \<longrightarrow> (\<exists>j \<ge> i. \<exists>e. acts j = Event e \<and> answers e))"

lemma fair_run_reach:
  assumes "fair_run pending outstanding tick answers handle s0 run acts"
  shows "poll_reach pending outstanding tick answers handle s0 (run i)"
proof (induction i)
  case 0
  then show ?case using assms by (simp add: fair_run_def poll_mount)
next
  case (Suc i)
  have "poll_step pending outstanding tick answers handle (run i) (acts i) (run (Suc i))" using assms by (simp add: fair_run_def)
  with Suc show ?case by (cases "acts i") (auto intro: poll_timer poll_answer poll_other)
qed

locale live_poller = poller +
  assumes other_continues: "\<not> answers e \<Longrightarrow> continues (handle e s) \<Longrightarrow> continues s"
begin

lemma never_stalls:
  assumes "poll_reach pending outstanding tick answers handle s0 s"
  shows "continues s \<Longrightarrow> pending s \<or> 0 < outstanding s"
  using assms
  by (induction rule: poll_reach.induct)
    (auto simp: tick_outstanding answer_pending other_outstanding other_pending dest: other_continues)

lemma polls_again:
  assumes "fair_run pending outstanding tick answers handle s0 run acts"
  shows "\<exists>j \<ge> i. acts j = Timer \<or> \<not> continues (run j)"
proof (rule ccontr)
  assume stuck: "\<not> ?thesis"
  then have "continues (run i)" and "\<not> pending (run i)" using assms by (auto simp: fair_run_def)
  then have "0 < outstanding (run i)" using never_stalls [OF fair_run_reach [OF assms]] by blast
  then obtain j e where j: "j \<ge> i" "acts j = Event e" "answers e" using assms unfolding fair_run_def by blast
  have "poll_step pending outstanding tick answers handle (run j) (acts j) (run (Suc j))" using assms by (simp add: fair_run_def)
  then have "run (Suc j) = handle e (run j)" using j(2) by simp
  moreover have "continues (run (Suc j))" using stuck j(1) by (auto dest: le_SucI)
  ultimately have "pending (run (Suc j))" using answer_pending [OF j(3), of "run j"] by simp
  then obtain k where "k \<ge> Suc j" "acts k = Timer" using assms by (auto simp: fair_run_def)
  then show False using stuck j(1) by (meson Suc_leD order_trans)
qed

end

end
