(* ===== verification/ClusterHUD.thy ===== *)
theory ClusterHUD
  imports History Format Vdom Polling
begin

text \<open>
  \<open>webapp/src/components/ClusterHUD.jsx\<close>: the sparklines of the cluster overview, their histories, the
  polling and the rendering.  The sparkline plugin is outside the model: a drawing is the element it goes to,
  the values, and the range and formatter it is given.
\<close>

section \<open>State\<close>

record cluster_state =
  c_runningQueries :: jsnum
  c_blockedQueries :: jsnum
  c_queuedQueries :: jsnum
  c_activeWorkers :: jsnum
  c_runningDrivers :: jsnum
  c_reservedMemory :: jsnum
  c_totalInputRows :: jsnum
  c_totalInputBytes :: jsnum
  c_totalCpuTimeSecs :: jsnum

text \<open>The values \<open>lastInputRows\<close>, \<open>lastInputBytes\<close> and \<open>lastCpuTime\<close> are \<open>null\<close> until the first answer.\<close>

record hud_state =
  hud_runningQueries :: "jsnum list"
  hud_queuedQueries :: "jsnum list"
  hud_blockedQueries :: "jsnum list"
  hud_activeWorkers :: "jsnum list"
  hud_runningDrivers :: "jsnum list"
  hud_reservedMemory :: "jsnum list"
  hud_rowInputRate :: "jsnum list"
  hud_byteInputRate :: "jsnum list"
  hud_perWorkerCpuTimeRate :: "jsnum list"
  hud_lastRender :: "int option"
  hud_lastRefresh :: "int option"
  hud_lastInputRows :: "jsnum option"
  hud_lastInputBytes :: "jsnum option"
  hud_lastCpuTime :: "jsnum option"
  hud_initialized :: bool
  hud_timeout :: bool
  hud_requests :: nat

definition hud_init :: hud_state where
  "hud_init = \<lparr>hud_runningQueries = [], hud_queuedQueries = [], hud_blockedQueries = [], hud_activeWorkers = [],
     hud_runningDrivers = [], hud_reservedMemory = [], hud_rowInputRate = [], hud_byteInputRate = [],
     hud_perWorkerCpuTimeRate = [], hud_lastRender = None, hud_lastRefresh = None, hud_lastInputRows = None,
     hud_lastInputBytes = None, hud_lastCpuTime = None, hud_initialized = False,
     hud_timeout = False, hud_requests = 0\<rparr>"

section \<open>Polling\<close>

text \<open>The state has no fields \<open>query\<close> and \<open>ended\<close>, so the timer is always set again.\<close>

definition hud_resetTimer :: "hud_state \<Rightarrow> hud_state" where
  "hud_resetTimer s = s\<lparr>hud_timeout := True\<rparr>"

definition hud_refreshLoop :: "hud_state \<Rightarrow> hud_state" where
  "hud_refreshLoop s = s\<lparr>hud_timeout := False, hud_requests := hud_requests s + 1\<rparr>"

definition since :: "jsnum \<Rightarrow> jsnum option \<Rightarrow> jsnum" where
  "since current previous = js_sub current (to_number previous)"

definition hud_rates :: "cluster_state \<Rightarrow> int \<Rightarrow> hud_state \<Rightarrow> jsnum list \<times> jsnum list \<times> jsnum list" where
  "hud_rates cs now s =
     (case hud_lastRefresh s of
        None \<Rightarrow> ([], [], [])
      | Some lastRefresh \<Rightarrow>
         (let rowsInputSinceRefresh = since (c_totalInputRows cs) (hud_lastInputRows s);
              bytesInputSinceRefresh = since (c_totalInputBytes cs) (hud_lastInputBytes s);
              cpuTimeSinceRefresh = since (c_totalCpuTimeSecs cs) (hud_lastCpuTime s);
              secsSinceRefresh = js_div (Fin (of_int (now - lastRefresh))) (Fin 1000)
          in (addExponentiallyWeightedToHistory (js_div rowsInputSinceRefresh secsSinceRefresh) (hud_rowInputRate s),
              addExponentiallyWeightedToHistory (js_div bytesInputSinceRefresh secsSinceRefresh) (hud_byteInputRate s),
              addExponentiallyWeightedToHistory
                (js_div (js_div cpuTimeSinceRefresh (c_activeWorkers cs)) secsSinceRefresh) (hud_perWorkerCpuTimeRate s))))"

definition hud_success :: "cluster_state \<Rightarrow> int \<Rightarrow> int \<Rightarrow> hud_state \<Rightarrow> hud_state" where
  "hud_success cs now later s =
     (let (newRowInputRate, newByteInputRate, newPerWorkerCpuTimeRate) = hud_rates cs now s in
      hud_resetTimer (s\<lparr>
        hud_runningQueries := addToHistory (c_runningQueries cs) (hud_runningQueries s),
        hud_queuedQueries := addToHistory (c_queuedQueries cs) (hud_queuedQueries s),
        hud_blockedQueries := addToHistory (c_blockedQueries cs) (hud_blockedQueries s),
        hud_activeWorkers := addToHistory (c_activeWorkers cs) (hud_activeWorkers s),
        hud_runningDrivers := addExponentiallyWeightedToHistory (c_runningDrivers cs) (hud_runningDrivers s),
        hud_reservedMemory := addExponentiallyWeightedToHistory (c_reservedMemory cs) (hud_reservedMemory s),
        hud_rowInputRate := newRowInputRate,
        hud_byteInputRate := newByteInputRate,
        hud_perWorkerCpuTimeRate := newPerWorkerCpuTimeRate,
        hud_lastInputRows := Some (c_totalInputRows cs),
        hud_lastInputBytes := Some (c_totalInputBytes cs),
        hud_lastCpuTime := Some (c_totalCpuTimeSecs cs),
        hud_initialized := True,
        hud_lastRefresh := Some later\<rparr>))"

text \<open>What is drawn: the element, the values, and the options besides the common appearance.\<close>

datatype sparkline_option = ChartRangeMin0 | NumberFormatter "jsnum \<Rightarrow> string"

type_synonym drawing = "string \<times> jsnum list \<times> sparkline_option list"

definition hud_drawings :: "hud_state \<Rightarrow> drawing list" where
  "hud_drawings s =
     [(''#running-queries-sparkline'', hud_runningQueries s, [ChartRangeMin0]),
      (''#blocked-queries-sparkline'', hud_blockedQueries s, [ChartRangeMin0]),
      (''#queued-queries-sparkline'', hud_queuedQueries s, [ChartRangeMin0]),
      (''#active-workers-sparkline'', hud_activeWorkers s, [ChartRangeMin0]),
      (''#running-drivers-sparkline'', hud_runningDrivers s, [NumberFormatter precisionRound]),
      (''#reserved-memory-sparkline'', hud_reservedMemory s, [NumberFormatter formatDataSizeBytes]),
      (''#row-input-rate-sparkline'', hud_rowInputRate s, [NumberFormatter formatCount]),
      (''#byte-input-rate-sparkline'', hud_byteInputRate s, [NumberFormatter formatDataSizeBytes]),
      (''#cpu-time-rate-sparkline'', hud_perWorkerCpuTimeRate s, [NumberFormatter precisionRound])]"

definition hud_componentDidUpdate :: "int \<Rightarrow> int \<Rightarrow> hud_state \<Rightarrow> drawing list \<times> hud_state" where
  "hud_componentDidUpdate now later s =
     (if (case hud_lastRender s of None \<Rightarrow> True | Some t \<Rightarrow> now - t \<ge> 1000)
      then (hud_drawings s, s\<lparr>hud_lastRender := Some later\<rparr>) else ([], s))"

datatype hud_event = HUD_Success cluster_state int int | HUD_Error | HUD_DidUpdate int int

fun hud_answers :: "hud_event \<Rightarrow> bool" where
  "hud_answers (HUD_Success cs now later) \<longleftrightarrow> True"
| "hud_answers HUD_Error \<longleftrightarrow> True"
| "hud_answers (HUD_DidUpdate now later) \<longleftrightarrow> False"

fun hud_handle :: "hud_event \<Rightarrow> hud_state \<Rightarrow> hud_state" where
  "hud_handle (HUD_Success cs now later) s = hud_success cs now later (s\<lparr>hud_requests := hud_requests s - 1\<rparr>)"
| "hud_handle HUD_Error s = hud_resetTimer (s\<lparr>hud_requests := hud_requests s - 1\<rparr>)"
| "hud_handle (HUD_DidUpdate now later) s = snd (hud_componentDidUpdate now later s)"

section \<open>Rendering\<close>

definition stat_title :: "string \<Rightarrow> string \<Rightarrow> 'e vnode" where
  "stat_title title text =
     divC ''col-xs-4'' [divC ''stat-title''
       [El ''span'' [cls ''text'', AStr ''data-toggle'' ''tooltip'', AStr ''data-placement'' ''right'', AStr ''title'' title]
         [Text text]]]"

text \<open>Reading past the end gives \<open>undefined\<close>: it renders as nothing, and as a number it is \<open>NaN\<close>.\<close>

definition last_value :: "jsnum list \<Rightarrow> jsnum option" where
  "last_value xs = (if xs = [] then None else Some (last xs))"

definition undefined_to_number :: "jsnum option \<Rightarrow> jsnum" where
  "undefined_to_number v = (case v of None \<Rightarrow> NaN | Some x \<Rightarrow> x)"

definition stat_large :: "'e vnode \<Rightarrow> string \<Rightarrow> 'e vnode" where
  "stat_large value sparkline =
     divC ''col-xs-4'' [divC ''stat stat-large''
       [spanC ''stat-text'' [value],
        El ''span'' [cls ''sparkline'', AStr ''id'' sparkline] [divC ''loader'' [Text ''Loading ...'']]]]"

definition plain_stat :: "jsnum list \<Rightarrow> 'e vnode" where
  "plain_stat xs = opt_child (map_option num_str (last_value xs))"

definition formatted_stat :: "(jsnum \<Rightarrow> string) \<Rightarrow> jsnum list \<Rightarrow> 'e vnode" where
  "formatted_stat f xs = Text (f (undefined_to_number (last_value xs)))"

definition hud_first_rows :: "hud_state \<Rightarrow> 'e vnode list" where
  "hud_first_rows s =
     [divC ''row''
       [stat_title ''Total number of queries currently running'' ''Running queries'',
        stat_title ''Total number of active worker nodes'' ''Active workers'',
        stat_title ''Moving average of input rows processed per second'' ''Rows/sec''],
      divC ''row stat-line-end''
       [stat_large (plain_stat (hud_runningQueries s)) ''running-queries-sparkline'',
        stat_large (plain_stat (hud_activeWorkers s)) ''active-workers-sparkline'',
        stat_large (formatted_stat formatCount (hud_rowInputRate s)) ''row-input-rate-sparkline'']]"

definition hud_second_rows :: "hud_state \<Rightarrow> 'e vnode list" where
  "hud_second_rows s =
     [divC ''row''
       [stat_title ''Total number of queries currently queued and awaiting execution'' ''Queued queries'',
        stat_title ''Moving average of total running drivers'' ''Runnable drivers'',
        stat_title ''Moving average of input bytes processed per second'' ''Bytes/sec''],
      divC ''row stat-line-end''
       [stat_large (plain_stat (hud_queuedQueries s)) ''queued-queries-sparkline'',
        stat_large (formatted_stat formatCount (hud_runningDrivers s)) ''running-drivers-sparkline'',
        stat_large (formatted_stat formatDataSizeBytes (hud_byteInputRate s)) ''byte-input-rate-sparkline'']]"

definition hud_third_rows :: "hud_state \<Rightarrow> 'e vnode list" where
  "hud_third_rows s =
     [divC ''row''
       [stat_title ''Total number of queries currently blocked and unable to make progress'' ''Blocked Queries'',
        stat_title ''Total amount of memory reserved by all running queries'' ''Reserved Memory (B)'',
        stat_title ''Moving average of CPU time utilized per second per worker'' ''Worker Parallelism''],
      divC ''row stat-line-end''
       [stat_large (plain_stat (hud_blockedQueries s)) ''blocked-queries-sparkline'',
        stat_large (formatted_stat formatDataSizeBytes (hud_reservedMemory s)) ''reserved-memory-sparkline'',
        stat_large (formatted_stat formatCount (hud_perWorkerCpuTimeRate s)) ''cpu-time-rate-sparkline'']]"

definition ClusterHUD_render :: "hud_state \<Rightarrow> 'e vnode" where
  "ClusterHUD_render s =
     divC ''row'' [divC ''col-xs-12'' (hud_first_rows s @ hud_second_rows s @ hud_third_rows s)]"

section \<open>Properties\<close>

interpretation hud: live_poller hud_timeout hud_requests "\<lambda>s. True" hud_refreshLoop hud_answers hud_handle "\<lambda>s. s = hud_init"
proof unfold_locales
  fix e s
  assume "hud_answers e"
  then show "hud_requests (hud_handle e s) = hud_requests s - 1" and "hud_timeout (hud_handle e s)"
    by (cases e; simp add: hud_success_def hud_resetTimer_def split: prod.split; fail)+
next
  fix e s
  assume "\<not> hud_answers e"
  then show "hud_requests (hud_handle e s) = hud_requests s" and "hud_timeout (hud_handle e s) = hud_timeout s"
    by (cases e; simp add: hud_componentDidUpdate_def; fail)+
qed (simp_all add: hud_refreshLoop_def hud_init_def)

text \<open>The successful answers of a run, each with the two readings of the clock its callback takes.\<close>

fun hud_answers_of :: "hud_event list \<Rightarrow> (cluster_state \<times> int \<times> int) list" where
  "hud_answers_of [] = []"
| "hud_answers_of (HUD_Success cs now later # es) = (cs, now, later) # hud_answers_of es"
| "hud_answers_of (e # es) = hud_answers_of es"

text \<open>The change of a counter per second between every two consecutive successful answers.\<close>

fun rate_samples :: "(cluster_state \<Rightarrow> cluster_state \<Rightarrow> jsnum) \<Rightarrow> (cluster_state \<times> int \<times> int) list \<Rightarrow> jsnum list" where
  "rate_samples f ((c1, n1, l1) # (c2, n2, l2) # as) =
     js_div (f c1 c2) (js_div (Fin (of_int (n2 - l1))) (Fin 1000)) # rate_samples f ((c2, n2, l2) # as)"
| "rate_samples f as = []"

lemma hud_answers_of_snoc: "hud_answers_of (es @ [e]) = hud_answers_of es @ hud_answers_of [e]"
  by (induction es rule: hud_answers_of.induct) auto

lemma rate_samples_snoc:
  "rate_samples f (as @ [(c1, n1, l1), (c2, n2, l2)]) =
     rate_samples f (as @ [(c1, n1, l1)]) @ [js_div (f c1 c2) (js_div (Fin (of_int (n2 - l1))) (Fin 1000))]"
  by (induction f as rule: rate_samples.induct) auto

abbreviation weighted :: "jsnum list \<Rightarrow> jsnum list" where
  "weighted samples \<equiv> fold addExponentiallyWeightedToHistory samples []"

abbreviation rows_diff :: "cluster_state \<Rightarrow> cluster_state \<Rightarrow> jsnum" where
  "rows_diff c1 c2 \<equiv> js_sub (c_totalInputRows c2) (c_totalInputRows c1)"

abbreviation bytes_diff :: "cluster_state \<Rightarrow> cluster_state \<Rightarrow> jsnum" where
  "bytes_diff c1 c2 \<equiv> js_sub (c_totalInputBytes c2) (c_totalInputBytes c1)"

abbreviation cpu_diff :: "cluster_state \<Rightarrow> cluster_state \<Rightarrow> jsnum" where
  "cpu_diff c1 c2 \<equiv> js_div (js_sub (c_totalCpuTimeSecs c2) (c_totalCpuTimeSecs c1)) (c_activeWorkers c2)"

text \<open>What the state remembers of the last successful answer.\<close>

definition hud_remembers :: "(cluster_state \<times> int \<times> int) list \<Rightarrow> hud_state \<Rightarrow> bool" where
  "hud_remembers as s \<longleftrightarrow>
     (if as = [] then hud_lastRefresh s = None
      else hud_lastRefresh s = Some (snd (snd (last as))) \<and> hud_lastInputRows s = Some (c_totalInputRows (fst (last as)))
         \<and> hud_lastInputBytes s = Some (c_totalInputBytes (fst (last as)))
         \<and> hud_lastCpuTime s = Some (c_totalCpuTimeSecs (fst (last as))))"

definition hud_rates_are :: "(cluster_state \<times> int \<times> int) list \<Rightarrow> hud_state \<Rightarrow> bool" where
  "hud_rates_are as s \<longleftrightarrow>
     hud_rowInputRate s = weighted (rate_samples rows_diff as) \<and>
     hud_byteInputRate s = weighted (rate_samples bytes_diff as) \<and>
     hud_perWorkerCpuTimeRate s = weighted (rate_samples cpu_diff as)"

definition hud_levels_are :: "cluster_state list \<Rightarrow> hud_state \<Rightarrow> bool" where
  "hud_levels_are cs s \<longleftrightarrow>
     hud_runningQueries s = takelast 301 (map c_runningQueries cs) \<and>
     hud_queuedQueries s = takelast 301 (map c_queuedQueries cs) \<and>
     hud_blockedQueries s = takelast 301 (map c_blockedQueries cs) \<and>
     hud_activeWorkers s = takelast 301 (map c_activeWorkers cs) \<and>
     hud_runningDrivers s = weighted (map c_runningDrivers cs) \<and>
     hud_reservedMemory s = weighted (map c_reservedMemory cs)"

definition hud_run :: "hud_event list \<Rightarrow> hud_state" where
  "hud_run es = fold hud_handle es hud_init"

lemma hud_rates_step:
  assumes "hud_remembers as s" and "hud_rates_are as s"
  shows "hud_rates_are (as @ [(c, n, l)]) (hud_success c n l s)"
proof (cases as rule: rev_cases)
  case Nil
  with assms show ?thesis
    by (simp add: hud_remembers_def hud_rates_are_def hud_success_def hud_rates_def hud_resetTimer_def)
next
  case (snoc bs a)
  obtain c1 n1 l1 where "a = (c1, n1, l1)" by (cases a)
  with snoc assms show ?thesis
    by (simp add: hud_remembers_def hud_rates_are_def hud_success_def hud_rates_def hud_resetTimer_def
        rate_samples_snoc since_def to_number_def Let_def)
qed

lemma takelast_history: "addToHistory v (takelast 301 xs) = takelast 301 (xs @ [v])"
  using fold_addToHistory [of "xs @ [v]"] fold_addToHistory [of xs] by simp

lemma hud_levels_step:
  "hud_levels_are cs s \<Longrightarrow> hud_levels_are (cs @ [c]) (hud_success c n l s)"
  by (simp add: hud_levels_are_def hud_success_def hud_resetTimer_def takelast_history split: prod.split)

lemma hud_remembers_step: "hud_remembers (as @ [(c, n, l)]) (hud_success c n l s)"
  by (simp add: hud_remembers_def hud_success_def hud_resetTimer_def split: prod.split)

lemma hud_ignores [simp]:
  "hud_remembers as (s\<lparr>hud_requests := k\<rparr>) = hud_remembers as s"
  "hud_rates_are as (s\<lparr>hud_requests := k\<rparr>) = hud_rates_are as s"
  "hud_levels_are cs (s\<lparr>hud_requests := k\<rparr>) = hud_levels_are cs s"
  "hud_remembers as (s\<lparr>hud_timeout := b\<rparr>) = hud_remembers as s"
  "hud_rates_are as (s\<lparr>hud_timeout := b\<rparr>) = hud_rates_are as s"
  "hud_levels_are cs (s\<lparr>hud_timeout := b\<rparr>) = hud_levels_are cs s"
  "hud_remembers as (s\<lparr>hud_lastRender := r\<rparr>) = hud_remembers as s"
  "hud_rates_are as (s\<lparr>hud_lastRender := r\<rparr>) = hud_rates_are as s"
  "hud_levels_are cs (s\<lparr>hud_lastRender := r\<rparr>) = hud_levels_are cs s"
  by (simp_all add: hud_remembers_def hud_rates_are_def hud_levels_are_def)

lemma hud_run_invariant:
  "hud_remembers (hud_answers_of es) (hud_run es) \<and> hud_rates_are (hud_answers_of es) (hud_run es)
     \<and> hud_levels_are (map fst (hud_answers_of es)) (hud_run es)"
proof (induction es rule: rev_induct)
  case Nil
  show ?case
    by (simp add: hud_run_def hud_remembers_def hud_rates_are_def hud_levels_are_def hud_init_def takelast_def)
next
  case (snoc e es)
  then show ?case
    by (cases e)
      (simp_all add: hud_run_def hud_answers_of_snoc hud_rates_step hud_levels_step hud_remembers_step
        hud_resetTimer_def hud_componentDidUpdate_def)
qed

text \<open>
  C18: whatever sequence of answers, failed requests and redraws the page sees, the level histories are the
  last 301 successful samples, the averaged ones the weighted history of all of them, and the three rate
  histories the weighted history of the change per second between consecutive successful answers: a failed
  request leaves no gap and no wrong sample.
\<close>

theorem hud_histories_faithful:
  "hud_levels_are (map fst (hud_answers_of es)) (hud_run es) \<and> hud_rates_are (hud_answers_of es) (hud_run es)"
  using hud_run_invariant by blast

lemma hud_formatters_NaN: "formatCount NaN = ''NaN''" "formatDataSizeBytes NaN = ''NaN''"
  by code_simp+

lemma rate_samples_short: "length as \<le> 1 \<Longrightarrow> rate_samples f as = []"
  by (cases as rule: list.exhaust; cases "tl as") auto

text \<open>
  Until the second successful answer there is no rate to show, and all three rates on the page read NaN.
\<close>

theorem hud_rates_start_as_NaN:
  assumes "length (hud_answers_of es) \<le> 1"
  shows "text_of (formatted_stat formatCount (hud_rowInputRate (hud_run es)) :: unit vnode) = ''NaN''
       \<and> text_of (formatted_stat formatDataSizeBytes (hud_byteInputRate (hud_run es)) :: unit vnode) = ''NaN''
       \<and> text_of (formatted_stat formatCount (hud_perWorkerCpuTimeRate (hud_run es)) :: unit vnode) = ''NaN''"
  using assms hud_run_invariant [of es]
  by (simp add: hud_rates_are_def rate_samples_short formatted_stat_def last_value_def undefined_to_number_def
      hud_formatters_NaN)

theorem hud_rates_start_as_NaN_witness:
  "text_of (formatted_stat formatCount (hud_rowInputRate (hud_run [HUD_Error])) :: unit vnode) = ''NaN''"
  using hud_rates_start_as_NaN [of "[HUD_Error]"] by simp

end
