(* ===== verification/PageTitle.thy ===== *)
theory PageTitle
  imports Vdom Polling
begin

text \<open>
  \<open>webapp/src/components/PageTitle.jsx\<close>: the navigation bar with the status light and the dialog that is
  opened when the server cannot be reached.
\<close>

section \<open>State\<close>

record server_info =
  si_version :: string
  si_environment :: string
  si_uptime :: string

text \<open>A rejection carries an error, shown in the dialog as text; the field \<open>pt_dialog\<close> is what the Bootstrap
  dialog was last told.\<close>

record pt_state =
  pt_noConnection :: bool
  pt_lightShown :: bool
  pt_info :: "server_info option"
  pt_lastSuccess :: int
  pt_modalShown :: bool
  pt_errorText :: "string option"
  pt_dialog :: bool
  pt_timeout :: bool
  pt_requests :: nat

definition pt_init :: "int \<Rightarrow> pt_state" where
  "pt_init now = \<lparr>pt_noConnection = False, pt_lightShown = False, pt_info = None, pt_lastSuccess = now,
     pt_modalShown = False, pt_errorText = None, pt_dialog = False, pt_timeout = False, pt_requests = 0\<rparr>"

section \<open>Polling\<close>

definition pt_resetTimer :: "pt_state \<Rightarrow> pt_state" where
  "pt_resetTimer s = s\<lparr>pt_timeout := True\<rparr>"

definition pt_refreshLoop :: "pt_state \<Rightarrow> pt_state" where
  "pt_refreshLoop s = s\<lparr>pt_timeout := False, pt_requests := pt_requests s + 1\<rparr>"

definition pt_then :: "server_info option \<Rightarrow> int \<Rightarrow> pt_state \<Rightarrow> pt_state" where
  "pt_then info now s =
     pt_resetTimer (s\<lparr>pt_info := info, pt_noConnection := False, pt_lastSuccess := now, pt_modalShown := False,
       pt_dialog := False\<rparr>)"

definition pt_catch :: "string option \<Rightarrow> int \<Rightarrow> pt_state \<Rightarrow> pt_state" where
  "pt_catch error now s =
     (let s = pt_resetTimer (s\<lparr>pt_noConnection := True, pt_lightShown := \<not> pt_lightShown s, pt_errorText := error\<rparr>) in
      if \<not> pt_modalShown s \<and> (error \<noteq> None \<or> now - pt_lastSuccess s > 30 * 1000)
      then s\<lparr>pt_dialog := True, pt_modalShown := True\<rparr> else s)"

datatype pt_event = PT_Info "server_info option" int | PT_Failure "string option" int

fun pt_handle :: "pt_event \<Rightarrow> pt_state \<Rightarrow> pt_state" where
  "pt_handle (PT_Info info now) s = pt_then info now (s\<lparr>pt_requests := pt_requests s - 1\<rparr>)"
| "pt_handle (PT_Failure error now) s = pt_catch error now (s\<lparr>pt_requests := pt_requests s - 1\<rparr>)"

section \<open>Rendering\<close>

definition renderStatusLight :: "pt_state \<Rightarrow> 'e vnode" where
  "renderStatusLight s =
     (if pt_noConnection s then
        (if pt_lightShown s then El ''span'' [cls ''status-light status-light-red'', AStr ''id'' ''status-indicator''] []
         else El ''span'' [cls ''status-light'', AStr ''id'' ''status-indicator''] [])
      else El ''span'' [cls ''status-light status-light-green'', AStr ''id'' ''status-indicator''] [])"

definition cluster_info :: "string \<Rightarrow> 'e vnode list \<Rightarrow> 'e vnode" where
  "cluster_info name kids =
     El ''li'' [] [spanC ''navbar-cluster-info'' ([spanC ''uppercase'' [Text name], El ''br'' [] []] @ kids)]"

definition title_bar :: "string \<Rightarrow> server_info \<Rightarrow> pt_state \<Rightarrow> 'e vnode" where
  "title_bar title info s =
     El ''nav'' [cls ''navbar''] [divC ''container-fluid''
       [divC ''navbar-header''
         [El ''table'' [] [El ''tbody'' [] [El ''tr'' []
           [El ''td'' [] [El ''a'' [AStr ''href'' ''/ui/''] [El ''img'' [AStr ''src'' ''assets/logo.png''] []]],
            El ''td'' [] [spanC ''navbar-brand'' [Text title]]]]]],
        El ''div'' [AStr ''id'' ''navbar'', cls ''navbar-collapse collapse'']
         [El ''ul'' [cls ''nav navbar-nav navbar-right'']
           [cluster_info ''Version''
              [El ''span'' [cls ''text uppercase'', AStr ''id'' ''version-number''] [Text (si_version info)]],
            cluster_info ''Environment''
              [El ''span'' [cls ''text uppercase'', AStr ''id'' ''environment''] [Text (si_environment info)]],
            cluster_info ''Uptime''
              [El ''span'' [AStr ''data-toggle'' ''tooltip'', AStr ''data-placement'' ''bottom'',
                   AStr ''title'' ''Connection status''] [renderStatusLight s],
               Text nbsp,
               El ''span'' [cls ''text'', AStr ''id'' ''uptime''] [Text (si_uptime info)]]]]]]"

text \<open>A stored error is an object and as such truthy.\<close>

definition no_connection_modal :: "pt_state \<Rightarrow> 'e vnode" where
  "no_connection_modal s =
     El ''div'' [AStr ''id'' ''no-connection-modal'', cls ''modal'', AStr ''tabIndex'' ''-1'', AStr ''role'' ''dialog'']
       [El ''div'' [cls ''modal-dialog modal-sm'', AStr ''role'' ''document'']
         [divC ''modal-content''
           [divC ''row error-message''
             [divC ''col-xs-12''
               [El ''br'' [] [], El ''h4'' [] [Text ''Unable to connect to server''],
                El ''p'' [] [opt_child (map_option (\<lambda>e. ''Error: '' @ e) (pt_errorText s))]]]]]]"

definition PageTitle_render :: "string \<Rightarrow> pt_state \<Rightarrow> 'e vnode" where
  "PageTitle_render title s =
     (case pt_info s of None \<Rightarrow> Nothing
      | Some info \<Rightarrow> El ''div'' [] [title_bar title info s, no_connection_modal s])"

section \<open>Properties\<close>

interpretation pt: live_poller pt_timeout pt_requests "\<lambda>s. True" pt_refreshLoop "\<lambda>e. True" pt_handle "\<lambda>s. \<exists>now. s = pt_init now"
proof unfold_locales
  fix e s
  show "pt_requests (pt_handle e s) = pt_requests s - 1" and "pt_timeout (pt_handle e s)"
    by (cases e; simp add: pt_then_def pt_catch_def pt_resetTimer_def Let_def; fail)+
qed (auto simp: pt_refreshLoop_def pt_init_def)

fun pt_failed :: "pt_event \<Rightarrow> bool" where
  "pt_failed (PT_Info info now) \<longleftrightarrow> False"
| "pt_failed (PT_Failure error now) \<longleftrightarrow> True"

text \<open>A rejected fetch or an answer that is not JSON comes with an error object.\<close>

fun pt_has_error :: "pt_event \<Rightarrow> bool" where
  "pt_has_error (PT_Info info now) \<longleftrightarrow> True"
| "pt_has_error (PT_Failure error now) \<longleftrightarrow> error \<noteq> None"

definition pt_run :: "int \<Rightarrow> pt_event list \<Rightarrow> pt_state" where
  "pt_run start es = fold pt_handle es (pt_init start)"

lemma pt_run_snoc: "pt_run start (es @ [e]) = pt_handle e (pt_run start es)"
  by (simp add: pt_run_def)

lemma pt_run_invariant:
  assumes "list_all pt_has_error es"
  shows "pt_noConnection (pt_run start es) = (es \<noteq> [] \<and> pt_failed (last es))
       \<and> pt_modalShown (pt_run start es) = pt_noConnection (pt_run start es)
       \<and> pt_dialog (pt_run start es) = pt_noConnection (pt_run start es)
       \<and> pt_lightShown (pt_run start es) = odd (length (filter pt_failed es))"
  using assms
proof (induction es rule: rev_induct)
  case Nil
  show ?case by (simp add: pt_run_def pt_init_def)
next
  case (snoc e es)
  then show ?case
    by (cases e) (auto simp: pt_run_snoc pt_then_def pt_catch_def pt_resetTimer_def Let_def)
qed



end
