(* ===== verification/WorkerStatus.thy ===== *)
theory WorkerStatus
  imports ClusterHUD Identifiers JsObject
begin

text \<open>
  \<open>webapp/src/components/WorkerStatus.jsx\<close>: the status of a worker, its histories, its polling, and the
  rendering of its memory pools.
\<close>

section \<open>State and polling\<close>

record memory_pool =
  mp_maxBytes :: jsnum
  mp_reservedBytes :: jsnum
  mp_reservedRevocableBytes :: jsnum
  mp_queryMemoryReservations :: "(string \<times> jsnum) list"
  mp_queryMemoryRevocableReservations :: "(string \<times> jsnum) list"

record worker_info =
  wi_nodeId :: string
  wi_uptime :: string
  wi_externalAddress :: string
  wi_internalAddress :: string
  wi_processors :: jsnum
  wi_processCpuLoad :: jsnum
  wi_systemCpuLoad :: jsnum
  wi_heapUsed :: jsnum
  wi_heapAvailable :: jsnum
  wi_nonHeapUsed :: jsnum
  wi_general :: "memory_pool option"
  wi_reserved :: "memory_pool option"

record ws_state =
  ws_serverInfo :: "worker_info option"
  ws_initialized :: bool
  ws_ended :: bool
  ws_processCpuLoad :: "jsnum list"
  ws_systemCpuLoad :: "jsnum list"
  ws_heapPercentUsed :: "jsnum list"
  ws_nonHeapUsed :: "jsnum list"
  ws_timeout :: bool
  ws_requests :: nat

definition ws_init :: ws_state where
  "ws_init = \<lparr>ws_serverInfo = None, ws_initialized = False, ws_ended = False, ws_processCpuLoad = [],
     ws_systemCpuLoad = [], ws_heapPercentUsed = [], ws_nonHeapUsed = [], ws_timeout = False, ws_requests = 0\<rparr>"

text \<open>There is no field \<open>query\<close>, so only \<open>ended\<close> counts.\<close>

definition ws_resetTimer :: "ws_state \<Rightarrow> ws_state" where
  "ws_resetTimer s = s\<lparr>ws_timeout := \<not> ws_ended s\<rparr>"

definition ws_url :: "string \<Rightarrow> string" where
  "ws_url search = ''/v1/worker/'' @ getFirstParameter search @ ''/status''"

definition ws_refreshLoop :: "ws_state \<Rightarrow> ws_state" where
  "ws_refreshLoop s = s\<lparr>ws_timeout := False, ws_requests := ws_requests s + 1\<rparr>"

definition ws_success :: "worker_info \<Rightarrow> ws_state \<Rightarrow> ws_state" where
  "ws_success serverInfo s =
     ws_resetTimer (s\<lparr>
       ws_serverInfo := Some serverInfo,
       ws_initialized := True,
       ws_processCpuLoad := addToHistory (js_mul (wi_processCpuLoad serverInfo) (Fin 100)) (ws_processCpuLoad s),
       ws_systemCpuLoad := addToHistory (js_mul (wi_systemCpuLoad serverInfo) (Fin 100)) (ws_systemCpuLoad s),
       ws_heapPercentUsed :=
         addToHistory (js_div (js_mul (wi_heapUsed serverInfo) (Fin 100)) (wi_heapAvailable serverInfo)) (ws_heapPercentUsed s),
       ws_nonHeapUsed := addToHistory (wi_nonHeapUsed serverInfo) (ws_nonHeapUsed s)\<rparr>)"

definition ws_error :: "ws_state \<Rightarrow> ws_state" where
  "ws_error s = ws_resetTimer (s\<lparr>ws_initialized := True\<rparr>)"

datatype ws_event = WS_Success worker_info | WS_Error

fun ws_handle :: "ws_event \<Rightarrow> ws_state \<Rightarrow> ws_state" where
  "ws_handle (WS_Success info) s = ws_success info (s\<lparr>ws_requests := ws_requests s - 1\<rparr>)"
| "ws_handle WS_Error s = ws_error (s\<lparr>ws_requests := ws_requests s - 1\<rparr>)"

definition ws_componentDidUpdate :: "ws_state \<Rightarrow> drawing list" where
  "ws_componentDidUpdate s =
     [(''#process-cpu-load-sparkline'', ws_processCpuLoad s, [ChartRangeMin0, NumberFormatter precisionRound]),
      (''#system-cpu-load-sparkline'', ws_systemCpuLoad s, [ChartRangeMin0, NumberFormatter precisionRound]),
      (''#heap-percent-used-sparkline'', ws_heapPercentUsed s, [ChartRangeMin0, NumberFormatter precisionRound]),
      (''#nonheap-used-sparkline'', ws_nonHeapUsed s, [ChartRangeMin0, NumberFormatter formatDataSize])]"

section \<open>Memory pools\<close>

text \<open>A part of the pool that is used gets at least 15 percent of the bar, so that its label fits.\<close>

definition pool_percentage :: "jsnum \<Rightarrow> jsnum \<Rightarrow> jsnum" where
  "pool_percentage used size' =
     (if js_eq used (Fin 0) then Fin 0
      else math_max (math_round (js_div (js_mul used (Fin 100)) size')) (Fin 15))"

definition pool_percentages :: "memory_pool \<Rightarrow> jsnum \<times> jsnum \<times> jsnum" where
  "pool_percentages pool =
     (let size' = mp_maxBytes pool; reserved = mp_reservedBytes pool; revocable = mp_reservedRevocableBytes pool;
          percentageReservedNonRevocable = pool_percentage (js_sub reserved revocable) size';
          percentageRevocable = pool_percentage revocable size';
          percentageFree = js_sub (Fin 100) (js_add percentageRevocable percentageReservedNonRevocable)
      in (percentageReservedNonRevocable, percentageRevocable, percentageFree))"

definition pool_bar_part :: "string \<Rightarrow> jsnum \<Rightarrow> string \<Rightarrow> 'e vnode" where
  "pool_bar_part kind percentage label =
     El ''div'' [cls (''progress-bar memory-progress-bar '' @ kind), AStr ''role'' ''progressbar'',
       AStyle [(''width'', num_str percentage @ ''%'')]] [Text label]"

definition renderPoolBar :: "string \<Rightarrow> memory_pool option \<Rightarrow> 'e vnode" where
  "renderPoolBar name pool' =
     (case pool' of None \<Rightarrow> Nothing
      | Some pool \<Rightarrow>
         (let size' = mp_maxBytes pool; reserved = mp_reservedBytes pool; revocable = mp_reservedRevocableBytes pool;
              (percentageReservedNonRevocable, percentageRevocable, percentageFree) = pool_percentages pool
          in divC ''row'' [divC ''col-xs-12''
            [divC ''row''
              [divC ''col-xs-8'' [El ''h4'' [] [Text name, Text '' Pool'']],
               divC ''col-xs-4''
                 [El ''div'' [cls ''progress'', AStyle [(''marginTop'', ''6px'')]]
                   [El ''div'' [cls ''progress-bar memory-progress-bar memory-progress-bar-info'', AStr ''role'' ''progressbar'',
                       AStyle [(''width'', ''100%'')]]
                     [Text (formatDataSize size'), Text '' total'']]]],
             divC ''row''
              [divC ''col-xs-12''
                [El ''hr'' [cls ''h4-hr''] [],
                 divC ''progress''
                  [pool_bar_part ''progress-bar-warning progress-bar-striped active'' percentageReservedNonRevocable
                     (formatDataSize (js_sub reserved revocable)),
                   pool_bar_part ''progress-bar-danger progress-bar-striped active'' percentageRevocable
                     (formatDataSize revocable),
                   pool_bar_part ''progress-bar-success'' percentageFree (formatDataSize (js_sub size' reserved))]]]]]))"

definition renderPoolQuery :: "string \<Rightarrow> jsnum \<Rightarrow> jsnum \<Rightarrow> jsnum \<Rightarrow> 'e vnode" where
  "renderPoolQuery query reserved revocable total' =
     El ''tr'' [] [El ''td'' [] [divC ''row query-memory-list-header''
       [divC ''col-xs-7''
         [El ''a'' [AStr ''href'' (''query.html?'' @ query), AStr ''target'' ''_blank''] [Text query]],
        divC ''col-xs-5''
         [divC ''row text-right''
           [divC ''col-xs-6''
             [El ''span'' [AStr ''data-toggle'' ''tooltip'', AStr ''data-placement'' ''top'',
                 AStr ''title'' ''% of pool memory reserved'']
               [Text (num_str (math_round (js_div (js_mul reserved (Fin 100)) total'))), Text ''%'']],
            divC ''col-xs-6''
             [El ''span'' [AStr ''data-toggle'' ''tooltip'', AStr ''data-placement'' ''top'',
                 AStr ''title'' (''Reserved: '' @ formatDataSize reserved @ ''. Revocable: '' @ formatDataSize revocable)]
               [Text (formatDataSize reserved)]]]]]]]"

definition add_revocable :: "(string \<times> jsnum \<times> jsnum) list \<Rightarrow> string \<times> jsnum \<Rightarrow> (string \<times> jsnum \<times> jsnum) list" where
  "add_revocable queries entry =
     (case obj_get queries (fst entry) of
        Some (reserved, revocable) \<Rightarrow> obj_set queries (fst entry) (reserved, snd entry)
      | None \<Rightarrow> obj_set queries (fst entry) (Fin 0, snd entry))"

definition pool_queries :: "memory_pool \<Rightarrow> (string \<times> jsnum \<times> jsnum) list" where
  "pool_queries pool =
     foldl add_revocable
       (foldl (\<lambda>queries entry. obj_set queries (fst entry) (snd entry, Fin 0)) [] (mp_queryMemoryReservations pool))
       (mp_queryMemoryRevocableReservations pool)"

definition renderPoolQueries :: "memory_pool option \<Rightarrow> 'e vnode" where
  "renderPoolQueries pool' =
     (case pool' of None \<Rightarrow> Nothing
      | Some pool \<Rightarrow>
         (let queries = pool_queries pool; size' = mp_maxBytes pool in
          if length queries = 0 then
            El ''div'' [] [El ''table'' [cls ''table table-condensed'']
              [El ''tbody'' [] [El ''tr'' [] [El ''td'' [] [Text ''No queries using pool'']]]]]
          else El ''div'' [] [El ''table'' [cls ''table'']
            [El ''tbody'' []
              (map (\<lambda>(key, reserved, revocable). renderPoolQuery key reserved revocable size') queries)]]))"

section \<open>The page\<close>

definition info_row :: "string \<Rightarrow> 'e vnode list \<Rightarrow> 'e vnode" where
  "info_row title kids =
     El ''tr'' [] [El ''td'' [cls ''info-title''] [Text title], El ''td'' [cls ''info-text wrap-text''] kids]"

definition copy_button :: "string \<Rightarrow> 'e vnode" where
  "copy_button target =
     El ''a'' [AStr ''href'' ''#'', cls ''copy-button'', AStr ''data-clipboard-target'' target, AStr ''data-toggle'' ''tooltip'',
         AStr ''data-placement'' ''right'', AStr ''title'' ''Copy to clipboard'']
       [El ''span'' [cls ''glyphicon glyphicon-copy'', AStr ''alt'' ''Copy to clipboard''] []]"

definition id_span :: "string \<Rightarrow> string \<Rightarrow> 'e vnode" where
  "id_span name value = El ''span'' [AStr ''id'' name] [Text value]"

definition worker_overview_left :: "worker_info \<Rightarrow> 'e vnode" where
  "worker_overview_left serverInfo =
     divC ''col-xs-6'' [El ''table'' [cls ''table''] [El ''tbody'' []
       [info_row ''Node ID''
          [id_span ''node-id'' (wi_nodeId serverInfo), Text (nbsp @ nbsp), copy_button ''#node-id''],
        info_row ''Heap Memory'' [id_span ''internal-address'' (formatDataSize (wi_heapAvailable serverInfo))],
        info_row ''Processors'' [id_span ''internal-address'' (num_str (wi_processors serverInfo))]]]]"

definition worker_overview_right :: "worker_info \<Rightarrow> 'e vnode" where
  "worker_overview_right serverInfo =
     divC ''col-xs-6'' [El ''table'' [cls ''table''] [El ''tbody'' []
       [info_row ''Uptime'' [Text (wi_uptime serverInfo)],
        info_row ''External Address''
          [id_span ''external-address'' (wi_externalAddress serverInfo), Text (nbsp @ nbsp), copy_button ''#external-address''],
        info_row ''Internal Address''
          [id_span ''internal-address'' (wi_internalAddress serverInfo), Text (nbsp @ nbsp),
           copy_button ''#internal-address'']]]]"

definition sparkline_rows :: "string \<Rightarrow> string \<Rightarrow> 'e vnode list \<Rightarrow> 'e vnode list" where
  "sparkline_rows title sparkline value =
     [El ''tr'' []
       [El ''td'' [cls ''info-title''] [Text title],
        El ''td'' [AStr ''rowSpan'' ''2'']
         [divC ''query-stats-sparkline-container''
           [El ''span'' [cls ''sparkline'', AStr ''id'' sparkline] [divC ''loader'' [Text ''Loading ...'']]]]],
      El ''tr'' [cls ''tr-noborder''] [El ''td'' [cls ''info-sparkline-text''] value]]"

definition percent_value :: "jsnum list \<Rightarrow> 'e vnode list" where
  "percent_value xs = [formatted_stat formatCount xs, Text ''%'']"

definition worker_utilization :: "ws_state \<Rightarrow> 'e vnode" where
  "worker_utilization s =
     divC ''row'' [divC ''col-xs-12''
       [El ''h3'' [] [Text ''Resource Utilization''], El ''hr'' [cls ''h3-hr''] [],
        divC ''row''
         [divC ''col-xs-6'' [El ''table'' [cls ''table''] [El ''tbody'' []
           (sparkline_rows ''Process CPU Utilization'' ''process-cpu-load-sparkline'' (percent_value (ws_processCpuLoad s)) @
            sparkline_rows ''System CPU Utilization'' ''system-cpu-load-sparkline'' (percent_value (ws_systemCpuLoad s)))]],
          divC ''col-xs-6'' [El ''table'' [cls ''table''] [El ''tbody'' []
           (sparkline_rows ''Heap Utilization'' ''heap-percent-used-sparkline'' (percent_value (ws_heapPercentUsed s)) @
            sparkline_rows ''Non-Heap Memory Used'' ''nonheap-used-sparkline''
              [formatted_stat formatDataSize (ws_nonHeapUsed s)])]]]]]"

definition worker_pools :: "worker_info \<Rightarrow> 'e vnode" where
  "worker_pools serverInfo =
     divC ''row'' [divC ''col-xs-12''
       [El ''h3'' [] [Text ''Memory Pools''], El ''hr'' [cls ''h3-hr''] [],
        divC ''row''
         [divC ''col-xs-6'' [renderPoolBar ''General'' (wi_general serverInfo), renderPoolQueries (wi_general serverInfo)],
          divC ''col-xs-6'' [renderPoolBar ''Reserved'' (wi_reserved serverInfo), renderPoolQueries (wi_reserved serverInfo)]]]]"

definition WorkerStatus_render :: "ws_state \<Rightarrow> 'e vnode" where
  "WorkerStatus_render s =
     (case ws_serverInfo s of
        None \<Rightarrow>
          (if \<not> ws_initialized s then divC ''loader'' [Text ''Loading...'']
           else divC ''row error-message'' [divC ''col-xs-12'' [El ''h4'' [] [Text ''Node information could not be loaded'']]])
      | Some serverInfo \<Rightarrow>
          El ''div'' []
            [divC ''row'' [divC ''col-xs-12''
               [El ''h3'' [] [Text ''Overview''], El ''hr'' [cls ''h3-hr''] [],
                divC ''row'' [worker_overview_left serverInfo, worker_overview_right serverInfo],
                worker_utilization s]],
             worker_pools serverInfo])"

section \<open>Properties\<close>

interpretation ws: live_poller ws_timeout ws_requests "\<lambda>s. \<not> ws_ended s" ws_refreshLoop "\<lambda>e. True" ws_handle "\<lambda>s. s = ws_init"
proof unfold_locales
  fix e s
  show "ws_requests (ws_handle e s) = ws_requests s - 1" and "\<not> ws_ended (ws_handle e s) \<Longrightarrow> ws_timeout (ws_handle e s)"
    by (cases e; simp add: ws_success_def ws_error_def ws_resetTimer_def; fail)+
qed (simp_all add: ws_refreshLoop_def ws_init_def)

text \<open>The entry of a query from its two reservations.\<close>

definition merged_entry :: "jsnum option \<Rightarrow> jsnum option \<Rightarrow> (jsnum \<times> jsnum) option" where
  "merged_entry reserved revocable =
     (if reserved = None \<and> revocable = None then None
      else Some (to_number reserved, to_number revocable))"

lemma to_number_simps: "to_number None = Fin 0" "to_number (Some x) = x"
  by (simp_all add: to_number_def)

lemma fold_reservations:
  assumes "obj_ok qs" and "distinct (map fst es)"
  shows "obj_ok (foldl (\<lambda>qs e. obj_set qs (fst e) (snd e, Fin 0)) qs es)
       \<and> obj_get (foldl (\<lambda>qs e. obj_set qs (fst e) (snd e, Fin 0)) qs es) q =
           (case map_of es q of None \<Rightarrow> obj_get qs q | Some r \<Rightarrow> Some (r, Fin 0))"
  using assms
proof (induction es arbitrary: qs)
  case (Cons e es)
  then have ok: "obj_ok (obj_set qs (fst e) (snd e, Fin 0))" by (simp add: obj.inv_put)
  have "map_of es (fst e) = None" using Cons.prems(2) by (simp add: map_of_eq_None_iff)
  with Cons.IH [OF ok] Cons.prems show ?case by (auto simp: obj.get_put split: option.splits)
qed simp

lemma add_revocable_ok: "obj_ok qs \<Longrightarrow> obj_ok (add_revocable qs e)"
  by (auto simp: add_revocable_def obj.inv_put split: option.splits)

lemma add_revocable_get:
  "obj_ok qs \<Longrightarrow> obj_get (add_revocable qs e) q =
     (if q = fst e then Some (case obj_get qs q of None \<Rightarrow> Fin 0 | Some p \<Rightarrow> fst p, snd e) else obj_get qs q)"
  by (auto simp: add_revocable_def obj.get_put split: option.splits)

lemma fold_revocable:
  assumes "obj_ok qs" and "distinct (map fst es)"
  shows "obj_ok (foldl add_revocable qs es)
       \<and> obj_get (foldl add_revocable qs es) q =
           (case map_of es q of None \<Rightarrow> obj_get qs q
            | Some v \<Rightarrow> Some (case obj_get qs q of None \<Rightarrow> Fin 0 | Some p \<Rightarrow> fst p, v))"
  using assms
proof (induction es arbitrary: qs)
  case (Cons e es)
  have "map_of es (fst e) = None" using Cons.prems(2) by (simp add: map_of_eq_None_iff)
  with Cons.IH [OF add_revocable_ok [of qs e]] Cons.prems show ?case
    by (auto simp: add_revocable_get split: option.splits)
qed simp

text \<open>
  The queries of a memory pool are the union of the two reservation tables: every query with a reservation
  of either kind is listed exactly once, with what each table holds of it and 0 where a table does not name it.
\<close>

theorem pool_queries_merged:
  assumes "obj_ok (mp_queryMemoryReservations pool)" and "obj_ok (mp_queryMemoryRevocableReservations pool)"
  shows "distinct (map fst (pool_queries pool))
       \<and> obj_get (pool_queries pool) q =
           merged_entry (obj_get (mp_queryMemoryReservations pool) q) (obj_get (mp_queryMemoryRevocableReservations pool) q)"
proof -
  define qs where "qs = foldl (\<lambda>qs e. obj_set qs (fst e) (snd e, Fin 0)) [] (mp_queryMemoryReservations pool)"
  have d: "distinct (map fst (mp_queryMemoryReservations pool))"
       "distinct (map fst (mp_queryMemoryRevocableReservations pool))" using assms by (simp_all add: obj_ok_def)
  have "obj_ok ([] :: (string \<times> jsnum \<times> jsnum) list)" by (simp add: obj_ok_def)
  from fold_reservations [OF this d(1), of q] have "obj_ok qs"
    and g: "obj_get qs q = (case map_of (mp_queryMemoryReservations pool) q of None \<Rightarrow> None | Some r \<Rightarrow> Some (r, Fin 0))"
    by (auto simp: qs_def obj_get_def split: option.splits)
  from fold_revocable [OF \<open>obj_ok qs\<close> d(2), of q] g show ?thesis
    by (auto simp: pool_queries_def qs_def merged_entry_def to_number_simps obj_get_def obj_ok_def split: option.splits)
qed

definition example_pool :: memory_pool where
  "example_pool = \<lparr>mp_maxBytes = Fin 1000, mp_reservedBytes = Fin 1000, mp_reservedRevocableBytes = Fin 10,
     mp_queryMemoryReservations = [(''q1'', Fin 300), (''q2'', Fin 690)],
     mp_queryMemoryRevocableReservations = [(''q2'', Fin 4), (''q3'', Fin 6)]\<rparr>"

theorem pool_queries_merged_witness:
  "distinct (map fst (pool_queries example_pool)) \<and> obj_get (pool_queries example_pool) ''q2'' = Some (Fin 690, Fin 4)"
  using pool_queries_merged [of example_pool "''q2''"]
  by (simp add: example_pool_def obj_ok_def obj_get_def merged_entry_def to_number_simps)

lemma fl_percent:
  assumes "1 \<le> u" and "u \<le> m" and "m \<le> 2 ^ 53"
  shows "\<exists>y. js_div (js_mul (Fin (of_int u)) (Fin 100)) (Fin (of_int m)) = Fin y
           \<and> 0 \<le> y \<and> y \<le> 100 * of_int u / of_int m + 1/1000"
proof -
  define x where "x = (of_int u :: rat) * 100"
  define y where "y = rnd x / of_int m"
  have m: "(1::rat) \<le> of_int m" "(of_int m :: rat) \<le> 2 ^ 53" "(of_int u :: rat) \<le> of_int m" "(1::rat) \<le> of_int u"
    using assms by (simp_all add: of_int_le_iff [of m "2 ^ 53", where ?'a = rat, simplified])
  have x: "1 \<le> x" "x \<le> 100 * of_int m" unfolding x_def using m by linarith+
  have ex: "\<bar>rnd x - x\<bar> \<le> x / 2 ^ 53" using rnd_error_ge_one [OF x(1)] .
  then have "rnd x \<le> x + x / 2 ^ 53" "x - x / 2 ^ 53 \<le> rnd x" by linarith+
  then have rx: "rnd x \<le> x * (1 + 1 / 2 ^ 53)" "x * (1/2) \<le> rnd x" using x(1) by (simp_all add: field_simps)
  have rx0: "0 \<le> rnd x" using x(1) by (intro rnd_nonneg) linarith
  have y0: "0 \<le> y" unfolding y_def using rx0 m(1) by simp
  have y1: "y \<le> x / of_int m * (1 + 1 / 2 ^ 53)" unfolding y_def using rx(1) m(1) by (simp add: field_simps)
  have y2: "2 powi (-1022) \<le> \<bar>y\<bar>"
  proof -
    have "1/2 \<le> rnd x" using rx(2) x(1) by linarith
    moreover have "(0::rat) < of_int m" using m(1) by linarith
    ultimately have "(1/2 :: rat) / 2 ^ 53 \<le> y" unfolding y_def using rx0 m(2) by (intro frac_le)
    moreover have "(2::rat) powi (-54) = (1/2) / 2 ^ 53" by (simp add: power_int_minus)
    ultimately have "2 powi (-54) \<le> \<bar>y\<bar>" using y0 by (simp only: abs_of_nonneg)
    moreover have "(2::rat) powi (-1022) \<le> 2 powi (-54)" by (simp only: powi_le_iff)
    ultimately show ?thesis by (rule order_trans [rotated])
  qed
  have ry: "rnd y \<le> y * (1 + 1 / 2 ^ 53)" "0 \<le> rnd y"
    using rnd_rel(2) [of y] y2 y0 rnd_nonneg [OF y0] by (simp_all only: abs_of_nonneg simp_thms)
  have xm: "x / of_int m \<le> 100" using x(2) m(1) by (simp add: field_simps)
  have "rnd y \<le> x / of_int m * (1 + 1 / 2 ^ 53) * (1 + 1 / 2 ^ 53)"
    using ry(1) mult_right_mono [OF y1, of "1 + 1 / 2 ^ 53"] by simp
  also have "\<dots> = x / of_int m + x / of_int m * ((1 + 1 / 2 ^ 53) * (1 + 1 / 2 ^ 53) - 1)" by (simp add: algebra_simps)
  also have "\<dots> \<le> x / of_int m + 100 * ((1 + 1 / 2 ^ 53) * (1 + 1 / 2 ^ 53) - 1)"
    using xm by (intro add_left_mono mult_right_mono) simp_all
  also have "\<dots> \<le> x / of_int m + 1/1000" by simp
  finally have up: "rnd y \<le> x / of_int m + 1/1000" .
  have nh: "\<not> is_huge r" if "0 \<le> r" "r \<le> 2 ^ 62" for r
  proof (rule not_huge_powi [of _ 63])
    show "\<bar>r\<bar> < 2 powi 63" using that by simp
  qed simp
  have "\<not> is_huge (rnd x)" using rx0 rx(1) x(2) m(2) by (intro nh) simp_all
  moreover have "\<not> is_huge (rnd y)" using ry(2) up xm by (intro nh) simp_all
  moreover have "of_int m \<noteq> (0::rat)" using m(1) by linarith
  ultimately have "js_div (js_mul (Fin (of_int u)) (Fin 100)) (Fin (of_int m)) = Fin (rnd y)"
    by (simp add: x_def [symmetric] y_def [symmetric] fl_def)
  then show ?thesis using up ry(2) by (intro exI [of _ "rnd y"]) (simp add: x_def mult.commute)
qed

lemma pool_percentage_value:
  assumes "0 \<le> u" and "u \<le> m" and "1 \<le> m" and "m \<le> 2 ^ 53"
  shows "\<exists>p::int. pool_percentage (Fin (of_int u)) (Fin (of_int m)) = Fin (of_int p)
     \<and> (p = 0 \<or> p = 15 \<or> 15 \<le> p \<and> (of_int p :: rat) \<le> 100 * of_int u / of_int m + 501/1000)"
proof (cases "u = 0")
  case True
  then show ?thesis by (intro exI [of _ 0]) (simp add: pool_percentage_def js_eq_def)
next
  case False
  with assms fl_percent [of u m] obtain y where
    y: "js_div (js_mul (Fin (of_int u)) (Fin 100)) (Fin (of_int m)) = Fin y" "y \<le> 100 * of_int u / of_int m + 1/1000"
    by auto
  define p where "p = \<lfloor>y + 1/2\<rfloor>"
  have "(of_int p :: rat) \<le> y + 1/2" by (simp add: p_def)
  then have "(of_int p :: rat) \<le> 100 * of_int u / of_int m + 501/1000" using y(2) by linarith
  moreover have "pool_percentage (Fin (of_int u)) (Fin (of_int m)) = Fin (of_int (max p 15))"
    using False y(1) by (simp add: pool_percentage_def js_eq_def math_max_def p_def [symmetric] max_def)
  ultimately show ?thesis by (intro exI [of _ "max p 15"]) (auto simp: max_def)
qed



end
