(* ===== verification/JsRegex.thy ===== *)
theory JsRegex
  imports JsString
begin

text \<open>
  Matching of regular expressions by backtracking: a pattern is a predicate on the rest of the subject, built from its
  end, and a search tries every position.  Each combinator has its declarative reading as a lemma.
\<close>

fun rx_char :: "(char \<Rightarrow> bool) \<Rightarrow> (string \<Rightarrow> bool) \<Rightarrow> string \<Rightarrow> bool" where
  "rx_char p k [] \<longleftrightarrow> False"
| "rx_char p k (c # cs) \<longleftrightarrow> p c \<and> k cs"

fun rx_star :: "(char \<Rightarrow> bool) \<Rightarrow> (string \<Rightarrow> bool) \<Rightarrow> string \<Rightarrow> bool" where
  "rx_star p k [] \<longleftrightarrow> k []"
| "rx_star p k (c # cs) \<longleftrightarrow> k (c # cs) \<or> p c \<and> rx_star p k cs"

fun rx_search :: "(string \<Rightarrow> bool) \<Rightarrow> string \<Rightarrow> bool" where
  "rx_search k [] \<longleftrightarrow> k []"
| "rx_search k (c # cs) \<longleftrightarrow> k (c # cs) \<or> rx_search k cs"

abbreviation rx_lit :: "char \<Rightarrow> (string \<Rightarrow> bool) \<Rightarrow> string \<Rightarrow> bool" where
  "rx_lit c \<equiv> rx_char (\<lambda>d. d = c)"

text \<open>What the dot matches: every character but the line terminators.\<close>

definition rx_dot :: "char \<Rightarrow> bool" where
  "rx_dot c \<longleftrightarrow> c \<noteq> CHR 0x0A \<and> c \<noteq> CHR 0x0D"

lemma rx_lit_iff: "rx_lit c k s \<longleftrightarrow> (\<exists>v. s = c # v \<and> k v)"
  by (cases s) auto

lemma rx_star_iff: "rx_star p k s \<longleftrightarrow> (\<exists>u v. s = u @ v \<and> list_all p u \<and> k v)"
proof (induction s)
  case (Cons c cs)
  show ?case
  proof
    assume "rx_star p k (c # cs)"
    then consider "k (c # cs)" | "p c" "rx_star p k cs" by auto
    then show "\<exists>u v. c # cs = u @ v \<and> list_all p u \<and> k v"
    proof cases
      case 1
      then show ?thesis by (intro exI [of _ "[]"] exI [of _ "c # cs"]) simp
    next
      case 2
      then obtain u v where "cs = u @ v" "list_all p u" "k v" using Cons.IH by blast
      with 2 show ?thesis by (intro exI [of _ "c # u"] exI [of _ v]) simp
    qed
  next
    assume "\<exists>u v. c # cs = u @ v \<and> list_all p u \<and> k v"
    then obtain u v where "c # cs = u @ v" "list_all p u" "k v" by blast
    then show "rx_star p k (c # cs)"
    proof (cases u)
      case (Cons d w)
      with \<open>c # cs = u @ v\<close> \<open>list_all p u\<close> \<open>k v\<close> have "p c" and "\<exists>u v. cs = u @ v \<and> list_all p u \<and> k v" by auto
      with Cons.IH show ?thesis by simp
    next
      case Nil
      with \<open>c # cs = u @ v\<close> \<open>k v\<close> have "k (c # cs)" by simp
      then show ?thesis by simp
    qed
  qed
qed simp

lemma rx_search_iff: "rx_search k s \<longleftrightarrow> (\<exists>u v. s = u @ v \<and> k v)"
proof -
  have "rx_search k s = rx_star (\<lambda>c. True) k s" by (induction s) simp_all
  then show ?thesis by (simp add: rx_star_iff list_all_iff)
qed

end
