(* ===== verification/WorkerThreadList.thy ===== *)
theory WorkerThreadList
  imports JsRegex JsObject Vdom Identifiers
begin

text \<open>
  \<open>webapp/src/components/WorkerThreadList.jsx\<close>: snapshots of the threads of a worker, grouped by name and filtered by
  group and state.  How the browser prints the time of a snapshot is an argument of the rendering.
\<close>

section \<open>Names\<close>

definition ALL_THREADS :: string where
  "ALL_THREADS = ''All Threads''"

definition QUERY_THREADS :: string where
  "QUERY_THREADS = ''Running Queries''"

definition ALL_THREAD_STATE :: string where
  "ALL_THREAD_STATE = ''ALL''"

definition THREAD_STATES :: "string list" where
  "THREAD_STATES = [ALL_THREAD_STATE, ''RUNNABLE'', ''BLOCKED'', ''WAITING'', ''TIMED_WAITING'', ''NEW'', ''TERMINATED'']"

definition QUERY_THREAD_REGEX :: "string \<Rightarrow> bool" where
  "QUERY_THREAD_REGEX = rx_search
     (rx_star is_digit (rx_lit (CHR ''_'') (rx_star is_digit (rx_lit (CHR ''_'') (rx_star is_digit (rx_lit (CHR ''_'')
       (rx_star rx_dot (rx_lit (CHR ''.'') (rx_star is_digit (rx_lit (CHR ''.'') (rx_star is_digit (rx_lit (CHR ''-'')
         (rx_star is_digit (rx_lit (CHR ''-'') (rx_star is_digit (\<lambda>rest. True))))))))))))))))"

text \<open>The lazy group of \<open>THREAD_GROUP_REGEXP\<close> at one position, and the search for the first position.\<close>

fun lazy_group :: "string \<Rightarrow> string option" where
  "lazy_group (c # d # cs) =
     (if c = CHR ''-'' \<and> is_digit d then Some []
      else if rx_dot c then map_option (\<lambda>g. c # g) (lazy_group (d # cs)) else None)"
| "lazy_group cs = None"

fun THREAD_GROUP_REGEXP_exec :: "string \<Rightarrow> string option" where
  "THREAD_GROUP_REGEXP_exec [] = lazy_group []"
| "THREAD_GROUP_REGEXP_exec (c # cs) =
     (case lazy_group (c # cs) of Some g \<Rightarrow> Some g | None \<Rightarrow> THREAD_GROUP_REGEXP_exec cs)"

section \<open>Snapshots\<close>

record stack_line =
  sl_className :: string
  sl_method :: string
  sl_file :: "string option"
  sl_line :: jsnum

record thread_info =
  t_id :: jsnum
  t_name :: string
  t_state :: string
  t_lockOwnerId :: "jsnum option"
  t_stackTrace :: "stack_line list"

definition threadGroup :: "thread_info \<Rightarrow> string" where
  "threadGroup thread = (case THREAD_GROUP_REGEXP_exec (t_name thread) of Some g \<Rightarrow> g | None \<Rightarrow> t_name thread)"

type_synonym groups = "(string \<times> thread_info list) list"

text \<open>
  The array under \<open>ALL_THREADS\<close> is the array the loop runs over, so it is kept apart from the other groups: a push to it
  lengthens the loop.  A group that was not created but is inherited has no \<open>push\<close>.
\<close>

definition push_query :: "thread_info \<Rightarrow> groups \<Rightarrow> groups" where
  "push_query thread result =
     (if QUERY_THREAD_REGEX (t_name thread)
      then obj_set result QUERY_THREADS ((case obj_get result QUERY_THREADS of Some ts \<Rightarrow> ts | None \<Rightarrow> []) @ [thread])
      else result)"

definition push_group :: "thread_info \<Rightarrow> thread_info list \<times> groups \<Rightarrow> (thread_info list \<times> groups) option" where
  "push_group thread st =
     (let g = threadGroup thread; (threads, result) = st in
      if g = ALL_THREADS then Some (threads @ [thread], result)
      else (case obj_get result g of
              Some ts \<Rightarrow> Some (threads, obj_set result g (ts @ [thread]))
            | None \<Rightarrow> if g \<in> set proto_names then None else Some (threads, obj_set result g [thread])))"

text \<open>The loop: \<open>None\<close> when it does not end, \<open>Inl\<close> when a push raises.\<close>

partial_function (option) threads_loop :: "nat \<Rightarrow> thread_info list \<times> groups \<Rightarrow> (exn + thread_info list \<times> groups) option" where
  "threads_loop i st =
     (if i < length (fst st) then
        (let thread = fst st ! i; next' = push_group thread (fst st, push_query thread (snd st)) in
         if next' = None then Some (Inl TypeError) else threads_loop (Suc i) (the next'))
      else Some (Inr st))"

declare threads_loop.simps [code]

definition processThreads :: "thread_info list \<Rightarrow> (exn + groups) option" where
  "processThreads threads =
     map_option (res_map (\<lambda>st. (ALL_THREADS, fst st) # snd st)) (threads_loop 0 (threads, [(QUERY_THREADS, [])]))"

text \<open>The fields \<open>serverInfo\<close> and \<open>ended\<close> of the state are never used.\<close>

record wtl_state =
  wtl_initialized :: bool
  wtl_threads :: "groups option"
  wtl_snapshotTime :: int
  wtl_selectedGroup :: string
  wtl_selectedThreadState :: string
  wtl_requests :: nat

definition wtl_init :: wtl_state where
  "wtl_init = \<lparr>wtl_initialized = False, wtl_threads = None, wtl_snapshotTime = 0, wtl_selectedGroup = ALL_THREADS,
     wtl_selectedThreadState = ALL_THREAD_STATE, wtl_requests = 0\<rparr>"

definition captureSnapshot :: "wtl_state \<Rightarrow> wtl_state" where
  "captureSnapshot s = s\<lparr>wtl_requests := wtl_requests s + 1\<rparr>"

definition captureSnapshot_url :: "string \<Rightarrow> string" where
  "captureSnapshot_url search = ''/v1/worker/'' @ getFirstParameter search @ ''/thread''"

definition captureSnapshot_success :: "thread_info list \<Rightarrow> int \<Rightarrow> wtl_state \<Rightarrow> (exn + wtl_state) option" where
  "captureSnapshot_success threads now s =
     map_option (res_map (\<lambda>groups. s\<lparr>wtl_threads := Some groups, wtl_snapshotTime := now, wtl_initialized := True\<rparr>))
       (processThreads threads)"

definition captureSnapshot_error :: "wtl_state \<Rightarrow> wtl_state" where
  "captureSnapshot_error s = s\<lparr>wtl_initialized := True\<rparr>"

definition handleGroupClick :: "string \<Rightarrow> wtl_state \<Rightarrow> wtl_state" where
  "handleGroupClick selectedGroup s = s\<lparr>wtl_selectedGroup := selectedGroup\<rparr>"

definition handleThreadStateClick :: "string \<Rightarrow> wtl_state \<Rightarrow> wtl_state" where
  "handleThreadStateClick selectedThreadState s = s\<lparr>wtl_selectedThreadState := selectedThreadState\<rparr>"

definition handleNewSnapshotClick :: "wtl_state \<Rightarrow> wtl_state" where
  "handleNewSnapshotClick s = captureSnapshot (s\<lparr>wtl_initialized := False\<rparr>)"

definition filterThreads :: "wtl_state \<Rightarrow> string \<Rightarrow> string \<Rightarrow> exn + thread_info list" where
  "filterThreads s grp state =
     res_map (filter (\<lambda>t. t_state t = state \<or> state = ALL_THREAD_STATE))
       (res_of_option TypeError (Option.bind (wtl_threads s) (\<lambda>threads. obj_get threads grp)))"

section \<open>Rendering\<close>

datatype wtl_event = WTL_Group string | WTL_State string | WTL_NewSnapshot

definition filter_item :: "bool \<Rightarrow> wtl_event \<Rightarrow> string \<Rightarrow> thread_info list \<Rightarrow> wtl_event vnode" where
  "filter_item selected e name ts =
     Keyed name (El ''li'' [] [El ''a'' [AStr ''href'' ''#'', cls (if selected then ''selected'' else []), AOn ''onClick'' e]
       [Text name, Text '' ('', Text (nat_str (length ts)), Text '')'']])"

definition renderGroupListItem :: "wtl_state \<Rightarrow> string \<Rightarrow> exn + wtl_event vnode" where
  "renderGroupListItem s grp =
     res_map (filter_item (wtl_selectedGroup s = grp) (WTL_Group grp) grp)
       (filterThreads s grp (wtl_selectedThreadState s))"

definition renderThreadStateListItem :: "wtl_state \<Rightarrow> string \<Rightarrow> exn + wtl_event vnode" where
  "renderThreadStateListItem s threadState =
     res_map (filter_item (wtl_selectedThreadState s = threadState) (WTL_State threadState) threadState)
       (filterThreads s (wtl_selectedGroup s) threadState)"

definition renderStackLine :: "jsnum \<Rightarrow> nat \<times> stack_line \<Rightarrow> 'e vnode" where
  "renderStackLine threadId entry =
     (let (index, stackLine) = entry in
      Keyed (num_str (js_add threadId (js_nat index))) (El ''div'' []
        [Text (nbsp @ nbsp @ ''at ''), Text (sl_className stackLine), Text ''.'', Text (sl_method stackLine), Text ''('',
         spanC ''font-light'' [opt_child (sl_file stackLine), Text '':'', num_child (sl_line stackLine)], Text '')'']))"

definition renderThread :: "thread_info \<Rightarrow> 'e vnode" where
  "renderThread threadInfo =
     Keyed (num_str (t_id threadInfo)) (El ''div'' []
       [spanC ''font-white''
          [Text (t_name threadInfo), Text '' '', Text (t_state threadInfo), Text '' #'', num_child (t_id threadInfo), Text '' '',
           opt_child (map_option num_str (t_lockOwnerId threadInfo))],
        El ''a'' [cls ''copy-button'', AStr ''data-clipboard-target'' (''#stack-trace-'' @ num_str (t_id threadInfo)),
            AStr ''data-toggle'' ''tooltip'', AStr ''data-placement'' ''right'', AStr ''title'' ''Copy to clipboard'']
          [El ''span'' [cls ''glyphicon glyphicon-copy'', AStr ''alt'' ''Copy to clipboard''] []],
        El ''br'' [] [],
        El ''span'' [cls ''stack-traces'', AStr ''id'' (''stack-trace-'' @ num_str (t_id threadInfo))]
          (map (renderStackLine (t_id threadInfo)) (enumerate 0 (t_stackTrace threadInfo))),
        El ''div'' [] [Text nbsp]])"

definition snapshot_button :: "string \<Rightarrow> wtl_event vnode" where
  "snapshot_button name = El ''button'' [cls ''btn btn-info live-button'', AOn ''onClick'' WTL_NewSnapshot] [Text name]"

definition thread_menu :: "string \<Rightarrow> string \<Rightarrow> wtl_event vnode list \<Rightarrow> wtl_event vnode" where
  "thread_menu name selected items =
     El ''td'' [] [divC ''input-group-btn text-right''
       [El ''button'' [AStr ''type'' ''button'', cls ''btn btn-default dropdown-toggle pull-right text-right'',
            AStr ''data-toggle'' ''dropdown'', AStr ''aria-haspopup'' ''true'', AStr ''aria-expanded'' ''false'']
          [El ''strong'' [] [Text name], Text '' '', Text selected, Text '' '', spanC ''caret'' []],
        El ''ul'' [cls ''dropdown-menu''] items]]"

definition thread_toolbar :: "(int \<Rightarrow> string) \<Rightarrow> groups \<Rightarrow> wtl_state \<Rightarrow> exn + wtl_event vnode" where
  "thread_toolbar toTimeString threads s =
     res_bind (res_mapM (renderGroupListItem s) (object_keys threads)) (\<lambda>groupItems.
     res_map (\<lambda>stateItems.
       divC ''col-xs-9'' [El ''table'' [cls ''header-inline-links''] [El ''tbody'' [] [El ''tr'' []
         [El ''td'' []
           [El ''small'' [] [Text ''Snapshot at '', Text (toTimeString (wtl_snapshotTime s))], Text (nbsp @ nbsp)],
          El ''td'' [] [snapshot_button ''New Snapshot'', Text (nbsp @ nbsp @ '' '' @ nbsp @ nbsp)],
          thread_menu ''Group:'' (wtl_selectedGroup s) groupItems,
          thread_menu ''State:'' (wtl_selectedThreadState s) stateItems]]]])
       (res_mapM (renderThreadStateListItem s) THREAD_STATES))"

definition message_row :: "'e vnode list \<Rightarrow> 'e vnode" where
  "message_row kids = divC ''row error-message'' [divC ''col-xs-12'' kids]"

definition quoted :: "string \<Rightarrow> string" where
  "quoted name = [CHR 0x27] @ name @ [CHR 0x27]"

definition displayed_threads :: "wtl_state \<Rightarrow> thread_info list \<Rightarrow> 'e vnode" where
  "displayed_threads s filteredThreads =
     (if length filteredThreads = 0 \<and> wtl_selectedThreadState s = ALL_THREAD_STATE then
        message_row [El ''h4'' [] [Text (''No threads in group '' @ quoted (wtl_selectedGroup s))]]
      else if length filteredThreads = 0 \<and> wtl_selectedGroup s = ALL_THREADS then
        message_row [El ''h4'' [] [Text ''No threads with state '', Text (wtl_selectedThreadState s)]]
      else if length filteredThreads = 0 then
        message_row [El ''h4'' []
          [Text (''No threads in group '' @ quoted (wtl_selectedGroup s)), Text '' with state '', Text (wtl_selectedThreadState s)]]
      else El ''pre'' [] (map renderThread filteredThreads))"

text \<open>The toolbar and the display.\<close>

definition thread_parts :: "(int \<Rightarrow> string) \<Rightarrow> wtl_state \<Rightarrow> exn + wtl_event vnode \<times> wtl_event vnode" where
  "thread_parts toTimeString s =
     (case wtl_threads s of
        None \<Rightarrow>
          Inr (Nothing,
            if \<not> wtl_initialized s then message_row [snapshot_button ''Capture Snapshot'']
            else message_row [El ''h4'' [] [Text ''Thread snapshot could not be loaded'']])
      | Some threads \<Rightarrow>
          res_bind (thread_toolbar toTimeString threads s) (\<lambda>toolbar.
          res_map (\<lambda>ts. (toolbar, El ''div'' [AStr ''id'' ''stack-traces''] [displayed_threads s ts]))
            (filterThreads s (wtl_selectedGroup s) (wtl_selectedThreadState s))))"

definition WorkerThreadList_render :: "(int \<Rightarrow> string) \<Rightarrow> wtl_state \<Rightarrow> exn + wtl_event vnode" where
  "WorkerThreadList_render toTimeString s =
     res_map (\<lambda>(toolbar, display).
       El ''div'' []
         [divC ''row''
           [divC ''col-xs-3''
             [El ''h3'' []
               [Text ''Thread Snapshot'',
                El ''a'' [cls ''btn copy-button'', AStr ''data-clipboard-target'' ''#stack-traces'', AStr ''data-toggle'' ''tooltip'',
                    AStr ''data-placement'' ''right'', AStr ''title'' ''Copy to clipboard'']
                  [El ''span'' [cls ''glyphicon glyphicon-copy'', AStr ''alt'' ''Copy to clipboard''] []],
                Text nbsp]],
            toolbar],
          divC ''row'' [divC ''col-xs-12'' [El ''hr'' [cls ''h3-hr''] [], display]]])
       (thread_parts toTimeString s)"

section \<open>Grouping\<close>

text \<open>The names the grouping reserves for itself or inherits.\<close>

definition reserved_groups :: "string set" where
  "reserved_groups = {ALL_THREADS, QUERY_THREADS} \<union> set proto_names"

definition groups_spec :: "thread_info list \<Rightarrow> groups \<Rightarrow> bool" where
  "groups_spec threads result \<longleftrightarrow>
     obj_ok result \<and>
     obj_get result QUERY_THREADS = Some (filter (\<lambda>t. QUERY_THREAD_REGEX (t_name t)) threads) \<and>
     (\<forall>g. g \<noteq> QUERY_THREADS \<longrightarrow> obj_get result g =
        (case filter (\<lambda>t. threadGroup t = g) threads of [] \<Rightarrow> None | ts \<Rightarrow> Some ts))"

lemma push_query_spec:
  assumes "obj_ok result" and "obj_get result QUERY_THREADS = Some ts"
  shows "obj_ok (push_query t result)"
    and "obj_get (push_query t result) = (obj_get result)(QUERY_THREADS \<mapsto> ts @ filter (\<lambda>t. QUERY_THREAD_REGEX (t_name t)) [t])"
  using assms by (auto simp: push_query_def obj.inv_put obj.get_put)

lemma push_group_spec:
  assumes "groups_spec ts result" and "threadGroup t \<notin> reserved_groups"
  shows "\<exists>result'. push_group t (all, push_query t result) = Some (all, result') \<and> groups_spec (ts @ [t]) result'"
proof -
  let ?q = "push_query t result" and ?g = "threadGroup t"
  have ok: "obj_ok result" and q: "obj_get result QUERY_THREADS = Some (filter (\<lambda>t. QUERY_THREAD_REGEX (t_name t)) ts)"
    and o: "\<And>g. g \<noteq> QUERY_THREADS \<Longrightarrow>
      obj_get result g = (case filter (\<lambda>t. threadGroup t = g) ts of [] \<Rightarrow> None | ts \<Rightarrow> Some ts)"
    using assms(1) by (auto simp: groups_spec_def)
  have g: "?g \<noteq> ALL_THREADS" "?g \<noteq> QUERY_THREADS" "?g \<notin> set proto_names"
    using assms(2) by (auto simp: reserved_groups_def)
  note pq = push_query_spec [OF ok q, of t]
  have old: "obj_get ?q ?g = (case filter (\<lambda>t. threadGroup t = ?g) ts of [] \<Rightarrow> None | ts \<Rightarrow> Some ts)"
    using pq(2) o [OF g(2)] g(2) by simp
  define result' where "result' = obj_set ?q ?g (filter (\<lambda>t. threadGroup t = ?g) ts @ [t])"
  have "push_group t (all, ?q) = Some (all, result')"
    using old g by (auto simp: push_group_def result'_def split: list.splits)
  moreover have "groups_spec (ts @ [t]) result'"
    using pq o g by (auto simp: groups_spec_def result'_def obj.inv_put obj.get_put split: list.splits)
  ultimately show ?thesis by blast
qed

lemma threads_loop_ends:
  assumes "list_all (\<lambda>t. threadGroup t \<notin> reserved_groups) threads"
    and "groups_spec (take i threads) result" and "i \<le> length threads"
  shows "\<exists>result'. threads_loop i (threads, result) = Some (Inr (threads, result')) \<and> groups_spec threads result'"
  using assms(2,3)
proof (induction "length threads - i" arbitrary: i result)
  case 0
  then show ?case by (subst threads_loop.simps) simp
next
  case (Suc n)
  then have i: "i < length threads" and t: "take (Suc i) threads = take i threads @ [threads ! i]"
    by (simp_all add: take_Suc_conv_app_nth)
  have "threadGroup (threads ! i) \<notin> reserved_groups" using assms(1) i by (simp add: list_all_length)
  with push_group_spec [OF Suc.prems(1), of "threads ! i" threads] obtain r where
    r: "push_group (threads ! i) (threads, push_query (threads ! i) result) = Some (threads, r)"
       "groups_spec (take (Suc i) threads) r" unfolding t by blast
  have "threads_loop i (threads, result) = threads_loop (Suc i) (threads, r)"
    using i r(1) by (subst threads_loop.simps) simp
  with Suc.hyps(1) [of "Suc i" r] Suc.hyps(2) r(2) i show ?case by simp
qed

lemma groups_spec_start: "groups_spec [] [(QUERY_THREADS, [])]"
  by (auto simp: groups_spec_def obj_ok_def obj_get_def)

text \<open>
  C15: a snapshot is grouped completely: the loop ends, all threads are under their heading, the threads of queries
  under theirs, and every other group holds exactly the threads whose names give that group, in their order.  This
  needs that no thread name gives a group the page reserves or every object inherits.
\<close>

theorem thread_groups_complete:
  assumes "list_all (\<lambda>t. threadGroup t \<notin> reserved_groups) threads"
  shows "\<exists>result. processThreads threads = Some (Inr result) \<and> obj_ok result
     \<and> obj_get result ALL_THREADS = Some threads
     \<and> obj_get result QUERY_THREADS = Some (filter (\<lambda>t. QUERY_THREAD_REGEX (t_name t)) threads)
     \<and> (\<forall>g. g \<notin> {ALL_THREADS, QUERY_THREADS} \<longrightarrow> obj_get result g =
          (case filter (\<lambda>t. threadGroup t = g) threads of [] \<Rightarrow> None | ts \<Rightarrow> Some ts))"
proof -
  from threads_loop_ends [OF assms, of 0] groups_spec_start obtain r where
    r: "threads_loop 0 (threads, [(QUERY_THREADS, [])]) = Some (Inr (threads, r))" "groups_spec threads r" by auto
  have "filter (\<lambda>t. threadGroup t = ALL_THREADS) threads = []"
    using assms by (auto simp: filter_empty_conv list_all_iff reserved_groups_def)
  moreover have "ALL_THREADS \<noteq> QUERY_THREADS" by (simp add: ALL_THREADS_def QUERY_THREADS_def)
  ultimately have "obj_get r ALL_THREADS = None" using r(2) by (simp add: groups_spec_def)
  then have "ALL_THREADS \<notin> fst ` set r" by (simp add: obj_get_def map_of_eq_None_iff)
  with r \<open>ALL_THREADS \<noteq> QUERY_THREADS\<close> show ?thesis
    by (auto simp: processThreads_def groups_spec_def obj_ok_def obj_get_def)
qed

definition example_thread :: "int \<Rightarrow> string \<Rightarrow> thread_info" where
  "example_thread i name = \<lparr>t_id = Fin (of_int i), t_name = name, t_state = ''RUNNABLE'', t_lockOwnerId = None, t_stackTrace = []\<rparr>"

lemma example_groups:
  "threadGroup (example_thread i ''http-worker-12'') = ''http-worker''"
  "threadGroup (example_thread i ''20200101_000000_00001_abcde.1.0-3-77'') = ''20200101_000000_00001_abcde.1.0''"
  "threadGroup (example_thread i ''main'') = ''main''"
  "threadGroup (example_thread i ''All Threads-1'') = ALL_THREADS"
  by (simp_all add: threadGroup_def example_thread_def ALL_THREADS_def rx_dot_def is_digit_def code_unit_def)

theorem thread_groups_complete_witness:
  "\<exists>result. processThreads [example_thread 1 ''http-worker-12'', example_thread 2 ''main''] = Some (Inr result)
     \<and> obj_get result ''main'' = Some [example_thread 2 ''main'']"
proof -
  let ?ts = "[example_thread 1 ''http-worker-12'', example_thread 2 ''main'']"
  have "list_all (\<lambda>t. threadGroup t \<notin> reserved_groups) ?ts"
    by (simp add: example_groups reserved_groups_def ALL_THREADS_def QUERY_THREADS_def proto_names_def)
  from thread_groups_complete [OF this] obtain r where
    r: "processThreads ?ts = Some (Inr r)" and g: "\<forall>g. g \<notin> {ALL_THREADS, QUERY_THREADS} \<longrightarrow>
      obj_get r g = (case filter (\<lambda>t. threadGroup t = g) ?ts of [] \<Rightarrow> None | ts \<Rightarrow> Some ts)" by blast
  from g [rule_format, of "''main''"] have "obj_get r ''main'' = Some [example_thread 2 ''main'']"
    by (simp add: example_groups ALL_THREADS_def QUERY_THREADS_def)
  with r show ?thesis by blast
qed

section \<open>Names that break the grouping\<close>

lemma push_group_cases:
  assumes "push_group t (all, result) = Some st"
  shows "fst st = (if threadGroup t = ALL_THREADS then all @ [t] else all)"
  using assms by (auto simp: push_group_def Let_def split: if_splits option.splits)

lemma push_group_raises:
  assumes "push_group t (all, result) = None"
  shows "threadGroup t \<in> set proto_names"
  using assms by (auto simp: push_group_def Let_def split: if_splits option.splits)

text \<open>How the loop can end: normally, if no thread still to come is sent to the array the loop runs over, or with an
  error, if the group of some thread is inherited.\<close>

definition loop_end :: "nat \<Rightarrow> thread_info list \<Rightarrow> exn + thread_info list \<times> groups \<Rightarrow> bool" where
  "loop_end i threads y =
     (case y of Inr st \<Rightarrow> \<forall>j < length threads. i \<le> j \<longrightarrow> threadGroup (threads ! j) \<noteq> ALL_THREADS
      | Inl e \<Rightarrow> \<exists>t \<in> set threads. threadGroup t \<in> set proto_names)"

lemma loop_end_step:
  assumes "i < length threads"
    and "loop_end (Suc i) (if threadGroup (threads ! i) = ALL_THREADS then threads @ [threads ! i] else threads) y"
  shows "loop_end i threads y"
proof (cases y)
  case (Inl e)
  then show ?thesis
    using assms(2) nth_mem [OF assms(1)] by (auto simp: loop_end_def intro: bexI [of _ "threads ! i"] split: if_splits)
next
  case (Inr st)
  have "threadGroup (threads ! i) \<noteq> ALL_THREADS"
  proof
    assume a: "threadGroup (threads ! i) = ALL_THREADS"
    with assms(2) Inr have "\<forall>j < Suc (length threads). Suc i \<le> j \<longrightarrow> threadGroup ((threads @ [threads ! i]) ! j) \<noteq> ALL_THREADS"
      by (simp add: loop_end_def)
    from this [rule_format, of "length threads"] assms(1) a show False by simp
  qed
  then show ?thesis
    using assms(2) Inr by (auto simp: loop_end_def Suc_le_eq le_less)
qed

lemma threads_loop_end: "threads_loop i st = Some y \<Longrightarrow> loop_end i (fst st) y"
proof (rule threads_loop.raw_induct [where P = "\<lambda>i st y. loop_end i (fst st) y"])
  fix loop i st y
  assume IH: "\<And>i st y. loop i st = Some y \<Longrightarrow> loop_end i (fst st) y"
    and step: "(if i < length (fst st) then
        (let thread = fst st ! i; next' = push_group thread (fst st, push_query thread (snd st)) in
         if next' = None then Some (Inl TypeError) else loop (Suc i) (the next'))
      else Some (Inr st)) = Some y"
  show "loop_end i (fst st) y"
  proof (cases "i < length (fst st)")
    case False
    with step show ?thesis by (auto simp: loop_end_def)
  next
    case True
    let ?t = "fst st ! i"
    show ?thesis
    proof (cases "push_group ?t (fst st, push_query ?t (snd st))")
      case None
      with True step have "y = Inl TypeError" by (simp add: Let_def)
      with push_group_raises [OF None] nth_mem [OF True] show ?thesis by (auto simp: loop_end_def)
    next
      case (Some st')
      with step True have "loop (Suc i) st' = Some y" by (simp add: Let_def)
      from IH [OF this] push_group_cases [OF Some] loop_end_step [OF True] show ?thesis by simp
    qed
  qed
qed

text \<open>
  C25: a thread whose group is named like the heading of all threads hangs the page: the loop pushes it to the array it
  runs over and never ends.
\<close>

theorem thread_name_hangs_page:
  assumes "thread \<in> set threads" and "threadGroup thread = ALL_THREADS"
    and "list_all (\<lambda>t. threadGroup t \<notin> set proto_names) threads"
  shows "processThreads threads = None"
proof (cases "threads_loop 0 (threads, [(QUERY_THREADS, [])])")
  case (Some y)
  from threads_loop_end [OF this] assms show ?thesis
    by (cases y) (auto simp: loop_end_def list_all_iff in_set_conv_nth)
qed (simp add: processThreads_def)

theorem thread_name_hangs_page_witness:
  "processThreads [example_thread 1 ''http-worker-12'', example_thread 2 ''All Threads-1''] = None"
  by (rule thread_name_hangs_page [of "example_thread 2 ''All Threads-1''"])
    (simp_all add: example_groups, simp_all add: ALL_THREADS_def proto_names_def)

section \<open>Rendering\<close>

lemma filterThreads_ok:
  "wtl_threads s = Some groups \<Longrightarrow> (\<exists>ts. filterThreads s g st = Inr ts) \<longleftrightarrow> obj_get groups g \<noteq> None"
  by (cases "obj_get groups g") (auto simp: filterThreads_def res_of_option_def)

lemma filterThreads_Inr:
  "wtl_threads s = Some groups \<Longrightarrow> obj_get groups g = Some ts \<Longrightarrow>
   filterThreads s g st = Inr (filter (\<lambda>t. t_state t = st \<or> st = ALL_THREAD_STATE) ts)"
  by (simp add: filterThreads_def res_of_option_def)

lemma filterThreads_Inl:
  "wtl_threads s = Some groups \<Longrightarrow> obj_get groups g = None \<Longrightarrow> filterThreads s g st = Inl TypeError"
  by (simp add: filterThreads_def res_of_option_def)

lemma group_items_ok:
  assumes "wtl_threads s = Some groups" and "set gs \<subseteq> fst ` set groups"
  shows "\<exists>items. res_mapM (renderGroupListItem s) gs = Inr items \<and> child_keys items = gs"
  using assms(2)
proof (induction gs)
  case (Cons g gs)
  then obtain ts where "obj_get groups g = Some ts" by (auto simp: obj_get_def dest: weak_map_of_SomeI)
  then have "\<exists>v. renderGroupListItem s g = Inr (Keyed g v)"
    by (simp add: renderGroupListItem_def filterThreads_Inr [OF assms(1)] filter_item_def)
  with Cons show ?case by auto
qed simp

lemma state_items_ok:
  assumes "wtl_threads s = Some groups" and "obj_get groups (wtl_selectedGroup s) = Some ts"
  shows "\<exists>items. res_mapM (renderThreadStateListItem s) sts = Inr items \<and> child_keys items = sts"
proof (induction sts)
  case (Cons st sts)
  have "\<exists>v. renderThreadStateListItem s st = Inr (Keyed st v)"
    by (simp add: renderThreadStateListItem_def filterThreads_Inr [OF assms] filter_item_def)
  with Cons show ?case by auto
qed simp

lemma render_selected:
  assumes "wtl_threads s = Some groups" and "obj_get groups (wtl_selectedGroup s) = Some ts"
  shows "\<exists>v. WorkerThreadList_render f s = Inr v"
  using group_items_ok [OF assms(1), of "object_keys groups"] state_items_ok [OF assms, of THREAD_STATES]
    filterThreads_Inr [OF assms] assms(1)
  by (auto simp: WorkerThreadList_render_def thread_parts_def thread_toolbar_def)

lemma render_unselected:
  assumes "wtl_threads s = Some groups" and "obj_get groups (wtl_selectedGroup s) = None"
  shows "WorkerThreadList_render f s = Inl TypeError"
proof -
  obtain items where "res_mapM (renderGroupListItem s) (object_keys groups) = Inr items"
    using group_items_ok [OF assms(1), of "object_keys groups"] by auto
  moreover have "res_mapM (renderThreadStateListItem s) THREAD_STATES = Inl TypeError"
    by (simp add: THREAD_STATES_def renderThreadStateListItem_def filterThreads_Inl [OF assms])
  ultimately show ?thesis
    using assms(1) by (simp add: WorkerThreadList_render_def thread_parts_def thread_toolbar_def)
qed

text \<open>
  C24: once a snapshot is loaded, the page renders exactly if the snapshot has the selected group.  The selection
  survives a new snapshot, so a snapshot in which the threads of the selected group are gone makes the page raise.
\<close>

theorem snapshot_needs_selected_group:
  assumes "captureSnapshot_success threads now s = Some (Inr s')"
  shows "wtl_selectedGroup s' = wtl_selectedGroup s
     \<and> (if wtl_selectedGroup s \<in> fst ` set (the (wtl_threads s')) then \<exists>v. WorkerThreadList_render toTimeString s' = Inr v
        else WorkerThreadList_render toTimeString s' = Inl TypeError)"
proof -
  from assms obtain groups where p: "processThreads threads = Some (Inr groups)"
    and s': "s' = s\<lparr>wtl_threads := Some groups, wtl_snapshotTime := now, wtl_initialized := True\<rparr>"
    by (cases "processThreads threads") (auto simp: captureSnapshot_success_def)
  show ?thesis
  proof (cases "obj_get groups (wtl_selectedGroup s)")
    case None
    with render_unselected [of s' groups] s' show ?thesis by (auto simp: obj_get_def map_of_eq_None_iff)
  next
    case (Some ts)
    then have "wtl_selectedGroup s \<in> fst ` set groups" unfolding obj_get_def by (metis map_of_eq_None_iff option.distinct(1))
    with render_selected [of s' groups ts] s' Some show ?thesis by simp
  qed
qed

definition example_groups_of :: "thread_info \<Rightarrow> groups" where
  "example_groups_of t = [(ALL_THREADS, [t]), (QUERY_THREADS, []), (''main'', [t])]"

lemma example_snapshot:
  "processThreads [example_thread 2 ''main''] = Some (Inr (example_groups_of (example_thread 2 ''main'')))"
  by code_simp

theorem snapshot_needs_selected_group_witness:
  "\<exists>s'. captureSnapshot_success [example_thread 2 ''main''] 7 (handleGroupClick ''http-worker'' wtl_init) = Some (Inr s')
     \<and> WorkerThreadList_render (\<lambda>t. ''noon'') s' = Inl TypeError"
proof -
  let ?s = "handleGroupClick ''http-worker'' wtl_init"
  define s' where "s' = ?s\<lparr>wtl_threads := Some (example_groups_of (example_thread 2 ''main'')), wtl_snapshotTime := 7,
    wtl_initialized := True\<rparr>"
  have c: "captureSnapshot_success [example_thread 2 ''main''] 7 ?s = Some (Inr s')"
    by (simp add: captureSnapshot_success_def example_snapshot s'_def)
  from snapshot_needs_selected_group [OF this, of "\<lambda>t. ''noon''"] have "WorkerThreadList_render (\<lambda>t. ''noon'') s' = Inl TypeError"
    by (simp add: s'_def handleGroupClick_def example_groups_of_def ALL_THREADS_def QUERY_THREADS_def)
  with c show ?thesis by blast
qed

end
