(* ===== verification/QueryInfo.thy ===== *)
theory QueryInfo
  imports QueryState Identifiers
begin

text \<open>
  The detailed information on one query as the server sends it to the pages of a single query: stages, their plans, tasks
  and operators; and \<open>getChildren\<close> of \<open>webapp/src/utils.js\<close>.  A field the server may leave out is an \<open>option\<close>.
\<close>

section \<open>Tasks and stages\<close>

record operator_summary =
  os_pipelineId :: int
  os_operatorId :: int
  os_planNodeId :: string
  os_operatorType :: string
  os_addInputWall :: string
  os_getOutputWall :: string
  os_finishWall :: string
  os_blockedWall :: string
  os_inputPositions :: jsnum
  os_inputDataSize :: string
  os_outputPositions :: jsnum
  os_outputDataSize :: string
  os_totalDrivers :: jsnum

record pipeline_stats =
  pl_pipelineId :: int
  pl_operatorSummaries :: "operator_summary list"

record task_stats =
  ts_createTime :: string
  ts_elapsedTimeInNanos :: jsnum
  ts_totalScheduledTimeInNanos :: jsnum
  ts_totalCpuTimeInNanos :: jsnum
  ts_rawInputPositions :: jsnum
  ts_rawInputDataSizeInBytes :: jsnum
  ts_queuedDrivers :: jsnum
  ts_runningDrivers :: jsnum
  ts_blockedDrivers :: jsnum
  ts_completedDrivers :: jsnum
  ts_fullyBlocked :: bool
  ts_pipelines :: "pipeline_stats list"

record task_info =
  tk_taskId :: string
  tk_nodeId :: string
  tk_self :: string
  tk_state :: string
  tk_stats :: task_stats
  tk_totalBufferedBytes :: jsnum

record stage_stats =
  ss_totalScheduledTime :: string
  ss_totalBlockedTime :: string
  ss_totalCpuTime :: string
  ss_fullyBlocked :: bool
  ss_cumulativeUserMemory :: jsnum
  ss_userMemoryReservation :: string
  ss_peakUserMemoryReservation :: string
  ss_bufferedDataSize :: string
  ss_queuedDrivers :: jsnum
  ss_runningDrivers :: jsnum
  ss_completedDrivers :: jsnum
  ss_completedLifespans :: jsnum
  ss_totalLifespans :: jsnum
  ss_rawInputDataSize :: string
  ss_rawInputPositions :: jsnum
  ss_outputDataSize :: string
  ss_outputPositions :: jsnum
  ss_operatorSummaries :: "operator_summary list"

record stage_execution =
  se_state :: string
  se_stats :: stage_stats
  se_tasks :: "task_info list"

section \<open>Plans\<close>

text \<open>
  A node of the plan as typed JSON: its type, its identifier, the fields that hold one node, and the field \<open>sources\<close>.
  The second form is the compact one of \<open>jsonRepresentation\<close>; the field is represented by what \<open>JSON.parse\<close> makes of it.
\<close>

datatype plan_node = PlanNode (pn_type: string) (pn_id: string) (pn_fields: "(string \<times> plan_node) list") (pn_sources: "plan_node list")

datatype json_node = JsonNode (jn_id: string) (jn_name: string) (jn_identifier: string) (jn_details: string)
  (jn_children: "json_node list") (jn_remoteSources: "string list")

record stage_plan =
  sp_id :: string
  sp_root :: plan_node
  sp_distribution :: string
  sp_jsonRepresentation :: "exn + json_node"

datatype stage_info = StageInfo (stg_stageId: string) (stg_plan: "stage_plan option") (stg_latest: stage_execution)
  (stg_previous: "stage_execution list") (stg_subStages: "stage_info list")

section \<open>Queries\<close>

text \<open>Where the code tells a property that is missing from one that is \<open>null\<close>, both are values of the model.\<close>

datatype 'a field = Undefined | Null | Value 'a

datatype failure_info = FailureInfo (fi_type: string) (fi_message: "string field") (fi_stack: "string list field")
  (fi_suppressed: "failure_info list") (fi_cause: "failure_info option")

record query_info = query +
  qi_finalQueryInfo :: bool
  qi_outputStage :: "stage_info option"
  qi_failureInfo :: "failure_info option"
  qi_catalog :: "string option"
  qi_schema :: "string option"
  qi_remoteUserAddress :: "string option"
  qi_clientTags :: "string list"
  qi_systemProperties :: "(string \<times> string) list"
  qi_catalogProperties :: "(string \<times> (string \<times> string) list) list"
  qi_resourceEstimates :: "(string \<times> string) list"
  qi_endTime :: "string option"
  qi_queuedTime :: string
  qi_totalPlanningTime :: string
  qi_totalScheduledTime :: string
  qi_totalBlockedTime :: string
  qi_processedInputPositions :: jsnum
  qi_processedInputDataSize :: string
  qi_rawInputPositions :: jsnum
  qi_rawInputDataSize :: string
  qi_peakTotalMemoryReservation :: string
  qi_outputPositions :: jsnum
  qi_outputDataSize :: string
  qi_writtenOutputPositions :: jsnum
  qi_writtenOutputLogicalDataSize :: string
  qi_writtenOutputPhysicalDataSize :: string
  qi_spilledDataSize :: string

section \<open>Children of a plan node\<close>

text \<open>A field that is not there gives \<open>undefined\<close>.\<close>

definition pn_field :: "plan_node \<Rightarrow> string \<Rightarrow> plan_node option" where
  "pn_field nodeInfo name = map_of (pn_fields nodeInfo) name"

definition single_source_types :: "string list" where
  "single_source_types =
     [''OutputNode'', ''ExplainAnalyzeNode'', ''ProjectNode'', ''FilterNode'', ''AggregationNode'', ''SortNode'',
      ''MarkDistinctNode'', ''WindowNode'', ''RowNumberNode'', ''TopNRowNumberNode'', ''LimitNode'', ''DistinctLimitNode'',
      ''TopNNode'', ''SampleNode'', ''TableWriterNode'', ''DeleteNode'', ''MetadataDeleteNode'', ''TableFinishNode'',
      ''GroupIdNode'', ''UnnestNode'', ''EnforceSingleRowNode'']"

definition getChildren :: "plan_node \<Rightarrow> plan_node option list" where
  "getChildren nodeInfo =
     (let nodeType = removeNodeTypePackage (pn_type nodeInfo) in
      if nodeType \<in> set single_source_types then [pn_field nodeInfo ''source'']
      else if nodeType = ''JoinNode'' then [pn_field nodeInfo ''left'', pn_field nodeInfo ''right'']
      else if nodeType = ''SemiJoinNode'' then [pn_field nodeInfo ''source'', pn_field nodeInfo ''filteringSource'']
      else if nodeType = ''SpatialJoinNode'' then [pn_field nodeInfo ''left'', pn_field nodeInfo ''right'']
      else if nodeType = ''IndexJoinNode'' then [pn_field nodeInfo ''probeSource'', pn_field nodeInfo ''indexSource'']
      else if nodeType = ''UnionNode'' \<or> nodeType = ''ExchangeNode'' then map Some (pn_sources nodeInfo)
      else [])"

text \<open>Every child is a smaller node.\<close>

lemma pn_field_size: "pn_field n name = Some c \<Longrightarrow> size c < size n"
proof (cases n)
  case (PlanNode ty i fields sources)
  assume "pn_field n name = Some c"
  with PlanNode have "(name, c) \<in> set fields" by (auto simp: pn_field_def dest: map_of_SomeD)
  then have "size c \<le> size_list (size_prod (\<lambda>k. 0) size) fields"
    by (induction fields) (auto simp: less_Suc_eq_le)
  then show ?thesis using PlanNode by simp
qed

lemma getChildren_size: "Some c \<in> set (getChildren n) \<Longrightarrow> size c < size n"
proof -
  have s: "c \<in> set (pn_sources n) \<Longrightarrow> size c < size n"
  proof (cases n)
    case (PlanNode ty i fields sources)
    assume "c \<in> set (pn_sources n)"
    with PlanNode have "size c \<le> size_list size sources" by (simp add: size_list_estimation')
    then show ?thesis using PlanNode by simp
  qed
  show "Some c \<in> set (getChildren n) \<Longrightarrow> size c < size n"
    by (auto simp: getChildren_def Let_def s split: if_splits dest!: pn_field_size sym [of "Some c"])
qed

end
