(* ===== verification/QueryHeader.thy ===== *)
theory QueryHeader
  imports QueryState Vdom
begin

text \<open>
  \<open>webapp/src/components/QueryHeader.jsx\<close>: the header the pages of a single query share, with its tabs, its
  progress bar and the two actions on a running query.  The path of the current page is an argument.
\<close>

section \<open>Rendering\<close>

text \<open>A click sends a PUT request: its address and its body.\<close>

datatype header_event = PUT string string

definition progress_bar :: "string \<Rightarrow> string \<Rightarrow> ('a) query_scheme \<Rightarrow> 'e vnode" where
  "progress_bar color title query =
     divC ''progress-large''
       [El ''div'' [cls ''progress-bar progress-bar-info'', AStr ''role'' ''progressbar'',
           ANum ''aria-valuenow'' (getProgressBarPercentage query), AStr ''aria-valuemin'' ''0'',
           AStr ''aria-valuemax'' ''100'',
           AStyle [(''width'', num_str (getProgressBarPercentage query) @ ''%''), (''backgroundColor'', color)]]
         [Text title]]"

definition action_button :: "header_event \<Rightarrow> string \<Rightarrow> header_event vnode" where
  "action_button e name =
     El ''td'' [] [El ''a'' [AOn ''onClick'' e, cls ''btn btn-warning'', AStr ''target'' ''_blank''] [Text name]]"

definition renderProgressBar :: "('a) query_scheme \<Rightarrow> exn + header_event vnode" where
  "renderProgressBar query =
     res_bind (getQueryStateColor query) (\<lambda>color.
     res_map (\<lambda>title.
       if isQueryEnded query then progress_bar color title query
       else El ''table'' [] [El ''tbody'' [] [El ''tr'' []
         [El ''td'' [AStr ''width'' ''100%''] [progress_bar color title query],
          action_button (PUT (''/v1/query/'' @ q_queryId query @ ''/preempted'') ''Preempted via web UI'') ''Preempt'',
          action_button (PUT (''/v1/query/'' @ q_queryId query @ ''/killed'') ''Killed via web UI'') ''Kill'']]])
       (getProgressBarTitle query))"

definition renderTab :: "string \<Rightarrow> ('a) query_scheme \<Rightarrow> string \<Rightarrow> string \<Rightarrow> 'e vnode" where
  "renderTab pathname query path name =
     (if indexOf pathname path \<noteq> -1
      then El ''a'' [AStr ''href'' (path @ ''?'' @ q_queryId query), cls ''btn btn-info navbar-btn nav-disabled''] [Text name]
      else El ''a'' [AStr ''href'' (path @ ''?'' @ q_queryId query), cls ''btn btn-info navbar-btn''] [Text name])"

definition header_id :: "('a) query_scheme \<Rightarrow> 'e vnode" where
  "header_id query =
     divC ''col-xs-6'' [El ''h3'' [cls ''query-id'']
       [El ''span'' [AStr ''id'' ''query-id''] [Text (q_queryId query)],
        El ''a'' [cls ''btn copy-button'', AStr ''data-clipboard-target'' ''#query-id'', AStr ''data-toggle'' ''tooltip'',
            AStr ''data-placement'' ''right'', AStr ''title'' ''Copy to clipboard'']
          [El ''span'' [cls ''glyphicon glyphicon-copy'', AStr ''aria-hidden'' ''true'',
             AStr ''alt'' ''Copy to clipboard''] []]]]"

definition header_tabs :: "string \<Rightarrow> ('a) query_scheme \<Rightarrow> 'e vnode" where
  "header_tabs pathname query =
     divC ''col-xs-6'' [El ''table'' [cls ''header-inline-links''] [El ''tbody'' [] [El ''tr'' [] [El ''td'' []
       [renderTab pathname query ''query.html'' ''Overview'', Text nbsp,
        renderTab pathname query ''plan.html'' ''Live Plan'', Text nbsp,
        renderTab pathname query ''stage.html'' ''Stage Performance'', Text nbsp,
        renderTab pathname query ''timeline.html'' ''Splits'', Text nbsp,
        El ''a'' [AStr ''href'' (''/v1/query/'' @ q_queryId query @ ''?pretty''), cls ''btn btn-info navbar-btn'',
          AStr ''target'' ''_blank''] [Text ''JSON'']]]]]]"

definition QueryHeader_render :: "string \<Rightarrow> ('a) query_scheme \<Rightarrow> exn + header_event vnode" where
  "QueryHeader_render pathname query =
     res_map (\<lambda>bar. El ''div'' []
       [divC ''row'' [header_id query, header_tabs pathname query],
        El ''hr'' [cls ''h2-hr''] [],
        divC ''row'' [divC ''col-xs-12'' [bar]]]) (renderProgressBar query)"

section \<open>Properties\<close>

lemma handlers_header_parts [simp]:
  "handlers (progress_bar color title query) = []"
  "handlers (header_id query) = []"
  "handlers (header_tabs pathname query) = []"
  "handlers (action_button e name) = [e]"
  by (simp_all add: progress_bar_def header_id_def header_tabs_def renderTab_def action_button_def)

lemma keys_ok_header_parts [simp]:
  "keys_ok (progress_bar color title query)"
  "keys_ok (header_id query)"
  "keys_ok (header_tabs pathname query)"
  "keys_ok (action_button e name)"
  by (simp_all add: progress_bar_def header_id_def header_tabs_def renderTab_def action_button_def)

lemma progress_title_defined:
  assumes "error_fields_ok query"
  obtains t where "getProgressBarTitle query = Inr t"
  using getHumanReadableState_ok [OF assms] that
  by (cases "progress_truthy query \<and> q_state query = ''RUNNING''") (auto simp: getProgressBarTitle_def)

text \<open>The header is rendered whenever the error fields are consistent.\<close>

lemma QueryHeader_render_ok:
  assumes "error_fields_ok query"
  shows "\<exists>v. QueryHeader_render pathname query = Inr v \<and> handlers v =
     (if isQueryEnded query then []
      else [PUT (''/v1/query/'' @ q_queryId query @ ''/preempted'') ''Preempted via web UI'',
            PUT (''/v1/query/'' @ q_queryId query @ ''/killed'') ''Killed via web UI''])"
proof -
  obtain t where "getProgressBarTitle query = Inr t" using progress_title_defined [OF assms] .
  then show ?thesis
    by (simp add: QueryHeader_render_def renderProgressBar_def getQueryStateColor_category [OF assms])
qed

text \<open>
  The header of a query is always rendered, and its only actions are to preempt and to kill that very
  query, offered exactly while the query has not ended.
\<close>

theorem header_actions:
  assumes "error_fields_ok query"
  shows "\<exists>v. QueryHeader_render pathname query = Inr v \<and> handlers v =
     (if isQueryEnded query then []
      else [PUT (''/v1/query/'' @ q_queryId query @ ''/preempted'') ''Preempted via web UI'',
            PUT (''/v1/query/'' @ q_queryId query @ ''/killed'') ''Killed via web UI''])"
  using QueryHeader_render_ok [OF assms] .

theorem header_actions_witness:
  "\<exists>v. QueryHeader_render ''/ui/query.html'' example_query = Inr v \<and> handlers v =
     [PUT ''/v1/query/q1/preempted'' ''Preempted via web UI'', PUT ''/v1/query/q1/killed'' ''Killed via web UI'']"
  using header_actions [of example_query "''/ui/query.html''"]
  by (simp add: example_defs error_fields_ok_def isQueryEnded_def)

end
