(* ===== verification/LivePlan.thy ===== *)
theory LivePlan
  imports QueryInfo QueryHeader Format JsObject Polling
begin

text \<open>
  \<open>webapp/src/components/LivePlan.jsx\<close>: the plan of a query as a graph of stages.  The graph library is outside the
  model: what the page does to a graph is the list of its calls, in order.  A label that is rendered to HTML is the tree it
  is rendered from.
\<close>

section \<open>Stages and nodes of the graph\<close>

record plan_node_props =
  pnp_id :: string
  pnp_name :: string
  pnp_identifier :: string
  pnp_details :: string
  pnp_sources :: "string list"
  pnp_remoteSources :: "string list"

record stage_node_info =
  sni_stageId :: string
  sni_id :: string
  sni_root :: string
  sni_distribution :: string
  sni_stageStats :: stage_stats
  sni_state :: string
  sni_nodes :: "(string \<times> plan_node_props) list"

definition node_props :: "json_node \<Rightarrow> plan_node_props" where
  "node_props node = \<lparr>pnp_id = jn_id node, pnp_name = jn_name node, pnp_identifier = jn_identifier node,
     pnp_details = jn_details node, pnp_sources = map jn_id (jn_children node), pnp_remoteSources = jn_remoteSources node\<rparr>"

fun flattenNode :: "json_node \<Rightarrow> (string \<times> plan_node_props) list \<Rightarrow> (string \<times> plan_node_props) list"
  and flattenNodes :: "json_node list \<Rightarrow> (string \<times> plan_node_props) list \<Rightarrow> (string \<times> plan_node_props) list" where
  "flattenNode (JsonNode i name ident details children remote) result =
     flattenNodes children (obj_set result i (node_props (JsonNode i name ident details children remote)))"
| "flattenNodes [] result = result"
| "flattenNodes (child # children) result = flattenNodes children (flattenNode child result)"

text \<open>A stage without a plan raises when its root is read.\<close>

fun flattenStage :: "stage_info \<Rightarrow> (string \<times> stage_node_info) list \<Rightarrow> exn + (string \<times> stage_node_info) list"
  and flattenStages :: "stage_info list \<Rightarrow> (string \<times> stage_node_info) list \<Rightarrow> exn + (string \<times> stage_node_info) list" where
  "flattenStage (StageInfo stageId plan latest previous subStages) result =
     res_bind (flattenStages subStages result) (\<lambda>result.
     res_bind (res_of_option TypeError plan) (\<lambda>plan.
     res_map (\<lambda>json.
       obj_set result (sp_id plan)
         \<lparr>sni_stageId = stageId, sni_id = sp_id plan, sni_root = pn_id (sp_root plan), sni_distribution = sp_distribution plan,
          sni_stageStats = se_stats latest, sni_state = se_state latest, sni_nodes = flattenNode json []\<rparr>)
       (sp_jsonRepresentation plan)))"
| "flattenStages [] result = Inr result"
| "flattenStages (stage # stages) result = res_bind (flattenStage stage result) (flattenStages stages)"

definition getStages :: "('a) query_info_scheme \<Rightarrow> exn + (string \<times> stage_node_info) list" where
  "getStages queryInfo =
     res_bind (res_of_option TypeError (qi_outputStage queryInfo)) (\<lambda>stage. flattenStage stage [])"

section \<open>Labels\<close>

definition StageStatistics_render :: "stage_node_info \<Rightarrow> 'e vnode" where
  "StageStatistics_render stage =
     (let stats = sni_stageStats stage;
          blocked = [Text ''Blocked: '', Text (ss_totalBlockedTime stats), Text '' '']
      in El ''div'' [] [El ''div'' []
        [El ''h3'' [cls ''margin-top: 0''] [Text ''Stage '', Text (sni_id stage)],
         Text (sni_state stage), El ''hr'' [] [],
         Text ''CPU: '', Text (ss_totalCpuTime stats), El ''br'' [] [],
         Text ''Buffered: '', Text (ss_bufferedDataSize stats), El ''br'' [] [],
         (if ss_fullyBlocked stats then El ''div'' [AStyle [(''color'', ''#ff0000'')]] blocked else El ''div'' [] blocked),
         Text ''Memory: '', Text (ss_userMemoryReservation stats), El ''br'' [] [],
         Text ''Splits: '',
         Text (''Q:'' @ num_str (ss_queuedDrivers stats) @ '', R:'' @ num_str (ss_runningDrivers stats) @ '', F:''
           @ num_str (ss_completedDrivers stats)),
         El ''br'' [] [],
         Text ''Lifespans: '', Text (num_str (ss_completedLifespans stats) @ '' / '' @ num_str (ss_totalLifespans stats)),
         El ''hr'' [] [],
         Text ''Input: '', Text (ss_rawInputDataSize stats @ '' / '' @ formatRows (ss_rawInputPositions stats))]])"

definition PlanNode_render :: "plan_node_props \<Rightarrow> 'e vnode" where
  "PlanNode_render props =
     El ''div'' [AStyle [(''color'', ''#000'')], AStr ''data-toggle'' ''tooltip'', AStr ''data-placement'' ''bottom'',
         AStr ''data-container'' ''body'', AStr ''data-html'' ''true'',
         AStr ''title'' (''<h4>'' @ pnp_name props @ ''</h4>'' @ pnp_identifier props)]
       [El ''strong'' [] [Text (pnp_name props)],
        El ''div'' [] [Text (truncateString (pnp_identifier props) 35)]]"

section \<open>The graph\<close>

datatype graph_op =
    SetNode string "(string \<times> string) list" "unit vnode option"
  | SetParent string string
  | SetEdge string string "(string \<times> string) list"

definition stage_root_id :: "string \<Rightarrow> string" where
  "stage_root_id i = ''stage-'' @ i @ ''-root''"

definition node_id :: "string \<Rightarrow> string" where
  "node_id i = ''node-'' @ i"

definition remote_edges :: "(string \<times> stage_node_info) list \<Rightarrow> plan_node_props \<Rightarrow> graph_op list" where
  "remote_edges allStages node =
     concat (map (\<lambda>sourceId.
       (case obj_get allStages sourceId of
          None \<Rightarrow> []
        | Some source \<Rightarrow>
            [SetEdge (stage_root_id sourceId) (node_id (pnp_id node))
              [(''class'', ''plan-edge''), (''style'', ''stroke-width: 4px''), (''arrowheadClass'', ''plan-arrowhead''),
               (''label'', ss_outputDataSize (sni_stageStats source) @ '' / '' @ formatRows (ss_outputPositions (sni_stageStats source))),
               (''labelStyle'', ''color: #fff; font-weight: bold; font-size: 24px;''), (''labelType'', ''html'')]]))
       (pnp_remoteSources node))"

definition node_ops :: "(string \<times> stage_node_info) list \<Rightarrow> string \<Rightarrow> plan_node_props \<Rightarrow> graph_op list" where
  "node_ops allStages clusterId node =
     [SetNode (node_id (pnp_id node)) [(''style'', ''fill: #fff''), (''labelType'', ''html'')] (Some (PlanNode_render node)),
      SetParent (node_id (pnp_id node)) clusterId]
     @ map (\<lambda>source. SetEdge (node_id source) (node_id (pnp_id node))
         [(''class'', ''plan-edge''), (''arrowheadClass'', ''plan-arrowhead'')]) (pnp_sources node)
     @ (if pnp_remoteSources node \<noteq> [] then
          SetNode (node_id (pnp_id node)) [(''label'', []), (''shape'', ''circle'')] None # remote_edges allStages node
        else [])"

definition updateD3Stage :: "(string \<times> stage_node_info) list \<Rightarrow> stage_node_info \<Rightarrow> graph_op list" where
  "updateD3Stage allStages stage =
     (let clusterId = sni_stageId stage; stageRootNodeId = stage_root_id (sni_id stage);
          color = getStageStateColor \<lparr>sv_state = Some (sni_state stage),
                                      sv_fullyBlocked = Some (ss_fullyBlocked (sni_stageStats stage))\<rparr>
      in [SetNode clusterId [(''style'', ''fill: '' @ color), (''labelStyle'', ''fill: #fff'')] None,
          SetNode stageRootNodeId [(''class'', ''stage-stats''), (''labelType'', ''html'')] (Some (StageStatistics_render stage)),
          SetParent stageRootNodeId clusterId,
          SetEdge (node_id (sni_root stage)) stageRootNodeId [(''style'', ''visibility: hidden'')]]
         @ concat (map (\<lambda>(k, node). node_ops allStages clusterId node) (sni_nodes stage)))"

definition plan_ops :: "('a) query_info_scheme \<Rightarrow> exn + graph_op list" where
  "plan_ops query = res_map (\<lambda>stages. concat (map (\<lambda>(k, stage). updateD3Stage stages stage) stages)) (getStages query)"

section \<open>State and polling\<close>

text \<open>
  The selection of the canvas is made once: \<open>lp_svg\<close> says whether it was made and whether the canvas was there.  An
  exception in a lifecycle method unmounts the component (there is no error boundary), and \<open>setState\<close> has no effect on
  an unmounted component.
\<close>

record lp_state =
  lp_initialized :: bool
  lp_ended :: bool
  lp_query :: "query_info option"
  lp_graph :: "graph_op list"
  lp_svg :: "bool option"
  lp_mounted :: bool
  lp_timeout :: bool
  lp_requests :: nat

definition lp_init :: lp_state where
  "lp_init = \<lparr>lp_initialized = False, lp_ended = False, lp_query = None, lp_graph = [], lp_svg = None, lp_mounted = True,
     lp_timeout = False, lp_requests = 0\<rparr>"

definition lp_resetTimer :: "lp_state \<Rightarrow> lp_state" where
  "lp_resetTimer s = s\<lparr>lp_timeout := lp_query s = None \<or> \<not> lp_ended s\<rparr>"

definition lp_refreshLoop :: "lp_state \<Rightarrow> lp_state" where
  "lp_refreshLoop s = s\<lparr>lp_timeout := False, lp_requests := lp_requests s + 1\<rparr>"

definition lp_url :: "string \<Rightarrow> string" where
  "lp_url queryId = ''/v1/query/'' @ queryId"

definition handleStageClick :: "string \<Rightarrow> string" where
  "handleStageClick stageCssId = ''stage.html?'' @ stageCssId"

text \<open>What a click on a stage opens, and the request for the query.\<close>

definition loading_label :: "bool \<Rightarrow> 'e vnode" where
  "loading_label initialized = (if initialized then Text ''Query not found'' else divC ''loader'' [Text ''Loading...''])"

definition plan_canvas :: "lp_state \<Rightarrow> 'e vnode" where
  "plan_canvas s =
     El ''div'' [AStr ''id'' ''live-plan'', cls ''graph-container'']
       [divC ''pull-right''
         [Text (if lp_ended s then ''Scroll to zoom.'' else ''Zoom disabled while query is running.''),
          Text '' Click stage to view additional statistics''],
        El ''svg'' [AStr ''id'' ''plan-canvas''] []]"

definition plan_loading :: "query_info \<Rightarrow> 'e vnode" where
  "plan_loading query =
     (if qi_outputStage query = None then
        divC ''row error-message'' [divC ''col-xs-12''
          [El ''h4'' [] [Text ''Live plan graph will appear automatically when query starts running.''],
           divC ''loader'' [Text ''Loading...'']]]
      else Nothing)"

definition LivePlan_render :: "string \<Rightarrow> bool \<Rightarrow> lp_state \<Rightarrow> exn + header_event vnode" where
  "LivePlan_render pathname isEmbedded s =
     (case lp_query s of
        None \<Rightarrow> Inr (divC ''row error-message'' [divC ''col-xs-12'' [El ''h4'' [] [loading_label (lp_initialized s)]]])
      | Some query \<Rightarrow>
          if \<not> lp_initialized s
          then Inr (divC ''row error-message'' [divC ''col-xs-12'' [El ''h4'' [] [loading_label (lp_initialized s)]]])
          else res_map (\<lambda>queryHeader.
            El ''div'' [] [queryHeader, divC ''row'' [divC ''col-xs-12'' [plan_loading query, plan_canvas s]]])
            (if isEmbedded then Inr Nothing else QueryHeader_render pathname query))"

text \<open>Selecting the canvas updates the state, which runs the method once more.\<close>

definition updateD3Graph :: "lp_state \<Rightarrow> exn + lp_state" where
  "updateD3Graph s =
     (let s = (if lp_svg s = None then s\<lparr>lp_svg := Some (lp_query s \<noteq> None \<and> lp_initialized s)\<rparr> else s) in
      case lp_query s of None \<Rightarrow> Inr s
      | Some query \<Rightarrow> res_map (\<lambda>ops. s\<lparr>lp_graph := lp_graph s @ ops\<rparr>) (plan_ops query))"

text \<open>
  How the canvas is laid out after a drawing, from the computed style of its container and the size dagre gives the graph:
  scaled to fit and moved to the middle once the query has ended, in full size before.
\<close>

datatype canvas = Zoomed (cv_scale: jsnum) (cv_x: jsnum) (cv_y: jsnum) (cv_height: jsnum) (cv_width: jsnum) | Full (cv_height: jsnum) (cv_width: jsnum)

definition canvas_measure :: "string \<Rightarrow> jsnum" where
  "canvas_measure style =
     (let i = indexOf style ''px'' in
      js_sub (parseInt (if i < 0 then style else take (nat i) style @ drop (nat i + 2) style)) (Fin 50))"

definition canvas_layout :: "bool \<Rightarrow> string \<Rightarrow> string \<Rightarrow> jsnum \<Rightarrow> jsnum \<Rightarrow> canvas" where
  "canvas_layout ended style_width style_height graph_width graph_height =
     (let width = canvas_measure style_width; height = canvas_measure style_height;
          graphHeight = js_add graph_height (Fin 100); graphWidth = js_add graph_width (Fin 100);
          initialScale = math_min (js_div width graphWidth) (js_div height graphHeight)
      in if ended
         then Zoomed initialScale (js_div (js_sub width (js_mul graph_width initialScale)) (Fin 2)) (Fin 20) height width
         else Full graphHeight graphWidth)"

definition lp_setState :: "string \<Rightarrow> bool \<Rightarrow> (lp_state \<Rightarrow> lp_state) \<Rightarrow> lp_state \<Rightarrow> lp_state" where
  "lp_setState pathname isEmbedded f s =
     (if \<not> lp_mounted s then s
      else case res_bind (LivePlan_render pathname isEmbedded (f s)) (\<lambda>v. updateD3Graph (f s)) of
             Inl e \<Rightarrow> (f s)\<lparr>lp_mounted := False\<rparr>
           | Inr s' \<Rightarrow> s')"

definition lp_then :: "string \<Rightarrow> bool \<Rightarrow> query_info \<Rightarrow> lp_state \<Rightarrow> lp_state" where
  "lp_then pathname isEmbedded query s =
     lp_resetTimer (lp_setState pathname isEmbedded
       (\<lambda>s. s\<lparr>lp_query := Some query, lp_initialized := True, lp_ended := qi_finalQueryInfo query\<rparr>) s)"

text \<open>A failed request renders the last query once more, which did not raise before.\<close>

definition lp_catch :: "string \<Rightarrow> bool \<Rightarrow> lp_state \<Rightarrow> lp_state" where
  "lp_catch pathname isEmbedded s = lp_resetTimer (lp_setState pathname isEmbedded (\<lambda>s. s\<lparr>lp_initialized := True\<rparr>) s)"

datatype lp_event = LP_Query query_info | LP_Failure

fun lp_handle :: "string \<Rightarrow> bool \<Rightarrow> lp_event \<Rightarrow> lp_state \<Rightarrow> lp_state" where
  "lp_handle pathname isEmbedded (LP_Query query) s = lp_then pathname isEmbedded query (s\<lparr>lp_requests := lp_requests s - 1\<rparr>)"
| "lp_handle pathname isEmbedded LP_Failure s = lp_catch pathname isEmbedded (s\<lparr>lp_requests := lp_requests s - 1\<rparr>)"

section \<open>The graph is closed\<close>

fun subnodes :: "json_node \<Rightarrow> json_node list"
  and subnodes_list :: "json_node list \<Rightarrow> json_node list" where
  "subnodes (JsonNode i name ident details children remote) =
     JsonNode i name ident details children remote # subnodes_list children"
| "subnodes_list [] = []"
| "subnodes_list (c # cs) = subnodes c @ subnodes_list cs"

lemma subnodes_self: "n \<in> set (subnodes n)"
  by (cases n) simp

lemma subnodes_list_member: "c \<in> set cs \<Longrightarrow> c \<in> set (subnodes_list cs)"
  by (induction cs) (auto simp: subnodes_self)

lemma subnodes_children:
  "m \<in> set (subnodes n) \<Longrightarrow> c \<in> set (jn_children m) \<Longrightarrow> c \<in> set (subnodes n)"
  "m \<in> set (subnodes_list ns) \<Longrightarrow> c \<in> set (jn_children m) \<Longrightarrow> c \<in> set (subnodes_list ns)"
  by (induction n and ns rule: subnodes_subnodes_list.induct) (auto simp: subnodes_list_member)

lemma obj_set_entries: "(k, v) \<in> set (obj_set m i x) \<Longrightarrow> (k, v) = (i, x) \<or> (k, v) \<in> set m"
  unfolding obj_set_def by (induction m) (auto split: if_splits)

lemma obj_set_keys [simp]: "fst ` set (obj_set m i x) = insert i (fst ` set m)"
  by (simp add: obj_set_def dom_update)

text \<open>The flattened nodes are the entries of the nodes of the tree.\<close>

lemma flattenNode_entries:
  "(k, p) \<in> set (flattenNode n r) \<Longrightarrow> (k, p) \<in> set r \<or> (\<exists>m \<in> set (subnodes n). k = jn_id m \<and> p = node_props m)"
  "(k, p) \<in> set (flattenNodes ns r) \<Longrightarrow> (k, p) \<in> set r \<or> (\<exists>m \<in> set (subnodes_list ns). k = jn_id m \<and> p = node_props m)"
proof (induction n r and ns r rule: flattenNode_flattenNodes.induct)
  case (1 i name ident details children remote r)
  then show ?case by (auto dest!: obj_set_entries)
qed auto

lemma flattenNode_keys:
  "fst ` set (flattenNode n r) = fst ` set r \<union> jn_id ` set (subnodes n)"
  "fst ` set (flattenNodes ns r) = fst ` set r \<union> jn_id ` set (subnodes_list ns)"
  by (induction n r and ns r rule: flattenNode_flattenNodes.induct) auto

text \<open>What the server guarantees of a plan: both of its forms have the same root.\<close>

fun roots_agree :: "stage_info \<Rightarrow> bool" where
  "roots_agree (StageInfo stageId plan latest previous subStages) \<longleftrightarrow>
     (case plan of None \<Rightarrow> True
      | Some p \<Rightarrow> (case sp_jsonRepresentation p of Inl e \<Rightarrow> True | Inr json \<Rightarrow> jn_id json = pn_id (sp_root p)))
     \<and> list_all roots_agree subStages"

definition stage_closed :: "string \<times> stage_node_info \<Rightarrow> bool" where
  "stage_closed entry \<longleftrightarrow>
     (let stage = snd entry; ids = fst ` set (sni_nodes stage) in
      sni_id stage = fst entry \<and> sni_root stage \<in> ids \<and>
      (\<forall>(k, p) \<in> set (sni_nodes stage). pnp_id p = k \<and> set (pnp_sources p) \<subseteq> ids))"

lemma flattened_stage_closed:
  assumes "jn_id json = rt"
  shows "stage_closed (i, \<lparr>sni_stageId = sid, sni_id = i, sni_root = rt, sni_distribution = d, sni_stageStats = st,
     sni_state = state, sni_nodes = flattenNode json []\<rparr>)"
proof -
  have "set (pnp_sources p) \<subseteq> jn_id ` set (subnodes json) \<and> pnp_id p = k" if "(k, p) \<in> set (flattenNode json [])" for k p
    using flattenNode_entries(1) [OF that] subnodes_children(1) by (fastforce simp: node_props_def)
  then show ?thesis
    using assms subnodes_self [of json] by (auto simp: stage_closed_def flattenNode_keys(1))
qed

lemma flattenStage_closed:
  "flattenStage s r = Inr r' \<Longrightarrow> roots_agree s \<Longrightarrow> list_all stage_closed r \<Longrightarrow> list_all stage_closed r'"
  "flattenStages ss r = Inr r' \<Longrightarrow> list_all roots_agree ss \<Longrightarrow> list_all stage_closed r \<Longrightarrow> list_all stage_closed r'"
proof (induction s r and ss r arbitrary: r' and r' rule: flattenStage_flattenStages.induct)
  case (1 stageId plan latest previous subStages result)
  from "1.prems"(1) obtain r1 p json where
    r1: "flattenStages subStages result = Inr r1" and p: "plan = Some p" and json: "sp_jsonRepresentation p = Inr json"
    and r': "r' = obj_set r1 (sp_id p)
       \<lparr>sni_stageId = stageId, sni_id = sp_id p, sni_root = pn_id (sp_root p), sni_distribution = sp_distribution p,
        sni_stageStats = se_stats latest, sni_state = se_state latest, sni_nodes = flattenNode json []\<rparr>"
    by (cases plan) auto
  have "list_all stage_closed r1" using "1.IH" [OF r1] "1.prems"(2,3) by simp
  moreover have "jn_id json = pn_id (sp_root p)" using "1.prems"(2) p json by simp
  ultimately show ?case
    using flattened_stage_closed [of json "pn_id (sp_root p)"] unfolding r' list_all_iff
    by (auto dest!: obj_set_entries)
qed auto

definition graph_nodes :: "graph_op list \<Rightarrow> string set" where
  "graph_nodes ops = {n. \<exists>as l. SetNode n as l \<in> set ops}"

fun op_closed :: "string set \<Rightarrow> graph_op \<Rightarrow> bool" where
  "op_closed ns (SetNode n as l) \<longleftrightarrow> True"
| "op_closed ns (SetParent a b) \<longleftrightarrow> a \<in> ns \<and> b \<in> ns"
| "op_closed ns (SetEdge a b as) \<longleftrightarrow> a \<in> ns \<and> b \<in> ns"

lemma graph_nodes_append [simp]: "graph_nodes (xs @ ys) = graph_nodes xs \<union> graph_nodes ys"
  by (auto simp: graph_nodes_def)

lemma graph_nodes_simps [simp]:
  "graph_nodes [] = {}"
  "graph_nodes (SetNode n as l # ops) = insert n (graph_nodes ops)"
  "graph_nodes (SetParent a b # ops) = graph_nodes ops"
  "graph_nodes (SetEdge a b as # ops) = graph_nodes ops"
  by (auto simp: graph_nodes_def)

lemma graph_nodes_concat: "ops \<in> set opss \<Longrightarrow> graph_nodes ops \<subseteq> graph_nodes (concat opss)"
  by (auto simp: graph_nodes_def)

lemma op_closed_mono: "ns \<subseteq> ns' \<Longrightarrow> op_closed ns oper \<Longrightarrow> op_closed ns' oper"
  by (cases oper) auto

lemma stage_nodes_set:
  assumes "(k, p) \<in> set (sni_nodes stage)" and "pnp_id p = k"
  shows "node_id k \<in> graph_nodes (updateD3Stage stages stage)"
proof -
  have "graph_nodes (node_ops stages (sni_stageId stage) p) \<subseteq>
      graph_nodes (concat (map (\<lambda>(k, node). node_ops stages (sni_stageId stage) node) (sni_nodes stage)))"
    using assms(1) by (intro graph_nodes_concat) force
  moreover have "node_id k \<in> graph_nodes (node_ops stages (sni_stageId stage) p)"
    using assms(2) by (simp add: node_ops_def)
  ultimately show ?thesis by (auto simp: updateD3Stage_def Let_def)
qed

lemma node_ops_closed:
  assumes "node_id (pnp_id p) \<in> ns" and "c \<in> ns" and "\<forall>s \<in> set (pnp_sources p). node_id s \<in> ns"
    and "\<forall>(k, st) \<in> set stages. stage_root_id k \<in> ns"
  shows "list_all (op_closed ns) (node_ops stages c p)"
proof -
  have "stage_root_id sid \<in> ns" if "obj_get stages sid = Some st" for sid st
    using that assms(4) by (auto simp: obj_get_def dest!: map_of_SomeD)
  then have "list_all (op_closed ns) (remote_edges stages p)"
    using assms(1) by (auto simp: remote_edges_def list_all_iff split: option.splits dest: sym)
  then show ?thesis using assms(1-3) by (auto simp: node_ops_def list_all_iff)
qed

lemma updateD3Stage_closed:
  assumes "stage_closed (k, stage)" and "graph_nodes (updateD3Stage stages stage) \<subseteq> ns"
    and "\<forall>(k, st) \<in> set stages. stage_root_id k \<in> ns"
  shows "list_all (op_closed ns) (updateD3Stage stages stage)"
proof -
  have nodes: "node_id i \<in> ns" if "i \<in> fst ` set (sni_nodes stage)" for i
    using that assms(1,2) stage_nodes_set [of i _ stage stages] by (force simp: stage_closed_def)
  have root: "sni_root stage \<in> fst ` set (sni_nodes stage)" using assms(1) by (simp add: stage_closed_def)
  have own: "sni_stageId stage \<in> ns" "stage_root_id (sni_id stage) \<in> ns"
    using assms(2) by (auto simp: updateD3Stage_def Let_def)
  have "list_all (op_closed ns) (node_ops stages (sni_stageId stage) p)" if "(i, p) \<in> set (sni_nodes stage)" for i p
  proof (rule node_ops_closed [OF _ own(1) _ assms(3)])
    have "pnp_id p = i" and "set (pnp_sources p) \<subseteq> fst ` set (sni_nodes stage)"
      using assms(1) that by (auto simp: stage_closed_def)
    then show "node_id (pnp_id p) \<in> ns" and "\<forall>s \<in> set (pnp_sources p). node_id s \<in> ns"
      using nodes that by force+
  qed
  then have "list_all (op_closed ns) (concat (map (\<lambda>(k, node). node_ops stages (sni_stageId stage) node) (sni_nodes stage)))"
    by (auto simp: list_all_iff)
  then show ?thesis using own nodes [OF root] by (simp add: updateD3Stage_def Let_def)
qed

text \<open>Every stage has a plan, and its compact form is valid JSON.\<close>

fun plans_parsed :: "stage_info \<Rightarrow> bool" where
  "plans_parsed (StageInfo stageId plan latest previous subStages) \<longleftrightarrow>
     (\<exists>p json. plan = Some p \<and> sp_jsonRepresentation p = Inr json) \<and> list_all plans_parsed subStages"

lemma flattenStage_ok:
  "plans_parsed s \<Longrightarrow> \<exists>r'. flattenStage s r = Inr r'"
  "list_all plans_parsed ss \<Longrightarrow> \<exists>r'. flattenStages ss r = Inr r'"
proof (induction s r and ss r rule: flattenStage_flattenStages.induct)
  case (1 stageId plan latest previous subStages result)
  then obtain r1 p json where "flattenStages subStages result = Inr r1" "plan = Some p" "sp_jsonRepresentation p = Inr json" by auto
  then show ?case by simp
next
  case (3 stage stages result)
  then obtain r1 where "flattenStage stage result = Inr r1" by auto
  with 3 show ?case by auto
qed simp

text \<open>
  C17: if every stage has a plan, the plan is drawn, and the calls that draw it refer only to nodes they create: every edge,
  whether inside a stage or from a remote stage, and every grouping of a node under its stage has both ends in the graph.
\<close>

theorem plan_graph_closed:
  assumes "qi_outputStage query = Some stage" and "roots_agree stage" and "plans_parsed stage"
  shows "\<exists>ops. plan_ops query = Inr ops \<and> list_all (op_closed (graph_nodes ops)) ops"
proof -
  obtain stages where st: "flattenStage stage [] = Inr stages" using flattenStage_ok(1) [OF assms(3)] by blast
  define ops where ops: "ops = concat (map (\<lambda>(k, stage). updateD3Stage stages stage) stages)"
  have "plan_ops query = Inr ops" using assms(1) st by (simp add: plan_ops_def getStages_def ops)
  have closed: "list_all stage_closed stages" using flattenStage_closed(1) [OF st assms(2)] by simp
  have sub: "graph_nodes (updateD3Stage stages s) \<subseteq> graph_nodes ops" if "(k, s) \<in> set stages" for k s
    unfolding ops using that by (intro graph_nodes_concat) force
  have "stage_root_id k \<in> graph_nodes ops" if "(k, s) \<in> set stages" for k s
    using sub [OF that] closed that by (auto simp: stage_closed_def list_all_iff updateD3Stage_def Let_def)
  then have roots: "\<forall>(k, s) \<in> set stages. stage_root_id k \<in> graph_nodes ops" by blast
  have "list_all (op_closed (graph_nodes ops)) (updateD3Stage stages s)" if "(k, s) \<in> set stages" for k s
    using updateD3Stage_closed [of k s stages "graph_nodes ops"] sub [OF that] roots closed that by (auto simp: list_all_iff)
  then have "list_all (op_closed (graph_nodes ops)) (concat (map (\<lambda>(k, stage). updateD3Stage stages stage) stages))"
    by (auto simp: list_all_iff)
  then show ?thesis using \<open>plan_ops query = Inr ops\<close> by (simp add: ops)
qed

text \<open>A query with two stages: an output over a remote source, and a table scan under a projection.\<close>

definition example_stage_stats :: stage_stats where
  "example_stage_stats = \<lparr>ss_totalScheduledTime = ''1.00s'', ss_totalBlockedTime = ''0.00ns'', ss_totalCpuTime = ''2.00s'',
     ss_fullyBlocked = False, ss_cumulativeUserMemory = Fin 10, ss_userMemoryReservation = ''1MB'',
     ss_peakUserMemoryReservation = ''2MB'', ss_bufferedDataSize = ''0B'', ss_queuedDrivers = Fin 0, ss_runningDrivers = Fin 1,
     ss_completedDrivers = Fin 2, ss_completedLifespans = Fin 0, ss_totalLifespans = Fin 1, ss_rawInputDataSize = ''3kB'',
     ss_rawInputPositions = Fin 7, ss_outputDataSize = ''1kB'', ss_outputPositions = Fin 1, ss_operatorSummaries = []\<rparr>"

definition example_execution :: stage_execution where
  "example_execution = \<lparr>se_state = ''RUNNING'', se_stats = example_stage_stats, se_tasks = []\<rparr>"

definition example_stage :: stage_info where
  "example_stage =
     StageInfo ''q1.0''
       (Some \<lparr>sp_id = ''0'', sp_root = PlanNode ''.OutputNode'' ''9'' [(''source'', PlanNode ''.RemoteSourceNode'' ''8'' [] [])] [],
          sp_distribution = ''SINGLE'',
          sp_jsonRepresentation = Inr (JsonNode ''9'' ''Output'' ''[a]'' [] [JsonNode ''8'' ''RemoteSource'' ''[1]'' [] [] [''1'']] [])\<rparr>)
       example_execution []
       [StageInfo ''q1.1''
         (Some \<lparr>sp_id = ''1'', sp_root = PlanNode ''.ProjectNode'' ''3'' [(''source'', PlanNode ''.TableScanNode'' ''2'' [] [])] [],
            sp_distribution = ''SOURCE'',
            sp_jsonRepresentation = Inr (JsonNode ''3'' ''Project'' [] [] [JsonNode ''2'' ''TableScan'' ''[t]'' [] [] []] [])\<rparr>)
         example_execution [] []]"

definition example_info :: query_info where
  "example_info = query.extend example_query
     \<lparr>qi_finalQueryInfo = False, qi_outputStage = Some example_stage, qi_failureInfo = None, qi_catalog = None, qi_schema = None,
      qi_remoteUserAddress = None, qi_clientTags = [], qi_systemProperties = [], qi_catalogProperties = [], qi_resourceEstimates = [],
      qi_endTime = None, qi_queuedTime = ''0.00ns'', qi_totalPlanningTime = ''0.00ns'', qi_totalScheduledTime = ''1.00s'',
      qi_totalBlockedTime = ''0.00ns'', qi_processedInputPositions = Fin 7, qi_processedInputDataSize = ''3kB'',
      qi_rawInputPositions = Fin 7, qi_rawInputDataSize = ''3kB'', qi_peakTotalMemoryReservation = ''2MB'', qi_outputPositions = Fin 1,
      qi_outputDataSize = ''1kB'', qi_writtenOutputPositions = Fin 0, qi_writtenOutputLogicalDataSize = ''0B'',
      qi_writtenOutputPhysicalDataSize = ''0B'', qi_spilledDataSize = ''0B''\<rparr>"

lemma example_info_stage [simp]: "qi_outputStage example_info = Some example_stage"
  by (simp add: example_info_def query.defs query_info.defs)

theorem plan_graph_closed_witness:
  "\<exists>ops. plan_ops example_info = Inr ops \<and> list_all (op_closed (graph_nodes ops)) ops"
proof -
  have "roots_agree example_stage" and "plans_parsed example_stage" by (simp_all add: example_stage_def)
  then show ?thesis using plan_graph_closed [of example_info example_stage] by simp
qed

section \<open>The canvas\<close>

lemma indexOf_px: "CHR ''p'' \<notin> set pre \<Longrightarrow> indexOf (pre @ ''px'') ''px'' = int (length pre)"
  by (induction pre) (auto simp: indexOf_Cons)

text \<open>A width in pixels is read as its number, less the margin; the scale makes neither side larger than the canvas.\<close>

lemma canvas_measure_px:
  assumes "n \<le> 2 ^ 53"
  shows "canvas_measure (nat_str n @ ''px'') = Fin (of_int (int n - 50))"
proof -
  have "CHR ''p'' \<notin> set (nat_str n)" by (rule nat_str_no_char) (simp add: is_digit_def code_unit_def)
  then have "canvas_measure (nat_str n @ ''px'') = js_sub (js_nat n) (Fin 50)"
    using parseInt_nat [OF assms] by (simp add: canvas_measure_def indexOf_px)
  then show ?thesis using fl_int [of "int n - 50"] assms by (simp add: js_sub_def js_nat_def)
qed

lemma math_min_least: "\<not> js_lt a (math_min a b) \<and> \<not> js_lt b (math_min a b)"
  by (cases a; cases b) (auto simp: math_min_def)

lemma canvas_scale_fits:
  assumes "canvas_layout True w h gw gh = Zoomed k x y height width"
  shows "\<not> js_lt (js_div width (js_add gw (Fin 100))) k \<and> \<not> js_lt (js_div height (js_add gh (Fin 100))) k"
  using assms math_min_least by (auto simp: canvas_layout_def Let_def)

section \<open>Polling\<close>

lemma updateD3Graph_keeps:
  "updateD3Graph s = Inr s' \<Longrightarrow> lp_requests s' = lp_requests s \<and> lp_timeout s' = lp_timeout s \<and> lp_mounted s' = lp_mounted s"
  by (auto simp: updateD3Graph_def Let_def split: option.splits if_splits)

lemma lp_setState_keeps:
  assumes "\<And>s. lp_requests (f s) = lp_requests s" and "\<And>s. lp_mounted (f s) = lp_mounted s"
  shows "lp_requests (lp_setState pn em f s) = lp_requests s" and "lp_mounted (lp_setState pn em f s) \<Longrightarrow> lp_mounted s"
  using assms by (auto simp: lp_setState_def split: sum.splits if_splits dest: updateD3Graph_keeps)

interpretation lp: live_poller lp_timeout lp_requests "\<lambda>s. lp_query s = None \<or> \<not> lp_ended s" lp_refreshLoop "\<lambda>e. True"
  "lp_handle pathname isEmbedded" "\<lambda>s. s = lp_init" for pathname isEmbedded
proof unfold_locales
  fix e s
  show "lp_requests (lp_handle pathname isEmbedded e s) = lp_requests s - 1"
    by (cases e) (simp_all add: lp_then_def lp_catch_def lp_resetTimer_def lp_setState_keeps(1))
  show "lp_timeout (lp_handle pathname isEmbedded e s)"
    if "lp_query (lp_handle pathname isEmbedded e s) = None \<or> \<not> lp_ended (lp_handle pathname isEmbedded e s)"
    using that by (cases e) (simp_all add: lp_then_def lp_catch_def lp_resetTimer_def)
qed (simp_all add: lp_refreshLoop_def lp_init_def)

lemma unmounted_stays: "\<not> lp_mounted s \<Longrightarrow> \<not> lp_mounted (fold (lp_handle pathname isEmbedded) es s)"
proof (induction es arbitrary: s)
  case (Cons e es)
  then have "\<not> lp_mounted (lp_handle pathname isEmbedded e s)"
    by (cases e) (simp_all add: lp_then_def lp_catch_def lp_resetTimer_def lp_setState_def)
  with Cons.IH show ?case by simp
qed simp

lemma lp_setState_raises:
  assumes "updateD3Graph (f s) = Inl e" and "lp_mounted s"
  shows "\<not> lp_mounted (lp_setState pathname isEmbedded f s)"
  using assms by (cases "LivePlan_render pathname isEmbedded (f s)") (simp_all add: lp_setState_def)

text \<open>
  C39: an answer for a query that has no stages yet, which the page has a message for, raises while the graph is drawn and
  unmounts the page; no later answer brings it back.
\<close>

theorem queued_query_unmounts_plan:
  assumes "qi_outputStage query = None"
  shows "\<not> lp_mounted (fold (lp_handle pathname isEmbedded) (LP_Query query # es) s)"
proof -
  have "updateD3Graph (s\<lparr>lp_requests := k, lp_query := Some query, lp_initialized := True, lp_ended := b\<rparr>) = Inl TypeError" for k b
    using assms by (simp add: updateD3Graph_def plan_ops_def getStages_def)
  then have "\<not> lp_mounted (lp_handle pathname isEmbedded (LP_Query query) s)"
    by (cases "lp_mounted s") (auto simp: lp_then_def lp_resetTimer_def lp_setState_raises, simp add: lp_setState_def)
  then show ?thesis using unmounted_stays by simp
qed

theorem queued_query_unmounts_plan_witness:
  "\<not> lp_mounted (fold (lp_handle ''/ui/plan.html'' False) [LP_Query (example_info\<lparr>qi_outputStage := None\<rparr>), LP_Query example_info] lp_init)"
  by (rule queued_query_unmounts_plan) simp

end
