(* ===== verification/Mounting.thy ===== *)
theory Mounting
  imports Polling
begin

text \<open>
  Pages that may be unmounted.  React renders a component whenever its state is set.  An exception in a render or lifecycle
  method unmounts the page, since there is no error boundary, and leaves the handler that set the state, so that the rest of
  the handler does not run.  Setting the state of an unmounted component has no effect, but its timers and requests are still
  handled.  The state of a page is that of its component and whether it is mounted.
\<close>

fun set_states :: "('s \<Rightarrow> bool) \<Rightarrow> ('s \<Rightarrow> 's) list \<Rightarrow> ('s \<Rightarrow> 's) \<Rightarrow> 's \<times> bool \<Rightarrow> 's \<times> bool" where
  "set_states raises [] finish (s, mounted) = (finish s, mounted)"
| "set_states raises (f # fs) finish (s, True) = (if raises (f s) then (f s, False) else set_states raises fs finish (f s, True))"
| "set_states raises (f # fs) finish (s, False) = set_states raises fs finish (s, False)"

text \<open>
  A handler: the event arrives (\<open>receive\<close>), the state is set as the handler computes from the state it finds (\<open>updates\<close>),
  and the handler ends (\<open>finish\<close>).
\<close>

definition page_handle ::
  "('s \<Rightarrow> bool) \<Rightarrow> ('e \<Rightarrow> 's \<Rightarrow> 's) \<Rightarrow> ('e \<Rightarrow> 's \<Rightarrow> ('s \<Rightarrow> 's) list) \<Rightarrow> ('e \<Rightarrow> 's \<Rightarrow> 's) \<Rightarrow> 'e \<Rightarrow> 's \<times> bool \<Rightarrow> 's \<times> bool" where
  "page_handle raises receive updates finish e p =
     set_states raises (updates e (fst p)) (finish e) (receive e (fst p), snd p)"

definition page_tick :: "('s \<Rightarrow> 's) \<Rightarrow> 's \<times> bool \<Rightarrow> 's \<times> bool" where
  "page_tick tick p = (tick (fst p), snd p)"

lemma page_tick_simps [simp]: "fst (page_tick tick p) = tick (fst p)" "snd (page_tick tick p) = snd p"
  by (simp_all add: page_tick_def)

fun no_raise :: "('s \<Rightarrow> bool) \<Rightarrow> ('s \<Rightarrow> 's) list \<Rightarrow> 's \<Rightarrow> bool" where
  "no_raise raises [] s \<longleftrightarrow> True"
| "no_raise raises (f # fs) s \<longleftrightarrow> \<not> raises (f s) \<and> no_raise raises fs (f s)"

lemma set_states_ok: "no_raise raises fs s \<Longrightarrow> set_states raises fs finish (s, True) = (finish (fold (\<lambda>f. f) fs s), True)"
  by (induction fs arbitrary: s) auto

lemma set_states_unmounted: "set_states raises fs finish (s, False) = (finish s, False)"
  by (induction fs) auto

lemma set_states_induct:
  assumes "\<And>f t. f \<in> set fs \<Longrightarrow> P t \<Longrightarrow> P (f t)" and "\<And>t. P t \<Longrightarrow> P (finish t)" and "P s"
  shows "P (fst (set_states raises fs finish (s, mounted)))"
  using assms(1,3)
proof (induction fs arbitrary: s mounted)
  case (Cons f fs)
  then show ?case by (cases mounted) auto
qed (simp add: assms(2))

lemma set_states_mounted: "snd (set_states raises fs finish (s, mounted)) \<Longrightarrow> mounted \<and> (\<exists>t. fst (set_states raises fs finish (s, mounted)) = finish t)"
proof (induction fs arbitrary: s mounted)
  case (Cons f fs)
  then show ?case by (cases mounted) (auto split: if_splits)
qed auto

section \<open>Polling\<close>

text \<open>The contract of a component whose handlers have this form, and that its page polls as a component does.\<close>

locale mounted_poller =
  fixes pending :: "'s \<Rightarrow> bool" and outstanding :: "'s \<Rightarrow> nat" and continues :: "'s \<Rightarrow> bool"
    and tick :: "'s \<Rightarrow> 's" and answers :: "'e \<Rightarrow> bool"
    and receive :: "'e \<Rightarrow> 's \<Rightarrow> 's" and updates :: "'e \<Rightarrow> 's \<Rightarrow> ('s \<Rightarrow> 's) list" and finish :: "'e \<Rightarrow> 's \<Rightarrow> 's"
    and raises :: "'s \<Rightarrow> bool" and fresh :: "'s \<Rightarrow> bool"
  assumes tick_polls: "\<not> pending (tick s)" "outstanding (tick s) = Suc (outstanding s)"
    and receive_answer: "outstanding (receive e s) = (if answers e then outstanding s - 1 else outstanding s)"
    and receive_keeps: "pending (receive e s) \<longleftrightarrow> pending s"
    and receive_other: "\<not> answers e \<Longrightarrow> receive e s = s"
    and update_keeps: "f \<in> set (updates e s) \<Longrightarrow> outstanding (f t) = outstanding t"
      "f \<in> set (updates e s) \<Longrightarrow> pending (f t) \<longleftrightarrow> pending t"
    and update_other: "\<not> answers e \<Longrightarrow> f \<in> set (updates e s) \<Longrightarrow> continues (f t) \<Longrightarrow> continues t"
    and finish_outstanding: "outstanding (finish e t) = outstanding t"
    and finish_answer: "answers e \<Longrightarrow> continues (finish e t) \<Longrightarrow> pending (finish e t)"
    and finish_other: "\<not> answers e \<Longrightarrow> finish e t = t"
    and fresh_none: "fresh s \<Longrightarrow> outstanding s = 0"
begin

abbreviation handle :: "'e \<Rightarrow> 's \<times> bool \<Rightarrow> 's \<times> bool" where
  "handle \<equiv> page_handle raises receive updates finish"

lemma handle_outstanding: "outstanding (fst (handle e p)) = outstanding (receive e (fst p))"
  unfolding page_handle_def
  by (rule set_states_induct [where P = "\<lambda>t. outstanding t = outstanding (receive e (fst p))"])
    (auto simp: update_keeps(1) finish_outstanding)

lemma handle_pending: "\<not> answers e \<Longrightarrow> pending (fst (handle e p)) \<longleftrightarrow> pending (fst p)"
  unfolding page_handle_def
  by (rule set_states_induct [where P = "\<lambda>t. pending t \<longleftrightarrow> pending (fst p)"])
    (auto simp: update_keeps(2) receive_keeps finish_other)

lemma handle_continues: "\<not> answers e \<Longrightarrow> continues (fst (handle e p)) \<Longrightarrow> continues (fst p)"
  unfolding page_handle_def
  using set_states_induct [where P = "\<lambda>t. continues t \<longrightarrow> continues (fst p)" and fs = "updates e (fst p)" and s = "receive e (fst p)"
      and finish = "finish e" and raises = raises and mounted = "snd p"]
  by (auto simp: finish_other receive_other dest: update_other)

lemma handle_mounted: "snd (handle e p) \<Longrightarrow> snd p"
  unfolding page_handle_def using set_states_mounted by fastforce

end

sublocale mounted_poller \<subseteq> live_poller "\<lambda>p. pending (fst p)" "\<lambda>p. outstanding (fst p)" "\<lambda>p. snd p \<and> continues (fst p)"
  "page_tick tick" answers "page_handle raises receive updates finish" "\<lambda>p. fresh (fst p)"
proof unfold_locales
  fix e p
  assume a: "answers e"
  show "outstanding (fst (handle e p)) = outstanding (fst p) - 1" using a by (simp add: handle_outstanding receive_answer)
  show "pending (fst (handle e p))" if "snd (handle e p) \<and> continues (fst (handle e p))"
    using that finish_answer [OF a] set_states_mounted [of raises "updates e (fst p)" "finish e" "receive e (fst p)" "snd p"]
    unfolding page_handle_def by auto
next
  fix e p
  assume a: "\<not> answers e"
  show "outstanding (fst (handle e p)) = outstanding (fst p)" using a by (simp add: handle_outstanding receive_answer)
  show "pending (fst (handle e p)) = pending (fst p)" using a by (rule handle_pending)
  show "snd p \<and> continues (fst p)" if "snd (handle e p) \<and> continues (fst (handle e p))"
    using that handle_continues [OF a] handle_mounted by blast
qed (simp_all add: tick_polls fresh_none)

context mounted_poller
begin

text \<open>An exception while an answer is shown stops the page for good: it never sends a request again.\<close>

lemma stopped_stays:
  assumes "\<not> snd p \<and> \<not> pending (fst p) \<and> outstanding (fst p) = 0"
    and "poll_step (\<lambda>p. pending (fst p)) (\<lambda>p. outstanding (fst p)) (page_tick tick) answers handle p a p'"
  shows "\<not> snd p' \<and> \<not> pending (fst p') \<and> outstanding (fst p') = 0"
proof (cases a)
  case (Event e)
  then have p': "p' = handle e p" and e: "\<not> answers e" using assms by auto
  then have "\<not> snd p'" using assms(1) handle_mounted by blast
  moreover have "\<not> pending (fst p')" using p' assms(1) handle_pending [OF e] by simp
  moreover have "outstanding (fst p') = 0" using p' assms(1) e by (simp add: handle_outstanding receive_answer)
  ultimately show ?thesis by blast
qed (use assms in auto)

lemma raising_answer_stops:
  assumes "poll_reach (\<lambda>p. pending (fst p)) (\<lambda>p. outstanding (fst p)) (page_tick tick) answers handle p0 p" and "fresh (fst p0)"
    and "answers e" and "0 < outstanding (fst p)" and "updates e (fst p) = f # fs" and "raises (f (receive e (fst p)))" and "snd p"
  shows "\<not> snd (handle e p) \<and> \<not> pending (fst (handle e p)) \<and> outstanding (fst (handle e p)) = 0"
proof -
  have "outstanding (fst p) = 1" and "\<not> pending (fst p)" using single_series [OF assms(1)] assms(2,4) by auto
  moreover have "handle e p = (f (receive e (fst p)), False)" using assms(5-7) by (simp add: page_handle_def)
  moreover have "f \<in> set (updates e (fst p))" using assms(5) by simp
  ultimately show ?thesis using assms(3) update_keeps [of f e "fst p"] by (simp add: receive_answer receive_keeps)
qed

end

section \<open>Pages that stay mounted\<close>

text \<open>If everything the page is fed keeps a condition under which it is rendered, it stays mounted and goes on.\<close>

locale fed_page = mounted_poller pending outstanding continues tick answers receive updates finish raises fresh
  for pending :: "'s \<Rightarrow> bool" and outstanding continues tick and answers :: "'e \<Rightarrow> bool" and receive updates finish raises fresh +
  fixes good_event :: "'e \<Rightarrow> bool" and good :: "'s \<Rightarrow> bool"
  assumes good_tick: "good s \<Longrightarrow> good (tick s)"
    and good_receive: "good s \<Longrightarrow> good (receive e s)"
    and good_update: "good_event e \<Longrightarrow> good s \<Longrightarrow> good t \<Longrightarrow> f \<in> set (updates e s) \<Longrightarrow> good (f t)"
    and good_finish: "good s \<Longrightarrow> good (finish e s)"
    and good_renders: "good s \<Longrightarrow> \<not> raises s"
begin

lemma good_no_raise: "(\<And>f t. f \<in> set fs \<Longrightarrow> good t \<Longrightarrow> good (f t)) \<Longrightarrow> good s \<Longrightarrow> no_raise raises fs s \<and> good (fold (\<lambda>f. f) fs s)"
  by (induction fs arbitrary: s) (auto simp: good_renders)

lemma good_handle:
  assumes "good_event e" and "good (fst p)" and "snd p"
  shows "handle e p = (finish e (fold (\<lambda>f. f) (updates e (fst p)) (receive e (fst p))), True)" and "good (fst (handle e p))"
proof -
  have "no_raise raises (updates e (fst p)) (receive e (fst p)) \<and> good (fold (\<lambda>f. f) (updates e (fst p)) (receive e (fst p)))"
    using good_update [OF assms(1,2)] good_receive [OF assms(2)] by (intro good_no_raise) auto
  then show "handle e p = (finish e (fold (\<lambda>f. f) (updates e (fst p)) (receive e (fst p))), True)" and "good (fst (handle e p))"
    using assms(3) by (simp_all add: page_handle_def set_states_ok good_finish)
qed

lemma stays_mounted:
  assumes "fair_run (\<lambda>p. pending (fst p)) (\<lambda>p. outstanding (fst p)) (page_tick tick) answers handle p0 run acts"
    and "good (fst p0)" and "snd p0" and "\<And>i e. acts i = Event e \<Longrightarrow> good_event e"
  shows "snd (run i) \<and> good (fst (run i))"
proof (induction i)
  case 0
  then show ?case using assms(1-3) by (simp add: fair_run_def good_tick)
next
  case (Suc i)
  have "poll_step (\<lambda>p. pending (fst p)) (\<lambda>p. outstanding (fst p)) (page_tick tick) answers handle (run i) (acts i) (run (Suc i))"
    using assms(1) by (simp add: fair_run_def)
  then show ?case using Suc good_handle [of _ "run i"] assms(4) [of i] by (cases "acts i") (auto simp: good_tick)
qed

lemma goes_on:
  assumes "fair_run (\<lambda>p. pending (fst p)) (\<lambda>p. outstanding (fst p)) (page_tick tick) answers handle p0 run acts"
    and "good (fst p0)" and "snd p0" and "\<And>i e. acts i = Event e \<Longrightarrow> good_event e"
  shows "snd (run i) \<and> (\<exists>j \<ge> i. acts j = Timer \<or> \<not> continues (fst (run j)))"
proof -
  have "snd (run j)" for j using stays_mounted [OF assms(1-3)] assms(4) by blast
  then show ?thesis using polls_again [OF assms(1), of i] by blast
qed

end

end
