(* ===== verification/StageDetail.thy ===== *)
theory StageDetail
  imports LivePlan ParseUnits JsSort
begin

text \<open>
  \<open>webapp/src/components/StageDetail.jsx\<close>: the operators of a stage as a graph, the detail of one operator, and the page
  with its choice of a stage.  Calls to the graph library are lists as in \<open>LivePlan\<close>; a bar chart is what the plugin is given.
\<close>

section \<open>Operators\<close>

definition duration_value :: "string \<Rightarrow> jsnum" where
  "duration_value s = to_number (parseDuration s)"

definition getTotalWallTime :: "operator_summary \<Rightarrow> jsnum" where
  "getTotalWallTime operator =
     js_add (js_add (js_add (duration_value (os_addInputWall operator)) (duration_value (os_getOutputWall operator)))
       (duration_value (os_finishWall operator))) (duration_value (os_blockedWall operator))"

text \<open>The rate over a time in milliseconds, per second or per millisecond as the divisor says.\<close>

definition rate_over :: "jsnum \<Rightarrow> jsnum \<Rightarrow> jsnum \<Rightarrow> jsnum" where
  "rate_over totalWallTime amount divisor =
     (if js_eq totalWallTime (Fin 0) then Fin 0 else js_div (js_mul (Fin 1) amount) divisor)"

definition table_row :: "string \<Rightarrow> string \<Rightarrow> 'e vnode" where
  "table_row title value = El ''tr'' [] [El ''td'' [] [Text title], El ''td'' [] [Text value]]"

definition rows_and_size :: "jsnum \<Rightarrow> string \<Rightarrow> string" where
  "rows_and_size rows data = formatCount rows @ '' rows ('' @ data @ '')''"

definition rates_text :: "jsnum \<Rightarrow> jsnum \<Rightarrow> string" where
  "rates_text rows bytes = formatCount rows @ '' rows/s ('' @ formatDataSize bytes @ ''/s)''"

definition OperatorSummary_render :: "operator_summary \<Rightarrow> 'e vnode" where
  "OperatorSummary_render operator =
     (let totalWallTime = getTotalWallTime operator; secs = js_div totalWallTime (Fin 1000);
          rowInputRate = rate_over totalWallTime (os_inputPositions operator) secs;
          byteInputRate = rate_over totalWallTime (to_number (parseDataSize (os_inputDataSize operator))) secs
      in El ''div'' []
        [divC ''highlight-row''
          [divC ''header-row'' [Text (os_operatorType operator)], El ''div'' [] [Text (rates_text rowInputRate byteInputRate)]],
         El ''table'' [cls ''table''] [El ''tbody'' []
          [table_row ''Output'' (rows_and_size (os_outputPositions operator) (os_outputDataSize operator)),
           table_row ''Drivers'' (num_str (os_totalDrivers operator)),
           table_row ''Wall Time'' (formatDuration totalWallTime),
           table_row ''Blocked'' (formatDuration (duration_value (os_blockedWall operator))),
           table_row ''Input'' (rows_and_size (os_inputPositions operator) (os_inputDataSize operator))]]])"

text \<open>A bar chart: its element, the values, the width of a bar, the names of the bars and the formatter of values, if any.\<close>

record bar_chart =
  bc_id :: string
  bc_values :: "jsnum option list"
  bc_barWidth :: jsnum
  bc_offsets :: "string list"
  bc_formatter :: "(jsnum \<Rightarrow> string) option"

record statistic =
  st_name :: string
  st_id :: string
  st_supplier :: "operator_summary \<Rightarrow> jsnum option"
  st_renderer :: "jsnum \<Rightarrow> string"

definition OperatorStatistic_componentDidMount :: "statistic \<Rightarrow> operator_summary list \<Rightarrow> bar_chart" where
  "OperatorStatistic_componentDidMount st operators =
     (let numTasks = length operators in
      \<lparr>bc_id = ''#'' @ st_id st, bc_values = map (st_supplier st) operators, bc_barWidth = js_div (Fin 800) (js_nat numTasks),
       bc_offsets = map nat_str [0..<numTasks], bc_formatter = Some (st_renderer st)\<rparr>)"

definition OperatorStatistic_render :: "statistic \<Rightarrow> 'e vnode" where
  "OperatorStatistic_render st =
     divC ''row operator-statistic''
       [divC ''col-xs-2 italic-uppercase operator-statistic-title'' [Text (st_name st)],
        divC ''col-xs-10'' [El ''span'' [cls ''bar-chart'', AStr ''id'' (st_id st)] []]]"

definition getInitialStatistics :: "statistic list" where
  "getInitialStatistics =
     [\<lparr>st_name = ''Total Wall Time'', st_id = ''totalWallTime'', st_supplier = \<lambda>operator. Some (getTotalWallTime operator),
       st_renderer = formatDuration\<rparr>,
      \<lparr>st_name = ''Input Rows'', st_id = ''inputPositions'', st_supplier = \<lambda>operator. Some (os_inputPositions operator),
       st_renderer = formatCount\<rparr>,
      \<lparr>st_name = ''Input Data Size'', st_id = ''inputDataSize'', st_supplier = \<lambda>operator. parseDataSize (os_inputDataSize operator),
       st_renderer = formatDataSize\<rparr>,
      \<lparr>st_name = ''Output Rows'', st_id = ''outputPositions'', st_supplier = \<lambda>operator. Some (os_outputPositions operator),
       st_renderer = formatCount\<rparr>,
      \<lparr>st_name = ''Output Data Size'', st_id = ''outputDataSize'', st_supplier = \<lambda>operator. parseDataSize (os_outputDataSize operator),
       st_renderer = formatDataSize\<rparr>]"

text \<open>Sorting a property that is not there raises; so does reading a property of an operator that was not found.\<close>

definition compare_task_number :: "task_info \<Rightarrow> task_info \<Rightarrow> jsnum" where
  "compare_task_number taskA taskB = js_sub (getTaskNumber (tk_taskId taskA)) (getTaskNumber (tk_taskId taskB))"

definition matching_operators :: "operator_summary \<Rightarrow> task_info \<Rightarrow> operator_summary list" where
  "matching_operators operatorSummary task =
     concat (map (\<lambda>pipeline. filter (\<lambda>operator. os_operatorId operatorSummary = os_operatorId operator) (pl_operatorSummaries pipeline))
       (filter (\<lambda>pipeline. pl_pipelineId pipeline = os_pipelineId operatorSummary) (ts_pipelines (tk_stats task))))"

definition getOperatorTasks :: "operator_summary option \<Rightarrow> task_info list option \<Rightarrow> exn + operator_summary list" where
  "getOperatorTasks operator tasks' =
     res_bind (res_of_option TypeError tasks') (\<lambda>tasks.
       case operator of
         Some operatorSummary \<Rightarrow> Inr (concat (map (matching_operators operatorSummary) (js_sort compare_task_number tasks)))
       | None \<Rightarrow> if list_all (\<lambda>task. ts_pipelines (tk_stats task) = []) tasks then Inr [] else Inl TypeError)"

definition operator_rates :: "operator_summary \<Rightarrow> 'e vnode" where
  "operator_rates operator =
     (let totalWallTime = getTotalWallTime operator; secs = js_div totalWallTime (Fin 1000);
          rowInputRate = rate_over totalWallTime (os_inputPositions operator) totalWallTime;
          byteInputRate = rate_over totalWallTime (to_number (parseDataSize (os_inputDataSize operator))) secs;
          rowOutputRate = rate_over totalWallTime (os_outputPositions operator) totalWallTime;
          byteOutputRate = rate_over totalWallTime (to_number (parseDataSize (os_outputDataSize operator))) secs
      in divC ''col-xs-6'' [El ''table'' [cls ''table''] [El ''tbody'' []
        [table_row ''Input'' (rows_and_size (os_inputPositions operator) (os_inputDataSize operator)),
         table_row ''Input Rate'' (rates_text rowInputRate byteInputRate),
         table_row ''Output'' (rows_and_size (os_outputPositions operator) (os_outputDataSize operator)),
         table_row ''Output Rate'' (rates_text rowOutputRate byteOutputRate)]]])"

definition operator_times :: "operator_summary \<Rightarrow> operator_summary list \<Rightarrow> 'e vnode" where
  "operator_times operator operatorTasks =
     divC ''col-xs-6'' [El ''table'' [cls ''table''] [El ''tbody'' []
       [table_row ''Wall Time'' (formatDuration (getTotalWallTime operator)),
        table_row ''Blocked'' (formatDuration (duration_value (os_blockedWall operator))),
        table_row ''Drivers'' (num_str (os_totalDrivers operator)),
        table_row ''Tasks'' (nat_str (length operatorTasks))]]]"

definition OperatorDetail_render :: "operator_summary option \<Rightarrow> task_info list option \<Rightarrow> exn + 'e vnode" where
  "OperatorDetail_render operator' tasks =
     res_bind (getOperatorTasks operator' tasks) (\<lambda>operatorTasks.
     res_map (\<lambda>operator.
       divC ''row'' [divC ''col-xs-12''
         ([divC ''modal-header''
            [El ''button'' [AStr ''type'' ''button'', cls ''close'', AStr ''data-dismiss'' ''modal'', AStr ''aria-label'' ''Close'']
              [El ''span'' [AStr ''aria-hidden'' ''true''] [Text [CHR 0xD7]]],
             El ''h3'' []
              [El ''small'' [] [Text ''Pipeline '', num_child (Fin (of_int (os_pipelineId operator)))], El ''br'' [] [],
               Text (os_operatorType operator)]],
           divC ''row'' [operator_rates operator, operator_times operator operatorTasks],
           divC ''row font-white''
            [divC ''col-xs-2 italic-uppercase'' [El ''strong'' [] [Text ''Statistic'']],
             divC ''col-xs-10 italic-uppercase'' [El ''strong'' [] [Text ''Tasks'']]]]
          @ map (\<lambda>st. Keyed (st_id st) (OperatorStatistic_render st)) getInitialStatistics
          @ [El ''p'' [] [], El ''p'' [] []])])
       (res_of_option TypeError operator'))"

section \<open>The operator graph\<close>

text \<open>
  \<open>Map\<close>s of lists, filled by pushing, and operators linked to the operator they read from: the copies the code makes
  carry their source in the property \<open>child\<close>.
\<close>

definition map_push :: "('k \<times> 'v list) list \<Rightarrow> 'k \<Rightarrow> 'v \<Rightarrow> ('k \<times> 'v list) list" where
  "map_push m k v = obj_set m k ((case obj_get m k of None \<Rightarrow> [] | Some vs \<Rightarrow> vs) @ [v])"

datatype linked_operator = Linked (lo_operator: operator_summary) (lo_child: "linked_operator option")

definition computeOperatorMap :: "operator_summary list \<Rightarrow> (string \<times> operator_summary list) list" where
  "computeOperatorMap operatorSummaries = foldl (\<lambda>m operator. map_push m (os_planNodeId operator) operator) [] operatorSummaries"

definition pipeline_operators :: "operator_summary list \<Rightarrow> (int \<times> operator_summary list) list" where
  "pipeline_operators nodeOperators = foldl (\<lambda>m operator. map_push m (os_pipelineId operator) operator) [] nodeOperators"

definition compare_operator_id :: "operator_summary \<Rightarrow> operator_summary \<Rightarrow> jsnum" where
  "compare_operator_id a b = js_sub (Fin (of_int (os_operatorId a))) (Fin (of_int (os_operatorId b)))"

definition link_operators :: "linked_operator option \<Rightarrow> operator_summary list \<Rightarrow> linked_operator option" where
  "link_operators child linkedOperators =
     (case linkedOperators of
        [] \<Rightarrow> None
      | sourceOperator # rest \<Rightarrow>
          Some (foldl (\<lambda>currentOperator source. Linked source (Some currentOperator)) (Linked sourceOperator child) rest))"

text \<open>The first source that knows a pipeline provides it; the code reports the others.\<close>

definition merge_results :: "(int \<times> linked_operator) list \<Rightarrow> (int \<times> linked_operator) list \<Rightarrow> (int \<times> linked_operator) list" where
  "merge_results first second =
     foldl (\<lambda>m (pipelineId, operator). if obj_get m pipelineId = None then obj_set m pipelineId operator else m) first second"

definition link_pipeline ::
  "(int \<times> linked_operator) list \<Rightarrow> (int \<times> linked_operator) list \<Rightarrow> int \<times> operator_summary list \<Rightarrow> (int \<times> linked_operator) list" where
  "link_pipeline sourceResults result entry =
     (let (pipelineId, operators) = entry in
      case link_operators (obj_get sourceResults pipelineId) (js_sort compare_operator_id operators) of
        None \<Rightarrow> result | Some sinkOperator \<Rightarrow> obj_set result pipelineId sinkOperator)"

definition node_results ::
  "operator_summary list \<Rightarrow> (int \<times> linked_operator) list \<Rightarrow> (int \<times> linked_operator) list" where
  "node_results nodeOperators sourceResults = foldl (link_pipeline sourceResults) [] (pipeline_operators nodeOperators)"

lemma res_mapM_cong [fundef_cong]:
  "xs = ys \<Longrightarrow> (\<And>x. x \<in> set ys \<Longrightarrow> f x = g x) \<Longrightarrow> res_mapM f xs = res_mapM g ys"
proof (induction ys arbitrary: xs)
  case (Cons y ys)
  then show ?case by simp
qed simp

function computeOperatorGraphs ::
  "(string \<times> operator_summary list) list \<Rightarrow> plan_node \<Rightarrow> exn + (int \<times> linked_operator) list" where
  "computeOperatorGraphs operatorMap planNode =
     res_map (\<lambda>results.
       let sourceResults = foldl merge_results [] results in
       case obj_get operatorMap (pn_id planNode) of
         None \<Rightarrow> sourceResults
       | Some nodeOperators \<Rightarrow>
           if nodeOperators = [] then sourceResults
           else merge_results (node_results nodeOperators sourceResults) sourceResults)
       (res_mapM (\<lambda>source. case source of None \<Rightarrow> Inl TypeError | Some child \<Rightarrow> computeOperatorGraphs operatorMap child)
         (getChildren planNode))"
  by auto
termination
  by (relation "measure (\<lambda>(m, n). size n)") (auto dest: getChildren_size)

definition operator_node_id :: "operator_summary \<Rightarrow> string" where
  "operator_node_id operator =
     ''operator-'' @ num_str (Fin (of_int (os_pipelineId operator))) @ ''-'' @ num_str (Fin (of_int (os_operatorId operator)))"

fun computeD3StageOperatorGraph :: "linked_operator \<Rightarrow> string option \<Rightarrow> string \<Rightarrow> graph_op list" where
  "computeD3StageOperatorGraph (Linked operator child) sink pipelineNode =
     [SetNode (operator_node_id operator) [(''class'', ''operator-stats''), (''labelType'', ''html'')]
        (Some (OperatorSummary_render operator))]
     @ (case child of None \<Rightarrow> []
        | Some source \<Rightarrow> computeD3StageOperatorGraph source (Some (operator_node_id operator)) pipelineNode)
     @ (case sink of None \<Rightarrow> []
        | Some sinkId \<Rightarrow> [SetEdge (operator_node_id operator) sinkId
            [(''class'', ''plan-edge''), (''arrowheadClass'', ''plan-arrowhead'')]])
     @ [SetParent (operator_node_id operator) pipelineNode]"

definition pipeline_node_id :: "int \<Rightarrow> string" where
  "pipeline_node_id pipelineId = ''pipeline-'' @ num_str (Fin (of_int pipelineId))"

definition pipeline_ops :: "int \<times> linked_operator \<Rightarrow> graph_op list" where
  "pipeline_ops entry =
     (let (pipelineId, operator) = entry in
      SetNode (pipeline_node_id pipelineId)
        [(''label'', ''Pipeline '' @ num_str (Fin (of_int pipelineId)) @ '' ''), (''clusterLabelPos'', ''top''),
         (''style'', ''fill: #2b2b2b''), (''labelStyle'', ''fill: #fff'')] None
      # computeD3StageOperatorGraph operator None (pipeline_node_id pipelineId))"

text \<open>The graph of a stage; it is shown if it has a pipeline.\<close>

definition operator_graph :: "stage_info \<Rightarrow> exn + graph_op list" where
  "operator_graph stage =
     res_bind (res_of_option TypeError (stg_plan stage)) (\<lambda>plan.
     res_map (\<lambda>operatorGraphs. concat (map pipeline_ops operatorGraphs))
       (computeOperatorGraphs (computeOperatorMap (ss_operatorSummaries (se_stats (stg_latest stage)))) (sp_root plan)))"

text \<open>
  A click on an operator looks for its summary and renders its detail with \<open>stage.tasks\<close>, a property no stage has: the tasks
  are in \<open>latestAttemptExecutionInfo\<close>.
\<close>

definition parse_id :: "string \<Rightarrow> nat \<Rightarrow> int option" where
  "parse_id cssId i = (let parts = js_split (CHR ''-'') cssId in if i < length parts then parseInt_int (parts ! i) else None)"

definition find_summary :: "string \<Rightarrow> operator_summary list \<Rightarrow> operator_summary option" where
  "find_summary operatorCssId operatorSummaries =
     foldl (\<lambda>found operator. if Some (os_pipelineId operator) = parse_id operatorCssId 1
         \<and> Some (os_operatorId operator) = parse_id operatorCssId 2 then Some operator else found) None operatorSummaries"

definition handleOperatorClick :: "string \<Rightarrow> stage_info \<Rightarrow> exn + unit vnode" where
  "handleOperatorClick operatorCssId stage =
     OperatorDetail_render (find_summary operatorCssId (ss_operatorSummaries (se_stats (stg_latest stage)))) None"

definition StageOperatorGraph_render :: "stage_info \<Rightarrow> 'e vnode" where
  "StageOperatorGraph_render stage =
     (if stg_plan stage = None then
        divC ''row error-message'' [divC ''col-xs-12'' [El ''h4'' [] [Text ''Stage does not have a plan'']]]
      else if length (ss_operatorSummaries (se_stats (stg_latest stage))) = 0 then
        divC ''row error-message'' [divC ''col-xs-12''
          [El ''h4'' [] [Text ''Operator data not available for '', Text (stg_stageId stage)]]]
      else Nothing)"

section \<open>The page\<close>

text \<open>
  A request carries the stage that was selected when it was sent; the answer selects it again.  The selection is kept as the
  text it contributes to the identifier of a stage.
\<close>

record sd_state =
  sd_initialized :: bool
  sd_ended :: bool
  sd_selectedStageId :: "string option"
  sd_query :: "query_info option"
  sd_timeout :: bool
  sd_requests :: "string list"

definition sd_init :: sd_state where
  "sd_init = \<lparr>sd_initialized = False, sd_ended = False, sd_selectedStageId = None, sd_query = None, sd_timeout = False,
     sd_requests = []\<rparr>"

definition sd_resetTimer :: "sd_state \<Rightarrow> sd_state" where
  "sd_resetTimer s = s\<lparr>sd_timeout := sd_query s = None \<or> \<not> sd_ended s\<rparr>"

definition requested_stage :: "string \<Rightarrow> sd_state \<Rightarrow> string" where
  "requested_stage search s =
     (let queryString = js_split (CHR ''.'') (getFirstParameter search) in
      case sd_selectedStageId s of
        Some selectedStageId \<Rightarrow> selectedStageId
      | None \<Rightarrow> if length queryString > 1 then num_str (parseInt (queryString ! 1)) else ''0'')"

definition sd_url :: "string \<Rightarrow> string" where
  "sd_url search = ''/v1/query/'' @ hd (js_split (CHR ''.'') (getFirstParameter search))"

definition sd_refreshLoop :: "string \<Rightarrow> sd_state \<Rightarrow> sd_state" where
  "sd_refreshLoop search s = s\<lparr>sd_timeout := False, sd_requests := sd_requests s @ [requested_stage search s]\<rparr>"

definition sd_success :: "string \<Rightarrow> query_info \<Rightarrow> sd_state \<Rightarrow> sd_state" where
  "sd_success selectedStageId query s =
     sd_resetTimer (s\<lparr>sd_initialized := True, sd_ended := qi_finalQueryInfo query,
       sd_selectedStageId := Some selectedStageId, sd_query := Some query\<rparr>)"

definition sd_error :: "sd_state \<Rightarrow> sd_state" where
  "sd_error s = sd_resetTimer (s\<lparr>sd_initialized := True\<rparr>)"

datatype sd_event = SD_Query query_info | SD_Error | SD_Select string

fun sd_answers :: "sd_event \<Rightarrow> bool" where
  "sd_answers (SD_Query query) \<longleftrightarrow> True"
| "sd_answers SD_Error \<longleftrightarrow> True"
| "sd_answers (SD_Select stageId) \<longleftrightarrow> False"

fun sd_handle :: "sd_event \<Rightarrow> sd_state \<Rightarrow> sd_state" where
  "sd_handle (SD_Query query) s = sd_success (hd (sd_requests s)) query (s\<lparr>sd_requests := tl (sd_requests s)\<rparr>)"
| "sd_handle SD_Error s = sd_error (s\<lparr>sd_requests := tl (sd_requests s)\<rparr>)"
| "sd_handle (SD_Select stageId) s = s\<lparr>sd_selectedStageId := Some stageId\<rparr>"

fun findStage :: "string \<Rightarrow> stage_info \<Rightarrow> stage_info option"
  and findStages :: "string \<Rightarrow> stage_info list \<Rightarrow> stage_info option" where
  "findStage stageId (StageInfo i plan latest previous subStages) =
     (if i = stageId then Some (StageInfo i plan latest previous subStages) else findStages stageId subStages)"
| "findStages stageId [] = None"
| "findStages stageId (stage # stages) =
     (case findStage stageId stage of Some found \<Rightarrow> Some found | None \<Rightarrow> findStages stageId stages)"

fun getAllStageIds :: "stage_info \<Rightarrow> exn + string list"
  and getAllStageIds_list :: "stage_info list \<Rightarrow> exn + string list" where
  "getAllStageIds (StageInfo i plan latest previous subStages) =
     res_bind (res_of_option TypeError plan) (\<lambda>plan. res_map (\<lambda>ids. sp_id plan # ids) (getAllStageIds_list subStages))"
| "getAllStageIds_list [] = Inr []"
| "getAllStageIds_list (stage # stages) =
     res_bind (getAllStageIds stage) (\<lambda>ids. res_map (\<lambda>rest. ids @ rest) (getAllStageIds_list stages))"

datatype sd_click = SD_Header header_event | SD_Choose string

definition error_row :: "'e vnode list \<Rightarrow> 'e vnode" where
  "error_row kids = divC ''row error-message'' [divC ''col-xs-12'' kids]"

definition stage_operator_graph :: "query_info \<Rightarrow> stage_info \<Rightarrow> 'e vnode" where
  "stage_operator_graph query stage =
     (if \<not> isQueryEnded query then
        error_row [El ''h4'' [] [Text ''Operator graph will appear automatically when query completes.''],
          divC ''loader'' [Text ''Loading...'']]
      else StageOperatorGraph_render stage)"

definition stage_menu :: "stage_info \<Rightarrow> string list \<Rightarrow> sd_click vnode" where
  "stage_menu stage allStages =
     divC ''row'' [divC ''col-xs-12'' [divC ''row''
       [divC ''col-xs-2'' [El ''h3'' [] [Text ''Stage '', opt_child (map_option sp_id (stg_plan stage))]],
        divC ''col-xs-8'' [],
        divC ''col-xs-2 stage-dropdown''
         [divC ''input-group-btn''
           [El ''button'' [AStr ''type'' ''button'', cls ''btn btn-default dropdown-toggle'', AStr ''data-toggle'' ''dropdown'',
                AStr ''aria-haspopup'' ''true'', AStr ''aria-expanded'' ''false'']
              [Text ''Select Stage '', spanC ''caret'' []],
            El ''ul'' [cls ''dropdown-menu'']
              (map (\<lambda>stageId. Keyed stageId (El ''li'' [] [El ''a'' [AOn ''onClick'' (SD_Choose stageId)] [Text stageId]])) allStages)]]]]]"

definition StageDetail_render :: "string \<Rightarrow> sd_state \<Rightarrow> exn + sd_click vnode" where
  "StageDetail_render pathname s =
     (case sd_query s of
        None \<Rightarrow> Inr (error_row [El ''h4'' [] [loading_label (sd_initialized s)]])
      | Some query \<Rightarrow>
         (case qi_outputStage query of
            None \<Rightarrow> Inr (error_row [El ''h4'' [] [Text ''Query does not have an output stage'']])
          | Some outputStage \<Rightarrow>
             res_bind (getAllStageIds outputStage) (\<lambda>allStages.
               case findStage (q_queryId query @ ''.'' @ (case sd_selectedStageId s of Some i \<Rightarrow> i | None \<Rightarrow> ''null'')) outputStage of
                 None \<Rightarrow> Inr (error_row [El ''h4'' [] [Text ''Stage not found'']])
               | Some stage \<Rightarrow>
                   res_map (\<lambda>header.
                     El ''div'' [] [map_vnode SD_Header header, stage_menu stage allStages, El ''hr'' [cls ''h3-hr''] [],
                       divC ''row'' [divC ''col-xs-12'' [stage_operator_graph query stage]]])
                     (QueryHeader_render pathname query))))"

end
