(* ===== verification/StageDetailProofs.thy ===== *)
theory StageDetailProofs
  imports StageDetail
begin

text \<open>
  Properties of the page of a stage: its operator graph shows every operator and refers only to nodes it creates, every
  stage it offers can be selected, and what a click during a request and a click on an operator do.
\<close>

section \<open>Maps of lists\<close>

lemma map_push_spec:
  assumes "obj_ok m"
  shows "obj_ok (map_push m k v)"
    and "obj_get (map_push m k v) = (obj_get m)(k \<mapsto> (case obj_get m k of None \<Rightarrow> [] | Some vs \<Rightarrow> vs) @ [v])"
  using assms by (simp_all add: map_push_def obj.inv_put obj.get_put)

definition nonempty :: "'a list \<Rightarrow> 'a list option" where
  "nonempty xs = (if xs = [] then None else Some xs)"

lemma nonempty_simps [simp]:
  "nonempty xs = None \<longleftrightarrow> xs = []"
  "nonempty xs = Some ys \<longleftrightarrow> ys = xs \<and> xs \<noteq> []"
  by (auto simp: nonempty_def)

lemma obj_ok_Nil [simp]: "obj_ok []"
  by (simp add: obj_ok_def)

lemma obj_get_Nil [simp]: "obj_get [] k = None"
  by (simp add: obj_get_def)

text \<open>Pushing every element under its key groups the elements by key.\<close>

lemma map_push_fold:
  "obj_ok (foldl (\<lambda>m x. map_push m (f x) x) [] xs)
   \<and> obj_get (foldl (\<lambda>m x. map_push m (f x) x) [] xs) k = nonempty (filter (\<lambda>x. f x = k) xs)"
proof (induction xs arbitrary: k rule: rev_induct)
  case (snoc x xs)
  let ?m = "foldl (\<lambda>m x. map_push m (f x) x) [] xs"
  have ok: "obj_ok ?m" and get: "obj_get ?m k' = nonempty (filter (\<lambda>x. f x = k') xs)" for k' using snoc by blast+
  show ?case using map_push_spec [OF ok] by (simp add: get) (simp add: nonempty_def)
qed (simp add: nonempty_def)

lemma computeOperatorMap_get:
  "obj_get (computeOperatorMap ops) k = nonempty (filter (\<lambda>x. os_planNodeId x = k) ops)"
  using map_push_fold [of os_planNodeId ops k] by (simp add: computeOperatorMap_def)

lemma pipeline_operators_spec:
  "obj_ok (pipeline_operators ops)"
  "obj_get (pipeline_operators ops) p = nonempty (filter (\<lambda>x. os_pipelineId x = p) ops)"
  using map_push_fold [of os_pipelineId ops p] by (simp_all add: pipeline_operators_def)

section \<open>Merging and linking\<close>

lemma obj_ok_Cons: "obj_ok (e # es) \<longleftrightarrow> fst e \<notin> fst ` set es \<and> obj_ok es"
  by (simp add: obj_ok_def)

lemma obj_get_Cons: "obj_get (e # es) k = (if k = fst e then Some (snd e) else obj_get es k)"
  by (cases e) (simp add: obj_get_def)

lemma obj_get_fresh: "fst e \<notin> fst ` set es \<Longrightarrow> obj_get es (fst e) = None"
  by (simp add: obj_get_def map_of_eq_None_iff)

lemma merge_results_spec:
  assumes "obj_ok a" and "obj_ok b"
  shows "obj_ok (merge_results a b)
    \<and> obj_get (merge_results a b) p = (case obj_get a p of None \<Rightarrow> obj_get b p | Some x \<Rightarrow> Some x)"
  using assms unfolding merge_results_def
proof (induction b arbitrary: a)
  case (Cons e b)
  let ?a = "if obj_get a (fst e) = None then obj_set a (fst e) (snd e) else a"
  have ok: "obj_ok ?a" using Cons.prems(1) by (simp add: obj.inv_put)
  have b: "obj_ok b" "obj_get b (fst e) = None" using Cons.prems(2) by (auto simp: obj_ok_Cons obj_get_fresh)
  have "obj_get ?a p = (if p = fst e \<and> obj_get a p = None then Some (snd e) else obj_get a p)"
    using Cons.prems(1) by (auto simp: obj.get_put)
  with Cons.IH [OF ok b(1)] b(2) show ?case
    by (auto simp: case_prod_beta obj_get_Cons split: option.splits if_splits)
qed (auto split: option.splits)

fun first_some :: "'a option list \<Rightarrow> 'a option" where
  "first_some [] = None"
| "first_some (x # xs) = (case x of None \<Rightarrow> first_some xs | Some y \<Rightarrow> Some y)"

lemma first_some_member: "first_some xs = Some y \<Longrightarrow> Some y \<in> set xs"
  by (induction xs) (auto split: option.splits)

lemma first_some_None: "first_some xs = None \<longleftrightarrow> set xs \<subseteq> {None}"
  by (induction xs) (auto split: option.splits)

lemma merge_all_spec:
  assumes "obj_ok a" and "list_all obj_ok rs"
  shows "obj_ok (foldl merge_results a rs)
    \<and> obj_get (foldl merge_results a rs) p = first_some (obj_get a p # map (\<lambda>r. obj_get r p) rs)"
  using assms
proof (induction rs arbitrary: a)
  case (Cons r rs)
  with merge_results_spec [of a r] show ?case by (auto split: option.splits)
qed (simp split: option.split)

fun chain_ops :: "linked_operator \<Rightarrow> operator_summary list" where
  "chain_ops (Linked operator child) = operator # (case child of None \<Rightarrow> [] | Some c \<Rightarrow> chain_ops c)"

lemma chain_fold: "set (chain_ops (foldl (\<lambda>cur src. Linked src (Some cur)) l xs)) = set (chain_ops l) \<union> set xs"
  by (induction xs arbitrary: l) auto

lemma link_operators_spec:
  assumes "os \<noteq> []"
  shows "\<exists>l. link_operators child os = Some l \<and>
     set (chain_ops l) = set os \<union> (case child of None \<Rightarrow> {} | Some c \<Rightarrow> set (chain_ops c))"
  using assms by (cases os) (auto simp: link_operators_def chain_fold split: option.splits)

declare js_sort_Cons [simp del]

lemma js_sort_Nil_iff [simp]: "js_sort cmp xs = [] \<longleftrightarrow> xs = []"
  using length_js_sort [of cmp xs] by (metis length_0_conv)

lemma node_results_fold:
  assumes "obj_ok acc" and "obj_ok es" and "\<forall>(p, os) \<in> set es. os \<noteq> []"
  shows "obj_ok (foldl (link_pipeline src) acc es) \<and> obj_get (foldl (link_pipeline src) acc es) p =
     (case obj_get es p of None \<Rightarrow> obj_get acc p | Some os \<Rightarrow> link_operators (obj_get src p) (js_sort compare_operator_id os))"
  using assms
proof (induction es arbitrary: acc)
  case (Cons e es)
  obtain q os where e: "e = (q, os)" by (cases e)
  then have "js_sort compare_operator_id os \<noteq> []" using Cons.prems(3) by auto
  then obtain l where l: "link_operators (obj_get src q) (js_sort compare_operator_id os) = Some l"
    using link_operators_spec by blast
  have es: "obj_ok es" "obj_get es q = None" using Cons.prems(2) e obj_get_fresh [of "(q, os)" es] by (auto simp: obj_ok_Cons)
  have "obj_ok (obj_set acc q l)" using Cons.prems(1) by (simp add: obj.inv_put)
  from Cons.IH [OF this es(1)] Cons.prems(1,3) es(2) l show ?case
    by (auto simp: e link_pipeline_def obj_get_Cons obj.get_put split: option.splits)
qed simp

lemma node_results_spec:
  "obj_ok (node_results ops src)"
  "obj_get (node_results ops src) p =
     (case nonempty (filter (\<lambda>x. os_pipelineId x = p) ops) of None \<Rightarrow> None
      | Some os \<Rightarrow> link_operators (obj_get src p) (js_sort compare_operator_id os))"
proof -
  have "os \<noteq> []" if "(q, os) \<in> set (pipeline_operators ops)" for q os
  proof -
    have "obj_get (pipeline_operators ops) q = Some os"
      using that pipeline_operators_spec(1) [of ops] by (simp add: obj_get_def obj_ok_def)
    then show ?thesis using pipeline_operators_spec(2) [of ops q] by simp
  qed
  then have "\<forall>(q, os) \<in> set (pipeline_operators ops). os \<noteq> []" by blast
  from node_results_fold [OF obj_ok_Nil pipeline_operators_spec(1) this, of src p]
  show "obj_ok (node_results ops src)"
    and "obj_get (node_results ops src) p =
     (case nonempty (filter (\<lambda>x. os_pipelineId x = p) ops) of None \<Rightarrow> None
      | Some os \<Rightarrow> link_operators (obj_get src p) (js_sort compare_operator_id os))"
    by (auto simp: node_results_def pipeline_operators_spec(2) split: option.splits)
qed

section \<open>The operators of a plan\<close>

definition node_ops_of :: "(string \<times> operator_summary list) list \<Rightarrow> plan_node \<Rightarrow> operator_summary list" where
  "node_ops_of m n = (case obj_get m (pn_id n) of None \<Rightarrow> [] | Some ops \<Rightarrow> ops)"

inductive plan_reach :: "plan_node \<Rightarrow> plan_node \<Rightarrow> bool" where
  plan_reach_self: "plan_reach n n"
| plan_reach_child: "Some c \<in> set (getChildren n) \<Longrightarrow> plan_reach c k \<Longrightarrow> plan_reach n k"

definition plan_ops_of :: "(string \<times> operator_summary list) list \<Rightarrow> plan_node \<Rightarrow> operator_summary set" where
  "plan_ops_of m n = {x. \<exists>k. plan_reach n k \<and> x \<in> set (node_ops_of m k)}"

lemma plan_ops_of_unfold:
  "plan_ops_of m n = set (node_ops_of m n) \<union> (\<Union>c \<in> {c. Some c \<in> set (getChildren n)}. plan_ops_of m c)"
  unfolding plan_ops_of_def by (auto intro: plan_reach_self plan_reach_child elim: plan_reach.cases)

text \<open>The pipelines below different children of a node differ: what the code reports as an error does not happen.\<close>

definition pipelines_of :: "(string \<times> operator_summary list) list \<Rightarrow> plan_node \<Rightarrow> int set" where
  "pipelines_of m n = os_pipelineId ` plan_ops_of m n"

definition no_clash :: "(string \<times> operator_summary list) list \<Rightarrow> plan_node \<Rightarrow> bool" where
  "no_clash m n \<longleftrightarrow>
     (\<forall>k i j a b. plan_reach n k \<longrightarrow> i < j \<longrightarrow> j < length (getChildren k) \<longrightarrow> getChildren k ! i = Some a \<longrightarrow>
        getChildren k ! j = Some b \<longrightarrow> pipelines_of m a \<inter> pipelines_of m b = {})"

lemma no_clash_child: "no_clash m n \<Longrightarrow> Some c \<in> set (getChildren n) \<Longrightarrow> no_clash m c"
  unfolding no_clash_def by (blast intro: plan_reach_child)

definition graphs_sound :: "(string \<times> operator_summary list) list \<Rightarrow> plan_node \<Rightarrow> (int \<times> linked_operator) list \<Rightarrow> bool" where
  "graphs_sound m n r \<longleftrightarrow> obj_ok r \<and>
     (\<forall>p l. obj_get r p = Some l \<longrightarrow> (\<forall>x \<in> set (chain_ops l). os_pipelineId x = p \<and> x \<in> plan_ops_of m n))"

definition graphs_complete :: "(string \<times> operator_summary list) list \<Rightarrow> plan_node \<Rightarrow> (int \<times> linked_operator) list \<Rightarrow> bool" where
  "graphs_complete m n r \<longleftrightarrow>
     (\<forall>x \<in> plan_ops_of m n. \<exists>l. obj_get r (os_pipelineId x) = Some l \<and> x \<in> set (chain_ops l))"

lemma chain_head: "\<exists>x. x \<in> set (chain_ops l)"
  by (cases l) auto

lemma sound_pipelines: "graphs_sound m n r \<Longrightarrow> obj_get r p = Some l \<Longrightarrow> p \<in> pipelines_of m n"
  using chain_head [of l] unfolding graphs_sound_def pipelines_of_def by (metis image_eqI)

text \<open>One step: from the results of the children to the result of the node.\<close>

definition node_graphs :: "operator_summary list \<Rightarrow> (int \<times> linked_operator) list \<Rightarrow> (int \<times> linked_operator) list" where
  "node_graphs ops src = (if ops = [] then src else merge_results (node_results ops src) src)"

lemma node_graphs_spec:
  assumes "obj_ok src"
  shows "obj_ok (node_graphs ops src)"
    and "obj_get (node_graphs ops src) p =
      (case filter (\<lambda>x. os_pipelineId x = p) ops of [] \<Rightarrow> obj_get src p
       | os \<Rightarrow> link_operators (obj_get src p) (js_sort compare_operator_id os))"
proof -
  have m: "obj_ok (merge_results (node_results ops src) src)"
    "obj_get (merge_results (node_results ops src) src) p =
      (case obj_get (node_results ops src) p of None \<Rightarrow> obj_get src p | Some x \<Rightarrow> Some x)"
    using merge_results_spec [OF node_results_spec(1) assms] by blast+
  show "obj_ok (node_graphs ops src)" using assms m(1) by (simp add: node_graphs_def)
  show "obj_get (node_graphs ops src) p =
      (case filter (\<lambda>x. os_pipelineId x = p) ops of [] \<Rightarrow> obj_get src p
       | os \<Rightarrow> link_operators (obj_get src p) (js_sort compare_operator_id os))"
  proof (cases "filter (\<lambda>x. os_pipelineId x = p) ops")
    case Nil
    then show ?thesis using m(2) by (simp add: node_graphs_def node_results_spec(2) nonempty_def)
  next
    case (Cons y ys)
    then have "js_sort compare_operator_id (y # ys) \<noteq> []" by simp
    then obtain l where "link_operators (obj_get src p) (js_sort compare_operator_id (y # ys)) = Some l"
      using link_operators_spec by blast
    moreover from Cons have "ops \<noteq> []" by auto
    ultimately show ?thesis using m(2) Cons by (simp add: node_graphs_def node_results_spec(2) nonempty_def)
  qed
qed

lemma node_graphs_chain:
  assumes "obj_ok src" and "obj_get (node_graphs ops src) p = Some l"
  shows "set (chain_ops l) = {x \<in> set ops. os_pipelineId x = p} \<union> (case obj_get src p of None \<Rightarrow> {} | Some c \<Rightarrow> set (chain_ops c))"
proof (cases "filter (\<lambda>x. os_pipelineId x = p) ops")
  case Nil
  then have "{x \<in> set ops. os_pipelineId x = p} = {}" by (auto simp: filter_empty_conv)
  then show ?thesis using assms(2) Nil node_graphs_spec(2) [OF assms(1), of ops p] by auto
next
  case (Cons y ys)
  have "{x \<in> set ops. os_pipelineId x = p} = set (y # ys)" unfolding Cons [symmetric] by simp
  moreover have "js_sort compare_operator_id (y # ys) \<noteq> []" by simp
  ultimately show ?thesis
    using assms(2) Cons node_graphs_spec(2) [OF assms(1), of ops p]
      link_operators_spec [of "js_sort compare_operator_id (y # ys)" "obj_get src p"] by auto
qed

lemma node_graphs_dom:
  assumes "obj_ok src" and "x \<in> set ops \<or> obj_get src (os_pipelineId x) \<noteq> None"
  shows "\<exists>l. obj_get (node_graphs ops src) (os_pipelineId x) = Some l"
proof (cases "filter (\<lambda>y. os_pipelineId y = os_pipelineId x) ops")
  case Nil
  then have "x \<notin> set ops" by (auto simp: filter_empty_conv)
  then show ?thesis using assms Nil node_graphs_spec(2) [OF assms(1), of ops "os_pipelineId x"] by auto
next
  case (Cons y ys)
  have "js_sort compare_operator_id (y # ys) \<noteq> []" by simp
  from link_operators_spec [OF this] show ?thesis
    using Cons node_graphs_spec(2) [OF assms(1), of ops "os_pipelineId x"] by auto
qed

declare computeOperatorGraphs.simps [simp del]

lemma computeOperatorGraphs_unfold:
  assumes "computeOperatorGraphs m n = Inr r"
  obtains rs where "res_mapM (\<lambda>c. case c of None \<Rightarrow> Inl TypeError | Some c \<Rightarrow> computeOperatorGraphs m c) (getChildren n) = Inr rs"
    and "r = node_graphs (node_ops_of m n) (foldl merge_results [] rs)"
proof -
  from assms obtain rs where
    rs: "res_mapM (\<lambda>c. case c of None \<Rightarrow> Inl TypeError | Some c \<Rightarrow> computeOperatorGraphs m c) (getChildren n) = Inr rs"
    and r: "r = (case obj_get m (pn_id n) of None \<Rightarrow> foldl merge_results [] rs
       | Some ops \<Rightarrow> if ops = [] then foldl merge_results [] rs
           else merge_results (node_results ops (foldl merge_results [] rs)) (foldl merge_results [] rs))"
    by (subst (asm) computeOperatorGraphs.simps) (auto simp: Let_def)
  have "r = node_graphs (node_ops_of m n) (foldl merge_results [] rs)"
    unfolding r by (auto simp: node_graphs_def node_ops_of_def split: option.splits)
  with rs that show thesis by blast
qed

lemma res_mapM_nth:
  assumes "res_mapM f xs = Inr ys"
  shows "length ys = length xs" and "i < length xs \<Longrightarrow> f (xs ! i) = Inr (ys ! i)"
proof -
  show "length ys = length xs" using assms by (rule res_mapM_length)
  show "i < length xs \<Longrightarrow> f (xs ! i) = Inr (ys ! i)"
    using assms by (induction xs arbitrary: ys i) (auto simp: less_Suc_eq_0_disj)
qed

text \<open>The child a result comes from.\<close>

lemma child_results:
  assumes "res_mapM (\<lambda>c. case c of None \<Rightarrow> Inl TypeError | Some c \<Rightarrow> computeOperatorGraphs m c) (getChildren n) = Inr rs"
  shows "length rs = length (getChildren n)"
    and "i < length rs \<Longrightarrow> \<exists>c. getChildren n ! i = Some c \<and> computeOperatorGraphs m c = Inr (rs ! i)"
proof -
  show len: "length rs = length (getChildren n)" using res_mapM_nth(1) [OF assms] .
  assume "i < length rs"
  with len res_mapM_nth(2) [OF assms, of i]
  show "\<exists>c. getChildren n ! i = Some c \<and> computeOperatorGraphs m c = Inr (rs ! i)"
    by (cases "getChildren n ! i") auto
qed

lemma graphs_sound_step:
  assumes rs: "res_mapM (\<lambda>c. case c of None \<Rightarrow> Inl TypeError | Some c \<Rightarrow> computeOperatorGraphs m c) (getChildren n) = Inr rs"
    and IH: "\<And>c r. Some c \<in> set (getChildren n) \<Longrightarrow> computeOperatorGraphs m c = Inr r \<Longrightarrow> graphs_sound m c r"
  shows "obj_ok (foldl merge_results [] rs)"
    and "obj_get (foldl merge_results [] rs) p = Some l \<Longrightarrow> x \<in> set (chain_ops l) \<Longrightarrow> os_pipelineId x = p \<and> x \<in> plan_ops_of m n"
proof -
  have child: "\<exists>c. Some c \<in> set (getChildren n) \<and> graphs_sound m c r" if "r \<in> set rs" for r
  proof -
    from that obtain i where i: "i < length rs" "r = rs ! i" by (auto simp: in_set_conv_nth)
    with child_results [OF rs] obtain c where c: "getChildren n ! i = Some c" "computeOperatorGraphs m c = Inr r" by auto
    then have "Some c \<in> set (getChildren n)" using i(1) child_results(1) [OF rs] nth_mem [of i "getChildren n"] by simp
    with IH c(2) show ?thesis by blast
  qed
  then have "list_all obj_ok rs" by (auto simp: list_all_iff graphs_sound_def)
  from merge_all_spec [OF obj_ok_Nil this] have "obj_ok (foldl merge_results [] rs)"
    and get: "obj_get (foldl merge_results [] rs) p = first_some (map (\<lambda>r. obj_get r p) rs)" by auto
  then show "obj_ok (foldl merge_results [] rs)" by blast
  assume l: "obj_get (foldl merge_results [] rs) p = Some l" and x: "x \<in> set (chain_ops l)"
  from first_some_member [of "map (\<lambda>r. obj_get r p) rs" l] l get obtain r where "r \<in> set rs" "obj_get r p = Some l" by auto
  with child x obtain c where "Some c \<in> set (getChildren n)" "os_pipelineId x = p" "x \<in> plan_ops_of m c"
    unfolding graphs_sound_def by blast
  then show "os_pipelineId x = p \<and> x \<in> plan_ops_of m n" using plan_ops_of_unfold [of m n] by auto
qed

lemma computeOperatorGraphs_sound: "computeOperatorGraphs m n = Inr r \<Longrightarrow> graphs_sound m n r"
proof (induction n arbitrary: r rule: measure_induct_rule [where f = size])
  case (less n)
  from less.prems obtain rs where
    rs: "res_mapM (\<lambda>c. case c of None \<Rightarrow> Inl TypeError | Some c \<Rightarrow> computeOperatorGraphs m c) (getChildren n) = Inr rs"
    and r: "r = node_graphs (node_ops_of m n) (foldl merge_results [] rs)" by (rule computeOperatorGraphs_unfold)
  have IH: "Some c \<in> set (getChildren n) \<Longrightarrow> computeOperatorGraphs m c = Inr r' \<Longrightarrow> graphs_sound m c r'" for c r'
    using less.IH getChildren_size by blast
  note src = graphs_sound_step [OF rs IH]
  have "os_pipelineId x = p \<and> x \<in> plan_ops_of m n" if "obj_get r p = Some l" "x \<in> set (chain_ops l)" for p l x
    using node_graphs_chain [OF src(1) that(1) [unfolded r]] that(2) src(2) plan_ops_of_unfold [of m n]
    by (auto split: option.splits)
  then show ?case using node_graphs_spec(1) [OF src(1)] unfolding graphs_sound_def r by blast
qed

lemma graphs_complete_step:
  assumes rs: "res_mapM (\<lambda>c. case c of None \<Rightarrow> Inl TypeError | Some c \<Rightarrow> computeOperatorGraphs m c) (getChildren n) = Inr rs"
    and clash: "no_clash m n" and c: "Some c \<in> set (getChildren n)" and x: "x \<in> plan_ops_of m c"
    and IH: "\<And>r. computeOperatorGraphs m c = Inr r \<Longrightarrow> graphs_complete m c r"
  shows "\<exists>l. obj_get (foldl merge_results [] rs) (os_pipelineId x) = Some l \<and> x \<in> set (chain_ops l)"
proof -
  let ?p = "os_pipelineId x"
  have len: "length rs = length (getChildren n)" by (rule child_results(1) [OF rs])
  have sound: "\<exists>d. getChildren n ! i = Some d \<and> graphs_sound m d (rs ! i) \<and> computeOperatorGraphs m d = Inr (rs ! i)"
    if "i < length rs" for i using child_results(2) [OF rs that] computeOperatorGraphs_sound by blast
  from c obtain i where i: "i < length rs" "getChildren n ! i = Some c" using len by (auto simp: in_set_conv_nth)
  have "computeOperatorGraphs m c = Inr (rs ! i)" using sound [OF i(1)] i(2) by auto
  from IH [OF this] x obtain l where l: "obj_get (rs ! i) ?p = Some l" "x \<in> set (chain_ops l)"
    unfolding graphs_complete_def by blast
  have px: "?p \<in> pipelines_of m c" using x by (simp add: pipelines_of_def)
  have other: "obj_get (rs ! j) ?p = None" if "j < length rs" "j \<noteq> i" for j
  proof (rule ccontr)
    assume "obj_get (rs ! j) ?p \<noteq> None"
    then obtain l' where l': "obj_get (rs ! j) ?p = Some l'" by auto
    obtain d where d: "getChildren n ! j = Some d" "graphs_sound m d (rs ! j)" using sound [OF \<open>j < length rs\<close>] by blast
    have "?p \<in> pipelines_of m d" using sound_pipelines [OF d(2) l'] .
    moreover have "pipelines_of m c \<inter> pipelines_of m d = {}"
    proof (cases "i < j")
      case True
      with clash plan_reach_self [of n] i d(1) that(1) len show ?thesis unfolding no_clash_def by auto
    next
      case False
      with that(2) have "j < i" by simp
      with clash plan_reach_self [of n] i d(1) len have "pipelines_of m d \<inter> pipelines_of m c = {}"
        unfolding no_clash_def by auto
      then show ?thesis by blast
    qed
    ultimately show False using px by blast
  qed
  have oks: "list_all obj_ok rs" using sound by (auto simp: list_all_length graphs_sound_def)
  have "obj_get (foldl merge_results [] rs) ?p = first_some (map (\<lambda>r. obj_get r ?p) rs)"
    using merge_all_spec [OF obj_ok_Nil oks] by simp
  moreover have "first_some (map (\<lambda>r. obj_get r ?p) rs) = Some l"
  proof (cases "first_some (map (\<lambda>r. obj_get r ?p) rs)")
    case None
    moreover have "obj_get (rs ! i) ?p \<in> set (map (\<lambda>r. obj_get r ?p) rs)" using i(1) by simp
    ultimately show ?thesis using l(1) by (auto simp: first_some_None)
  next
    case (Some l')
    from first_some_member [OF this] obtain j where j: "j < length rs" "obj_get (rs ! j) ?p = Some l'"
      by (auto simp: in_set_conv_nth)
    then have "j = i" using other [of j] by fastforce
    with j(2) l(1) Some show ?thesis by simp
  qed
  ultimately show ?thesis using l(2) by auto
qed

lemma computeOperatorGraphs_complete:
  "computeOperatorGraphs m n = Inr r \<Longrightarrow> no_clash m n \<Longrightarrow> graphs_complete m n r"
proof (induction n arbitrary: r rule: measure_induct_rule [where f = size])
  case (less n)
  from less.prems(1) obtain rs where
    rs: "res_mapM (\<lambda>c. case c of None \<Rightarrow> Inl TypeError | Some c \<Rightarrow> computeOperatorGraphs m c) (getChildren n) = Inr rs"
    and r: "r = node_graphs (node_ops_of m n) (foldl merge_results [] rs)" by (rule computeOperatorGraphs_unfold)
  have ok: "obj_ok (foldl merge_results [] rs)"
    using graphs_sound_step(1) [OF rs] computeOperatorGraphs_sound by blast
  show ?case unfolding graphs_complete_def
  proof
    fix x
    assume "x \<in> plan_ops_of m n"
    then consider "x \<in> set (node_ops_of m n)" | c where "Some c \<in> set (getChildren n)" "x \<in> plan_ops_of m c"
      by (subst (asm) plan_ops_of_unfold) blast
    then have "x \<in> set (node_ops_of m n) \<or> (\<exists>c. obj_get (foldl merge_results [] rs) (os_pipelineId x) = Some c \<and> x \<in> set (chain_ops c))"
    proof cases
      case 2
      have "graphs_complete m c r'" if "computeOperatorGraphs m c = Inr r'" for r'
        using less.IH [OF getChildren_size [OF 2(1)] that] no_clash_child [OF less.prems(2) 2(1)] by blast
      from graphs_complete_step [OF rs less.prems(2) 2 this] show ?thesis by blast
    qed simp
    note shown = this
    then have "x \<in> set (node_ops_of m n) \<or> obj_get (foldl merge_results [] rs) (os_pipelineId x) \<noteq> None" by auto
    from node_graphs_dom [OF ok this] obtain l where l: "obj_get r (os_pipelineId x) = Some l" unfolding r by blast
    have "x \<in> set (chain_ops l)"
      unfolding node_graphs_chain [OF ok l [unfolded r]] using shown by (elim disjE exE conjE) simp_all
    with l show "\<exists>l. obj_get r (os_pipelineId x) = Some l \<and> x \<in> set (chain_ops l)" by blast
  qed
qed

section \<open>The graph that is drawn\<close>

lemma operator_chain_nodes:
  "graph_nodes (computeD3StageOperatorGraph l sink pn) = operator_node_id ` set (chain_ops l)"
proof (induction l arbitrary: sink)
  case (Linked x child)
  then show ?case by (cases child; cases sink) auto
qed

lemma operator_chain_closed:
  assumes "graph_nodes (computeD3StageOperatorGraph l sink pn) \<subseteq> ns" and "pn \<in> ns" and "set_option sink \<subseteq> ns"
  shows "list_all (op_closed ns) (computeD3StageOperatorGraph l sink pn)"
  using assms
proof (induction l arbitrary: sink)
  case (Linked x child)
  then show ?case by (cases child; cases sink) (auto simp: operator_chain_nodes)
qed

lemma pipeline_ops_nodes:
  "graph_nodes (pipeline_ops (p, l)) = insert (pipeline_node_id p) (operator_node_id ` set (chain_ops l))"
  by (simp add: pipeline_ops_def operator_chain_nodes)

lemma pipeline_ops_closed: "graph_nodes (pipeline_ops e) \<subseteq> ns \<Longrightarrow> list_all (op_closed ns) (pipeline_ops e)"
  by (cases e) (auto simp: pipeline_ops_def intro!: operator_chain_closed)

text \<open>The graphs are computed if no node of the plan lacks a source that its type reads.\<close>

definition sources_known :: "plan_node \<Rightarrow> bool" where
  "sources_known n \<longleftrightarrow> (\<forall>k. plan_reach n k \<longrightarrow> None \<notin> set (getChildren k))"

lemma computeOperatorGraphs_ok: "sources_known n \<Longrightarrow> \<exists>r. computeOperatorGraphs m n = Inr r"
proof (induction m n rule: computeOperatorGraphs.induct)
  case (1 m n)
  have "\<exists>r. (case source of None \<Rightarrow> Inl TypeError | Some child \<Rightarrow> computeOperatorGraphs m child) = Inr r \<and> True"
    if s: "source \<in> set (getChildren n)" for source
  proof -
    from "1.prems" s plan_reach_self obtain child where c: "source = Some child" unfolding sources_known_def by (cases source) auto
    with s "1.prems" have "sources_known child" unfolding sources_known_def by (blast intro: plan_reach_child)
    then show ?thesis using "1.IH" [OF s c] c by simp
  qed
  then obtain rs where "res_mapM (\<lambda>source. case source of None \<Rightarrow> Inl TypeError | Some child \<Rightarrow> computeOperatorGraphs m child)
      (getChildren n) = Inr rs"
    using res_mapM_ex [of "getChildren n" _ "\<lambda>x y. True"] by blast
  then show ?case by (subst computeOperatorGraphs.simps) simp
qed


definition example_operator :: "int \<Rightarrow> string \<Rightarrow> operator_summary" where
  "example_operator i node = \<lparr>os_pipelineId = 0, os_operatorId = i, os_planNodeId = node, os_operatorType = ''ScanFilter'',
     os_addInputWall = ''0.00ns'', os_getOutputWall = ''1.00s'', os_finishWall = ''0.00ns'', os_blockedWall = ''2.00s'',
     os_inputPositions = Fin 10, os_inputDataSize = ''1kB'', os_outputPositions = Fin 5, os_outputDataSize = ''1kB'',
     os_totalDrivers = Fin 4\<rparr>"

definition example_leaf :: plan_node where
  "example_leaf = PlanNode ''.TableScanNode'' ''2'' [] []"

definition example_root :: plan_node where
  "example_root = PlanNode ''.ProjectNode'' ''3'' [(''source'', example_leaf)] []"

definition example_operator_stage :: stage_info where
  "example_operator_stage = StageInfo ''q1.1''
     (Some \<lparr>sp_id = ''1'', sp_root = example_root, sp_distribution = ''SOURCE'', sp_jsonRepresentation = Inl SyntaxError\<rparr>)
     (example_execution\<lparr>se_stats := example_stage_stats\<lparr>ss_operatorSummaries := [example_operator 0 ''2'', example_operator 1 ''3'']\<rparr>\<rparr>)
     [] []"

lemma example_children: "getChildren example_root = [Some example_leaf]" "getChildren example_leaf = []"
  by code_simp+

lemma example_no_clash: "no_clash m example_root"
proof -
  have "length (getChildren k) \<le> 1" if "plan_reach n k" "n = example_root \<or> n = example_leaf" for n k
    using that by (induction rule: plan_reach.induct) (auto simp: example_children)
  then show ?thesis unfolding no_clash_def by fastforce
qed

lemma example_reach: "plan_reach example_root example_leaf"
  by (rule plan_reach_child [OF _ plan_reach_self]) (simp add: example_children)


section \<open>Stages\<close>

fun all_stages :: "stage_info \<Rightarrow> stage_info list"
  and all_stages_list :: "stage_info list \<Rightarrow> stage_info list" where
  "all_stages (StageInfo i plan latest previous subStages) = StageInfo i plan latest previous subStages # all_stages_list subStages"
| "all_stages_list [] = []"
| "all_stages_list (s # ss) = all_stages s @ all_stages_list ss"

lemma find_append: "find P (xs @ ys) = (case find P xs of None \<Rightarrow> find P ys | Some x \<Rightarrow> Some x)"
  by (induction xs) auto

lemma findStage_find:
  "findStage i s = find (\<lambda>t. stg_stageId t = i) (all_stages s)"
  "findStages i ss = find (\<lambda>t. stg_stageId t = i) (all_stages_list ss)"
  by (induction i s and i ss rule: findStage_findStages.induct) (auto simp: find_append split: option.splits)

lemma getAllStageIds_map:
  "getAllStageIds s = Inr ids \<Longrightarrow> map (\<lambda>t. map_option sp_id (stg_plan t)) (all_stages s) = map Some ids"
  "getAllStageIds_list ss = Inr ids \<Longrightarrow> map (\<lambda>t. map_option sp_id (stg_plan t)) (all_stages_list ss) = map Some ids"
proof (induction s and ss arbitrary: ids and ids rule: getAllStageIds_getAllStageIds_list.induct)
  case (1 i plan latest previous subStages)
  then show ?case by (cases plan) auto
next
  case (3 stage stages)
  then show ?case by fastforce
qed simp

text \<open>The server names a stage by its query and the identifier of its plan.\<close>

definition stage_names_ok :: "string \<Rightarrow> stage_info \<Rightarrow> bool" where
  "stage_names_ok queryId output \<longleftrightarrow>
     (\<forall>t \<in> set (all_stages output). \<forall>plan. stg_plan t = Some plan \<longrightarrow> stg_stageId t = queryId @ ''.'' @ sp_id plan)"

text \<open>
  Every stage the menu offers can be selected: the page then finds a stage of that name, and it is the one with the
  plan identifier that was offered.
\<close>

theorem stage_menu_complete:
  assumes "qi_outputStage query = Some output" and "stage_names_ok (q_queryId query) output"
    and "getAllStageIds output = Inr ids" and "i \<in> set ids"
  shows "\<exists>stage plan. findStage (q_queryId query @ ''.'' @ i) output = Some stage \<and> stg_plan stage = Some plan \<and> sp_id plan = i"
proof -
  have "Some i \<in> set (map (\<lambda>t. map_option sp_id (stg_plan t)) (all_stages output))"
    using getAllStageIds_map(1) [OF assms(3)] assms(4) by simp
  then obtain t p where t: "t \<in> set (all_stages output)" "stg_plan t = Some p" "sp_id p = i"
    by (auto simp: map_option_case split: option.splits)
  then have "stg_stageId t = q_queryId query @ ''.'' @ i" using assms(2) by (auto simp: stage_names_ok_def)
  with t(1) obtain u where u: "find (\<lambda>t. stg_stageId t = q_queryId query @ ''.'' @ i) (all_stages output) = Some u"
    by (cases "find (\<lambda>t. stg_stageId t = q_queryId query @ ''.'' @ i) (all_stages output)") (auto simp: find_None_iff)
  then have "u \<in> set (all_stages output)" and un: "stg_stageId u = q_queryId query @ ''.'' @ i"
    by (auto simp: find_Some_iff)
  moreover have "stg_plan u \<noteq> None"
  proof
    assume "stg_plan u = None"
    then have "None \<in> set (map (\<lambda>t. map_option sp_id (stg_plan t)) (all_stages output))" using \<open>u \<in> set (all_stages output)\<close> by force
    then show False using getAllStageIds_map(1) [OF assms(3)] by simp
  qed
  ultimately show ?thesis using assms(2) u by (auto simp: stage_names_ok_def findStage_find(1))
qed

theorem stage_menu_complete_witness:
  "\<exists>stage plan. findStage ''q1.1'' example_stage = Some stage \<and> stg_plan stage = Some plan \<and> sp_id plan = ''1''"
proof -
  have "stage_names_ok ''q1'' example_stage" by (auto simp: stage_names_ok_def example_stage_def)
  moreover have "getAllStageIds example_stage = Inr [''0'', ''1'']" by (simp add: example_stage_def)
  moreover have "q_queryId example_info = ''q1''"
    by (simp add: example_info_def query.defs query_info.defs example_query_def)
  ultimately show ?thesis using stage_menu_complete [of example_info example_stage "[''0'', ''1'']" "''1''"] by simp
qed

section \<open>Selecting a stage\<close>

interpretation sd: live_poller sd_timeout "\<lambda>s. length (sd_requests s)" "\<lambda>s. sd_query s = None \<or> \<not> sd_ended s" "sd_refreshLoop search"
  sd_answers sd_handle "\<lambda>s. s = sd_init" for search
proof unfold_locales
  fix e s
  assume "sd_answers e"
  then show "length (sd_requests (sd_handle e s)) = length (sd_requests s) - 1"
    and "sd_query (sd_handle e s) = None \<or> \<not> sd_ended (sd_handle e s) \<Longrightarrow> sd_timeout (sd_handle e s)"
    by (cases e; simp add: sd_success_def sd_error_def sd_resetTimer_def; fail)+
next
  fix e s
  assume "\<not> sd_answers e"
  then show "length (sd_requests (sd_handle e s)) = length (sd_requests s)"
    and "sd_timeout (sd_handle e s) = sd_timeout s" by (cases e; simp; fail)+
next
  fix e s
  assume "\<not> sd_answers e" and "sd_query (sd_handle e s) = None \<or> \<not> sd_ended (sd_handle e s)"
  then show "sd_query s = None \<or> \<not> sd_ended s" by (cases e) simp_all
qed (simp_all add: sd_refreshLoop_def sd_init_def)

text \<open>
  C40: a stage selected between two requests stays selected, but a stage selected while a request is out is dropped when the
  answer comes: the answer selects the stage that was selected when the request was sent.
\<close>

theorem stage_click_during_request_lost:
  assumes "poll_reach sd_timeout (\<lambda>s. length (sd_requests s)) (sd_refreshLoop search) sd_answers sd_handle sd_init s"
  shows "(if sd_requests s = []
     then sd_selectedStageId (sd_handle (SD_Query query) (sd_refreshLoop search (sd_handle (SD_Select new) s))) = Some new
     else sd_selectedStageId (sd_handle (SD_Query query) (sd_handle (SD_Select new) s)) = Some (hd (sd_requests s)))
   \<and> length (sd_requests s) \<le> 1"
  using sd.single_series [OF assms]
  by (auto simp: sd_success_def sd_resetTimer_def sd_refreshLoop_def requested_stage_def)

theorem stage_click_during_request_lost_witness:
  "sd_selectedStageId (sd_handle (SD_Query example_info) (sd_handle (SD_Select ''5'') (sd_refreshLoop ''?q1.3'' sd_init))) = Some ''3''"
proof -
  have "poll_reach sd_timeout (\<lambda>s. length (sd_requests s)) (sd_refreshLoop ''?q1.3'') sd_answers sd_handle sd_init
      (sd_refreshLoop ''?q1.3'' sd_init)" by (rule poll_mount)
  moreover have "sd_requests (sd_refreshLoop ''?q1.3'' sd_init) = [''3'']" by code_simp
  ultimately show ?thesis
    using stage_click_during_request_lost [of "''?q1.3''" "sd_refreshLoop ''?q1.3'' sd_init" example_info "''5''"] by simp
qed

text \<open>A click on an operator always raises, since no stage has the property the tasks are read from.\<close>

lemma operator_click_raises: "handleOperatorClick operatorCssId stage = Inl TypeError"
  by (simp add: handleOperatorClick_def OperatorDetail_render_def getOperatorTasks_def)

end
