(* ===== verification/TaskList.thy ===== *)
theory TaskList
  imports QueryInfo ParseUnits JsDate JsObject JsSort QueryListView
begin

text \<open>
  The classes \<open>TaskList\<close> and \<open>StageList\<close> of \<open>webapp/src/components/QueryDetail.jsx\<close>: the table of the tasks of a stage and
  the order it is sorted by.  The table itself is the library Reactable, so the model ends at the elements it is given.
\<close>

section \<open>The order of tasks\<close>

definition removeQueryId :: "string \<Rightarrow> string" where
  "removeQueryId i =
     (let pos = indexOf i ''.'' in if pos \<noteq> -1 then js_substring_from i (pos + 1) else i)"

text \<open>The loop over the parts; a part that is missing parses as \<open>NaN\<close>, which is different from every number.\<close>

fun compare_parts :: "string list \<Rightarrow> string list \<Rightarrow> int" where
  "compare_parts [] bs = 0"
| "compare_parts (a # as) bs =
     (let anum = parseInt a; bnum = (case bs of [] \<Rightarrow> NaN | b # rest \<Rightarrow> parseInt b) in
      if \<not> js_eq anum bnum then (if js_gt anum bnum then 1 else -1) else compare_parts as (tl bs))"

definition compareTaskId :: "string \<Rightarrow> string \<Rightarrow> int" where
  "compareTaskId taskA taskB =
     (let taskIdArrA = js_split (CHR ''.'') (removeQueryId taskA); taskIdArrB = js_split (CHR ''.'') (removeQueryId taskB) in
      if length taskIdArrA > length taskIdArrB then 1 else compare_parts taskIdArrA taskIdArrB)"

section \<open>The table\<close>

text \<open>
  Whether some host has several ports.  The operator \<open>in\<close> also finds the names an object inherits, whose values are no
  ports.
\<close>

fun show_ports :: "(string \<Rightarrow> exn + url_parts) \<Rightarrow> task_info list \<Rightarrow> (string \<times> string) list \<Rightarrow> exn + bool" where
  "show_ports URL [] hostToPortNumber = Inr False"
| "show_ports URL (task # tasks) hostToPortNumber =
     res_bind (getHostname URL (tk_self task)) (\<lambda>hostname.
     res_bind (getPort URL (tk_self task)) (\<lambda>port.
       if (case obj_get hostToPortNumber hostname of Some p \<Rightarrow> p \<noteq> port | None \<Rightarrow> hostname \<in> set proto_names) then Inr True
       else show_ports URL tasks (obj_set hostToPortNumber hostname port)))"

definition showPortNumbers :: "(string \<Rightarrow> exn + url_parts) \<Rightarrow> task_info list \<Rightarrow> exn + bool" where
  "showPortNumbers URL tasks = show_ports URL tasks []"

definition formatState :: "string \<Rightarrow> bool \<Rightarrow> string" where
  "formatState state fullyBlocked = (if fullyBlocked \<and> state = ''RUNNING'' then ''BLOCKED'' else state)"

definition nanos :: "jsnum \<Rightarrow> jsnum option" where
  "nanos n = parseDuration (num_str n @ ''ns'')"

definition elapsed_time :: "int \<Rightarrow> task_stats \<Rightarrow> jsnum option" where
  "elapsed_time now stats =
     (let elapsedTime = nanos (ts_elapsedTimeInNanos stats) in
      if elapsedTime = Some (Fin 0) then Some (js_sub (Fin (of_int now)) (Date_parse (ts_createTime stats))) else elapsedTime)"

text \<open>A time that is \<open>null\<close> is not equal to 0, but divides like 0.\<close>

definition rate_of :: "jsnum \<Rightarrow> jsnum option \<Rightarrow> jsnum" where
  "rate_of amount time =
     (case time of Some ms \<Rightarrow> computeRate amount ms | None \<Rightarrow> js_mul (js_div amount (Fin 0)) (Fin 1000))"

definition td :: "string \<Rightarrow> 'e attr list \<Rightarrow> 'e vnode list \<Rightarrow> 'e vnode" where
  "td column value kids = El ''Td'' (AStr ''column'' column # value) kids"

definition td_num :: "string \<Rightarrow> jsnum \<Rightarrow> string \<Rightarrow> 'e vnode" where
  "td_num column value shown = td column [ANum ''value'' value] [Text shown]"

definition td_time :: "string \<Rightarrow> jsnum option \<Rightarrow> 'e vnode" where
  "td_time column value =
     td column (case value of None \<Rightarrow> [] | Some v \<Rightarrow> [ANum ''value'' v]) [Text (formatDuration (to_number value))]"

definition task_names :: "string \<Rightarrow> string \<Rightarrow> task_info \<Rightarrow> 'e vnode list" where
  "task_names name host task =
     [td ''id'' [AStr ''value'' (tk_taskId task)]
        [El ''a'' [AStr ''href'' (''/v1/taskInfo/'' @ tk_taskId task @ ''?pretty'')] [Text (getTaskIdSuffix (tk_taskId task))]],
      td ''host'' [AStr ''value'' name]
        [El ''a'' [AStr ''href'' (''worker.html?'' @ tk_nodeId task), cls ''font-light'', AStr ''target'' ''_blank''] [Text host]],
      td ''state'' [AStr ''value'' (formatState (tk_state task) (ts_fullyBlocked (tk_stats task)))]
        [Text (formatState (tk_state task) (ts_fullyBlocked (tk_stats task)))]]"

definition task_numbers :: "int \<Rightarrow> task_info \<Rightarrow> 'e vnode list" where
  "task_numbers now task =
     (let stats = tk_stats task; elapsedTime = elapsed_time now stats;
          rows = ts_rawInputPositions stats; bytes = ts_rawInputDataSizeInBytes stats
      in [td_num ''rows'' rows (formatCount rows),
          td_num ''rowsSec'' (rate_of rows elapsedTime) (formatCount (rate_of rows elapsedTime)),
          td_num ''bytes'' bytes (formatDataSizeBytes bytes),
          td_num ''bytesSec'' (rate_of bytes elapsedTime) (formatDataSizeBytes (rate_of bytes elapsedTime)),
          td_num ''splitsPending'' (ts_queuedDrivers stats) (num_str (ts_queuedDrivers stats)),
          td_num ''splitsRunning'' (ts_runningDrivers stats) (num_str (ts_runningDrivers stats)),
          td_num ''splitsBlocked'' (ts_blockedDrivers stats) (num_str (ts_blockedDrivers stats)),
          td_num ''splitsDone'' (ts_completedDrivers stats) (num_str (ts_completedDrivers stats)),
          td_time ''elapsedTime'' (nanos (ts_elapsedTimeInNanos stats)),
          td_time ''cpuTime'' (nanos (ts_totalCpuTimeInNanos stats)),
          td_num ''bufferedBytes'' (tk_totalBufferedBytes task) (formatDataSizeBytes (tk_totalBufferedBytes task))])"

definition render_task :: "(string \<Rightarrow> exn + url_parts) \<Rightarrow> int \<Rightarrow> bool \<Rightarrow> task_info \<Rightarrow> exn + 'e vnode" where
  "render_task URL now showPorts task =
     res_bind (getHostname URL (tk_self task)) (\<lambda>hostname.
     res_map (\<lambda>host. Keyed (tk_taskId task) (El ''Tr'' [] (task_names hostname host task @ task_numbers now task)))
       (if showPorts then getHostAndPort URL (tk_self task) else Inr hostname))"

definition th_glyph :: "string \<Rightarrow> string \<Rightarrow> string \<Rightarrow> 'e vnode" where
  "th_glyph column name title =
     El ''Th'' [AStr ''column'' column]
       [El ''span'' (cls (''glyphicon glyphicon-'' @ name) # GLYPHICON_HIGHLIGHT # tooltip ''top'' title) []]"

definition th_text :: "string \<Rightarrow> string \<Rightarrow> 'e vnode" where
  "th_text column title = El ''Th'' [AStr ''column'' column] [Text title]"

definition task_head :: "'e vnode" where
  "task_head = El ''Thead'' []
     [th_text ''id'' ''ID'', th_text ''host'' ''Host'', th_text ''state'' ''State'',
      th_glyph ''splitsPending'' ''pause'' ''Pending splits'', th_glyph ''splitsRunning'' ''play'' ''Running splits'',
      th_glyph ''splitsBlocked'' ''bookmark'' ''Blocked splits'', th_glyph ''splitsDone'' ''ok'' ''Completed splits'',
      th_text ''rows'' ''Rows'', th_text ''rowsSec'' ''Rows/s'', th_text ''bytes'' ''Bytes'', th_text ''bytesSec'' ''Bytes/s'',
      th_text ''elapsedTime'' ''Elapsed'', th_text ''cpuTime'' ''CPU Time'', th_text ''bufferedBytes'' ''Buffered'']"

text \<open>The columns a click sorts by; the first has its own order, and is the default.\<close>

definition sortable_columns :: "(string \<times> (string \<Rightarrow> string \<Rightarrow> int) option) list" where
  "sortable_columns =
     (''id'', Some compareTaskId) #
     map (\<lambda>column. (column, None))
       [''host'', ''state'', ''splitsPending'', ''splitsRunning'', ''splitsBlocked'', ''splitsDone'', ''rows'', ''rowsSec'', ''bytes'',
        ''bytesSec'', ''elapsedTime'', ''cpuTime'', ''bufferedBytes'']"

definition TaskList_render :: "(string \<Rightarrow> exn + url_parts) \<Rightarrow> int \<Rightarrow> task_info list \<Rightarrow> exn + 'e vnode" where
  "TaskList_render URL now tasks =
     (if length tasks = 0 then
        Inr (divC ''row error-message'' [divC ''col-xs-12'' [El ''h4'' [] [Text ''No threads in the selected group'']]])
      else res_bind (showPortNumbers URL tasks) (\<lambda>showPorts.
        res_map (\<lambda>renderedTasks.
          El ''Table'' [AStr ''id'' ''tasks'', cls ''table table-striped sortable'', AStr ''defaultSort'' ''id asc'',
              AStr ''sortable'' (js_join '','' (map fst sortable_columns))]
            (task_head # renderedTasks))
          (res_mapM (render_task URL now showPorts) tasks)))"

section \<open>The list of stages\<close>

fun getStageList :: "stage_info \<Rightarrow> stage_info list"
  and getStageList_list :: "stage_info list \<Rightarrow> stage_info list" where
  "getStageList (StageInfo i plan latest previous subStages) =
     StageInfo i plan latest previous subStages # getStageList_list subStages"
| "getStageList_list [] = []"
| "getStageList_list (stage # stages) = getStageList stage @ getStageList_list stages"

section \<open>Properties\<close>

lemma removeQueryId_dot:
  assumes "CHR ''.'' \<notin> set q"
  shows "removeQueryId (q @ CHR ''.'' # rest) = rest"
  using indexOf_char [OF assms, of rest] js_substring_from_drop [of "q @ CHR ''.'' # rest" "Suc (length q)"]
  by (simp add: removeQueryId_def Let_def add.commute)

lemma dotted_join: "ns \<noteq> [] \<Longrightarrow> dotted q ns = q @ CHR ''.'' # js_join ''.'' (map nat_str ns)"
proof -
  have "concat (map (\<lambda>n. CHR ''.'' # nat_str n) (n # ns)) = CHR ''.'' # js_join ''.'' (map nat_str (n # ns))" for n ns
    by (induction ns arbitrary: n) auto
  then show "ns \<noteq> [] \<Longrightarrow> dotted q ns = q @ CHR ''.'' # js_join ''.'' (map nat_str ns)"
    by (cases ns) (simp_all add: dotted_def)
qed

lemma dotted_parts:
  assumes "CHR ''.'' \<notin> set q" and "ns \<noteq> []"
  shows "js_split (CHR ''.'') (removeQueryId (dotted q ns)) = map nat_str ns"
  using assms removeQueryId_dot [OF assms(1)] js_split_join [of "map nat_str ns" "CHR ''.''"] nat_str_no_char
  by (auto simp: dotted_join)

lemma compare_parts_lex:
  assumes "length ns = length ms" and "\<forall>n \<in> set ns \<union> set ms. n \<le> 2 ^ 53"
  shows "compare_parts (map nat_str ns) (map nat_str ms) = (if ns = ms then 0 else if ord_class.lexordp ns ms then -1 else 1)"
  using assms
proof (induction ns ms rule: list_induct2)
  case (Cons n ns m ms)
  then show ?case by (auto simp: parseInt_nat js_eq_def js_nat_def)
qed simp

text \<open>
  C19: the tasks of a query are sorted by their numbers, not as text: comparing two task identifiers of a query compares
  stage, attempt and task as numbers, one after the other.
\<close>

theorem tasks_sorted_numerically:
  assumes "CHR ''.'' \<notin> set q" and "ns \<noteq> []" and "length ns = length ms" and "\<forall>n \<in> set ns \<union> set ms. n \<le> 2 ^ 53"
  shows "compareTaskId (dotted q ns) (dotted q ms) = (if ns = ms then 0 else if ord_class.lexordp ns ms then -1 else 1)"
proof -
  have "ms \<noteq> []" using assms(2,3) by auto
  then show ?thesis
    using assms compare_parts_lex [OF assms(3,4)]
    by (simp add: compareTaskId_def dotted_parts)
qed

theorem tasks_sorted_numerically_witness:
  "compareTaskId (dotted ''20200101_q'' [1, 0, 9]) (dotted ''20200101_q'' [1, 0, 10]) = -1"
  using tasks_sorted_numerically [of "''20200101_q''" "[1, 0, 9]" "[1, 0, 10]"] by simp

end
