(* ===== verification/StageSummary.thy ===== *)
theory StageSummary
  imports TaskList StageDetail History
begin

text \<open>
  The classes \<open>StageSummary\<close> and \<open>StageList\<close> of \<open>webapp/src/components/QueryDetail.jsx\<close>: the row of a stage with its
  histograms and bar charts, and the list of the stages.
\<close>

section \<open>Square roots\<close>

text \<open>
  \<open>Math.sqrt\<close> of a natural number, correctly rounded: the root is computed with 60 binary digits after the point, and a
  rest is represented by half a digit more, which rounds as the root itself.
\<close>

fun sqrt_floor :: "nat \<Rightarrow> nat" where
  "sqrt_floor n = (if n = 0 then 0
     else (let r = 2 * sqrt_floor (n div 4) in if (r + 1) * (r + 1) \<le> n then r + 1 else r))"

declare sqrt_floor.simps [simp del]

definition math_sqrt :: "nat \<Rightarrow> jsnum" where
  "math_sqrt n = (let m = sqrt_floor (n * 4 ^ 60) in
     fl ((if m * m = n * 4 ^ 60 then of_nat m else of_nat m + 1/2) / 2 ^ 60))"

section \<open>Histograms\<close>

definition BAR_CHART_WIDTH :: jsnum where
  "BAR_CHART_WIDTH = Fin 800"

definition HISTOGRAM_WIDTH :: jsnum where
  "HISTOGRAM_WIDTH = Fin 175"

text \<open>The number of steps of a loop with \<open>i < limit\<close> from 0.\<close>

definition loop_count :: "jsnum \<Rightarrow> nat" where
  "loop_count limit = (case limit of Fin r \<Rightarrow> nat \<lceil>r\<rceil> | x \<Rightarrow> 0)"

text \<open>Counting a data point; \<open>None\<close> when its bucket is not an index of the array.\<close>

definition count_point :: "jsnum \<Rightarrow> jsnum \<Rightarrow> nat list \<Rightarrow> jsnum \<Rightarrow> nat list option" where
  "count_point dataMin bucketSize histogramData dataPoint =
     (case math_floor (js_div (js_sub dataPoint dataMin) bucketSize) of
        Fin r \<Rightarrow> let i = nat \<lfloor>r\<rfloor> in
          if 0 \<le> r \<and> i < length histogramData then Some (histogramData[i := histogramData ! i + 1]) else None
      | x \<Rightarrow> None)"

fun count_points :: "jsnum \<Rightarrow> jsnum \<Rightarrow> nat list \<Rightarrow> jsnum list \<Rightarrow> nat list option" where
  "count_points dataMin bucketSize histogramData [] = Some histogramData"
| "count_points dataMin bucketSize histogramData (dataPoint # points) =
     Option.bind (count_point dataMin bucketSize histogramData dataPoint)
       (\<lambda>histogramData. count_points dataMin bucketSize histogramData points)"

definition data_min :: "jsnum list \<Rightarrow> jsnum" where
  "data_min inputData = foldl math_min PInf inputData"

definition data_max :: "jsnum list \<Rightarrow> jsnum" where
  "data_max inputData = foldl math_max NInf inputData"

definition num_buckets :: "jsnum list \<Rightarrow> jsnum" where
  "num_buckets inputData = math_min HISTOGRAM_WIDTH (math_sqrt (length inputData))"

definition bucket_size :: "jsnum list \<Rightarrow> jsnum" where
  "bucket_size inputData = js_div (js_sub (data_max inputData) (data_min inputData)) (num_buckets inputData)"

definition histogram_data :: "jsnum list \<Rightarrow> nat list option" where
  "histogram_data inputData =
     (if js_eq (bucket_size inputData) (Fin 0) then Some [length inputData]
      else count_points (data_min inputData) (bucket_size inputData)
        (replicate (loop_count (js_add (num_buckets inputData) (Fin 1))) 0) inputData)"

definition histogram_range :: "(jsnum \<Rightarrow> string) \<Rightarrow> jsnum list \<Rightarrow> nat \<Rightarrow> string" where
  "histogram_range numberFormatter inputData i =
     numberFormatter (js_add (data_min inputData) (js_mul (js_nat i) (bucket_size inputData))) @ ''-'' @
     numberFormatter (js_add (data_min inputData) (js_mul (js_nat (i + 1)) (bucket_size inputData)))"

definition renderHistogram :: "string \<Rightarrow> jsnum list \<Rightarrow> (jsnum \<Rightarrow> string) \<Rightarrow> bar_chart option" where
  "renderHistogram histogramId inputData numberFormatter =
     map_option (\<lambda>histogramData.
       \<lparr>bc_id = histogramId, bc_values = map (\<lambda>n. Some (js_nat n)) histogramData,
        bc_barWidth = js_div HISTOGRAM_WIDTH (js_nat (length histogramData)),
        bc_offsets = map (histogram_range numberFormatter inputData) [0..<length histogramData],
        bc_formatter = None\<rparr>) (histogram_data inputData)"

section \<open>State\<close>

datatype task_filter = TF_ALL | TF_PLANNED | TF_RUNNING | TF_FINISHED | TF_FAILED

fun TASK_FILTER_text :: "task_filter \<Rightarrow> string" where
  "TASK_FILTER_text TF_ALL = ''All''"
| "TASK_FILTER_text TF_PLANNED = ''Planned''"
| "TASK_FILTER_text TF_RUNNING = ''Running''"
| "TASK_FILTER_text TF_FINISHED = ''Finished''"
| "TASK_FILTER_text TF_FAILED = ''Aborted/Canceled/Failed''"

fun TASK_FILTER_predicate :: "task_filter \<Rightarrow> string \<Rightarrow> bool" where
  "TASK_FILTER_predicate TF_ALL state \<longleftrightarrow> True"
| "TASK_FILTER_predicate TF_PLANNED state \<longleftrightarrow> state = ''PLANNED''"
| "TASK_FILTER_predicate TF_RUNNING state \<longleftrightarrow> state = ''RUNNING''"
| "TASK_FILTER_predicate TF_FINISHED state \<longleftrightarrow> state = ''FINISHED''"
| "TASK_FILTER_predicate TF_FAILED state \<longleftrightarrow> state = ''FAILED'' \<or> state = ''ABORTED'' \<or> state = ''CANCELED''"

record ssum_state =
  ssum_expanded :: bool
  ssum_lastRender :: "int option"
  ssum_taskFilter :: task_filter

definition ssum_init :: ssum_state where
  "ssum_init = \<lparr>ssum_expanded = False, ssum_lastRender = None, ssum_taskFilter = TF_ALL\<rparr>"

datatype ssum_event = SSum_Toggle | SSum_Filter task_filter

fun ssum_handle :: "ssum_event \<Rightarrow> ssum_state \<Rightarrow> ssum_state" where
  "ssum_handle SSum_Toggle s = s\<lparr>ssum_expanded := \<not> ssum_expanded s\<rparr>"
| "ssum_handle (SSum_Filter filt) s = s\<lparr>ssum_taskFilter := filt\<rparr>"

definition getExpandedIcon :: "ssum_state \<Rightarrow> string" where
  "getExpandedIcon s = (if ssum_expanded s then ''glyphicon-chevron-up'' else ''glyphicon-chevron-down'')"

definition getExpandedStyle :: "ssum_state \<Rightarrow> 'e attr" where
  "getExpandedStyle s = AStyle (if ssum_expanded s then [] else [(''display'', ''none'')])"

text \<open>The charts drawn after an update: the two histograms, and the bar charts when the row is expanded.\<close>

definition sorted_tasks :: "stage_info \<Rightarrow> task_info list" where
  "sorted_tasks stage = js_sort compare_task_number (se_tasks (stg_latest stage))"

definition task_bar_chart :: "string \<Rightarrow> jsnum option list \<Rightarrow> string \<Rightarrow> bar_chart" where
  "task_bar_chart chartId bars stageId =
     \<lparr>bc_id = chartId, bc_values = bars, bc_barWidth = js_div BAR_CHART_WIDTH (js_nat (length bars)),
      bc_offsets = map (\<lambda>i. stageId @ ''.'' @ nat_str i) [0..<length bars], bc_formatter = Some formatDuration\<rparr>"

definition stage_charts :: "bool \<Rightarrow> stage_info \<Rightarrow> bar_chart option list" where
  "stage_charts expanded stage =
     (let tasks = sorted_tasks stage;
          scheduledTimes = map (\<lambda>task. nanos (ts_totalScheduledTimeInNanos (tk_stats task))) tasks;
          cpuTimes = map (\<lambda>task. nanos (ts_totalCpuTimeInNanos (tk_stats task))) tasks;
          stageId = num_str (getStageNumber (stg_stageId stage))
      in [renderHistogram (''#scheduled-time-histogram-'' @ stageId) (map to_number scheduledTimes) formatDuration,
          renderHistogram (''#cpu-time-histogram-'' @ stageId) (map to_number cpuTimes) formatDuration]
         @ (if expanded then
              [Some (task_bar_chart (''#scheduled-time-bar-chart-'' @ stageId) scheduledTimes stageId),
               Some (task_bar_chart (''#cpu-time-bar-chart-'' @ stageId) cpuTimes stageId)]
            else []))"

text \<open>
  The tasks of the stage are sorted in place whether or not the charts are drawn: the last component is the stage after the
  method, with its latest attempt reordered.  The page shows the tasks in a table that has its own order.
\<close>

definition sort_stage_tasks :: "stage_info \<Rightarrow> stage_info" where
  "sort_stage_tasks stage =
     StageInfo (stg_stageId stage) (stg_plan stage) ((stg_latest stage)\<lparr>se_tasks := sorted_tasks stage\<rparr>) (stg_previous stage)
       (stg_subStages stage)"

definition ssum_componentDidUpdate :: "int \<Rightarrow> int \<Rightarrow> stage_info \<Rightarrow> ssum_state \<Rightarrow> bar_chart option list \<times> ssum_state \<times> stage_info" where
  "ssum_componentDidUpdate now later stage s =
     (if (case ssum_lastRender s of None \<Rightarrow> True | Some t \<Rightarrow> now - t \<ge> 1000)
      then (stage_charts (ssum_expanded s) stage, s\<lparr>ssum_lastRender := Some later\<rparr>, sort_stage_tasks stage)
      else ([], s, sort_stage_tasks stage))"

section \<open>Rendering\<close>

definition renderTaskList ::
  "(string \<Rightarrow> exn + url_parts) \<Rightarrow> int \<Rightarrow> ssum_state \<Rightarrow> task_info list \<Rightarrow> exn + 'e vnode" where
  "renderTaskList URL now s tasks =
     res_map (\<lambda>taskList. El ''tr'' [getExpandedStyle s] [El ''td'' [AStr ''colSpan'' ''6''] [taskList]])
       (TaskList_render URL now
         (filter (\<lambda>task. TASK_FILTER_predicate (ssum_taskFilter s) (tk_state task)) (if ssum_expanded s then tasks else [])))"

definition renderStageExecutionAttemptsTasks ::
  "(string \<Rightarrow> exn + url_parts) \<Rightarrow> int \<Rightarrow> ssum_state \<Rightarrow> stage_execution list \<Rightarrow> exn + 'e vnode list" where
  "renderStageExecutionAttemptsTasks URL now s attempts = res_mapM (\<lambda>attempt. renderTaskList URL now s (se_tasks attempt)) attempts"

definition renderTaskFilterListItem :: "ssum_state \<Rightarrow> task_filter \<Rightarrow> ssum_event vnode" where
  "renderTaskFilterListItem s taskFilter =
     El ''li'' [] [El ''a'' [AStr ''href'' ''#'', cls (if ssum_taskFilter s = taskFilter then ''selected'' else []),
       AOn ''onClick'' (SSum_Filter taskFilter)] [Text (TASK_FILTER_text taskFilter)]]"

definition renderTaskFilter :: "ssum_state \<Rightarrow> ssum_event vnode" where
  "renderTaskFilter s =
     divC ''row''
       [divC ''col-xs-6'' [El ''h3'' [] [Text ''Tasks'']],
        divC ''col-xs-6''
         [El ''table'' [cls ''header-inline-links''] [El ''tbody'' [] [El ''tr'' [] [El ''td'' []
           [divC ''input-group-btn text-right''
             [El ''button'' [AStr ''type'' ''button'', cls ''btn btn-default dropdown-toggle pull-right text-right'',
                  AStr ''data-toggle'' ''dropdown'', AStr ''aria-haspopup'' ''true'', AStr ''aria-expanded'' ''false'']
                [Text ''Show: '', Text (TASK_FILTER_text (ssum_taskFilter s)), Text '' '', spanC ''caret'' []],
              El ''ul'' [cls ''dropdown-menu'']
                (map (renderTaskFilterListItem s) [TF_ALL, TF_PLANNED, TF_RUNNING, TF_FINISHED, TF_FAILED])]]]]]]]"

definition stat_cells :: "string \<Rightarrow> string \<Rightarrow> 'e vnode" where
  "stat_cells title value =
     El ''tr'' [] [El ''td'' [cls ''stage-table-stat-title''] [Text title], El ''td'' [cls ''stage-table-stat-text''] [Text value]]"

definition stat_table :: "string \<Rightarrow> string \<Rightarrow> (string \<times> string) list \<Rightarrow> 'e vnode" where
  "stat_table kind title rows =
     El ''td'' [] [El ''table'' [cls (''stage-table '' @ kind)]
       [El ''thead'' [] [El ''tr'' []
          [El ''th'' [cls ''stage-table-stat-title stage-table-stat-header''] [Text title], El ''th'' [] []]],
        El ''tbody'' [] (map (\<lambda>(name, value). stat_cells name value) rows)]]"

definition histogram_table :: "string \<Rightarrow> string \<Rightarrow> 'e vnode" where
  "histogram_table title chartId =
     El ''td'' [] [El ''table'' [cls ''stage-table histogram-table'']
       [El ''thead'' [] [El ''tr'' [] [El ''th'' [cls ''stage-table-stat-title stage-table-chart-header''] [Text title]]],
        El ''tbody'' [] [El ''tr'' [] [El ''td'' [cls ''histogram-container'']
          [El ''span'' [cls ''histogram'', AStr ''id'' chartId] [divC ''loader'' []]]]]]]"

definition expanded_chart :: "ssum_state \<Rightarrow> string \<Rightarrow> string \<Rightarrow> 'e vnode" where
  "expanded_chart s title chartId =
     El ''tr'' [getExpandedStyle s] [El ''td'' [AStr ''colSpan'' ''6'']
       [El ''table'' [cls ''expanded-chart''] [El ''tbody'' [] [El ''tr'' []
         [El ''td'' [cls ''stage-table-stat-title expanded-chart-title''] [Text title],
          El ''td'' [cls ''bar-chart-container'']
            [El ''span'' [cls ''bar-chart'', AStr ''id'' chartId] [divC ''loader'' []]]]]]]]"

definition count_tasks :: "(task_info \<Rightarrow> bool) \<Rightarrow> task_info list \<Rightarrow> string" where
  "count_tasks p tasks = nat_str (length (filter p tasks))"

definition stage_stat_tables :: "ssum_state \<Rightarrow> stage_info \<Rightarrow> ssum_event vnode" where
  "stage_stat_tables s stage =
     (let stats = se_stats (stg_latest stage); tasks = se_tasks (stg_latest stage);
          totalBufferedBytes = foldl js_add (Fin 0) (map tk_totalBufferedBytes tasks);
          stageId = num_str (getStageNumber (stg_stageId stage))
      in El ''tr'' []
        [stat_table ''stage-table-time'' ''Time''
           [(''Scheduled'', ss_totalScheduledTime stats), (''Blocked'', ss_totalBlockedTime stats), (''CPU'', ss_totalCpuTime stats)],
         stat_table ''stage-table-memory'' ''Memory''
           [(''Cumulative'', formatDataSizeBytes (js_div (ss_cumulativeUserMemory stats) (Fin 1000))),
            (''Current'', ss_userMemoryReservation stats), (''Buffers'', formatDataSize totalBufferedBytes),
            (''Peak'', ss_peakUserMemoryReservation stats)],
         stat_table ''stage-table-tasks'' ''Tasks''
           [(''Pending'', count_tasks (\<lambda>task. tk_state task = ''PLANNED'') tasks),
            (''Running'', count_tasks (\<lambda>task. tk_state task = ''RUNNING'') tasks),
            (''Blocked'', count_tasks (\<lambda>task. ts_fullyBlocked (tk_stats task)) tasks),
            (''Total'', nat_str (length tasks))],
         histogram_table ''Scheduled Time Skew'' (''scheduled-time-histogram-'' @ stageId),
         histogram_table ''CPU Time Skew'' (''cpu-time-histogram-'' @ stageId),
         El ''td'' [cls ''expand-charts-container'']
           [El ''a'' [AOn ''onClick'' SSum_Toggle, cls ''expand-charts-button'']
             [El ''span'' (cls (''glyphicon '' @ getExpandedIcon s) # GLYPHICON_HIGHLIGHT # tooltip ''top'' ''More'') []]]])"

text \<open>A stage has no property \<open>state\<close> of its own, so its colour is the default one.\<close>

definition StageSummary_render ::
  "(string \<Rightarrow> exn + url_parts) \<Rightarrow> int \<Rightarrow> stage_info \<Rightarrow> ssum_state \<Rightarrow> exn + ssum_event vnode" where
  "StageSummary_render URL now stage s =
     (if stg_plan stage = None then
        Inr (El ''tr'' [] [El ''td'' [] [Text ''Information about this stage is unavailable.'']])
      else
        (let stageId = num_str (getStageNumber (stg_stageId stage)) in
         res_bind (renderStageExecutionAttemptsTasks URL now s [stg_latest stage]) (\<lambda>latest.
         res_map (\<lambda>previous.
           El ''tr'' []
             [El ''td'' [cls ''stage-id'']
               [El ''div'' [cls ''stage-state-color'',
                   AStyle [(''borderLeftColor'', getStageStateColor \<lparr>sv_state = None, sv_fullyBlocked = None\<rparr>)]] [Text stageId]],
              El ''td'' [] [El ''table'' [cls ''table single-stage-table''] [El ''tbody'' []
               ([stage_stat_tables s stage,
                 expanded_chart s ''Task Scheduled Time'' (''scheduled-time-bar-chart-'' @ stageId),
                 expanded_chart s ''Task CPU Time'' (''cpu-time-bar-chart-'' @ stageId),
                 El ''tr'' [getExpandedStyle s] [El ''td'' [AStr ''colSpan'' ''6''] [renderTaskFilter s]]]
                @ latest @ previous)]]])
           (renderStageExecutionAttemptsTasks URL now s (stg_previous stage)))))"

datatype stage_event = StageEvent string ssum_event

definition StageList_render ::
  "(string \<Rightarrow> exn + url_parts) \<Rightarrow> int \<Rightarrow> (string \<Rightarrow> ssum_state) \<Rightarrow> stage_info option \<Rightarrow> exn + stage_event vnode" where
  "StageList_render URL now summaries outputStage =
     (let stages = (case outputStage of None \<Rightarrow> [] | Some stage \<Rightarrow> getStageList stage) in
      if length stages = 0 then
        Inr (divC ''row'' [divC ''col-xs-12'' [Text ''No stage information available.'']])
      else res_map (\<lambda>renderedStages.
        divC ''row'' [divC ''col-xs-12'' [El ''table'' [cls ''table'', AStr ''id'' ''stage-list''] [El ''tbody'' [] renderedStages]]])
        (res_mapM (\<lambda>stage.
           res_map (\<lambda>v. Keyed (stg_stageId stage) (map_vnode (StageEvent (stg_stageId stage)) v))
             (StageSummary_render URL now stage (summaries (stg_stageId stage)))) stages))"

section \<open>Every task is counted once\<close>

lemma sqrt_floor_spec: "sqrt_floor n * sqrt_floor n \<le> n \<and> n < (sqrt_floor n + 1) * (sqrt_floor n + 1)"
proof (induction n rule: sqrt_floor.induct)
  case (1 n)
  show ?case
  proof (cases "n = 0")
    case True
    then show ?thesis by (simp add: sqrt_floor.simps)
  next
    case False
    define q where "q = sqrt_floor (n div 4)"
    have "q * q \<le> n div 4" and "n div 4 < (q + 1) * (q + 1)" using "1.IH" [OF False] by (simp_all add: q_def)
    then have "4 * (q * q) \<le> n" and "n < 4 * ((q + 1) * (q + 1))" by (linarith, simp add: div_less_iff_less_mult)
    then have "2 * q * (2 * q) \<le> n" and "n < (2 * q + 2) * (2 * q + 2)" by (simp_all add: algebra_simps)
    then show ?thesis using False by (simp add: sqrt_floor.simps [of n] q_def [symmetric] Let_def)
  qed
qed

lemma math_sqrt_bounds:
  assumes "1 \<le> n" and "n \<le> 2 ^ 53"
  shows "\<exists>s. math_sqrt n = Fin s \<and> 1 \<le> s"
proof -
  define m where "m = sqrt_floor (n * 4 ^ 60)"
  have lo: "m * m \<le> n * 4 ^ 60" and hi: "n * 4 ^ 60 < (m + 1) * (m + 1)" using sqrt_floor_spec [of "n * 4 ^ 60"] by (simp_all add: m_def)
  have m1: "2 ^ 60 \<le> m"
  proof (rule ccontr)
    assume "\<not> 2 ^ 60 \<le> m"
    then have "m < 2 ^ 60" by (simp only: not_le)
    then have "m + 1 \<le> 2 ^ 60" by simp
    then have "(m + 1) * (m + 1) \<le> 2 ^ 60 * 2 ^ 60" by (intro mult_le_mono)
    moreover have "2 ^ 60 * 2 ^ 60 \<le> n * 4 ^ 60" using assms(1) by simp
    ultimately show False using hi by linarith
  qed
  have m2: "m \<le> 2 ^ 87"
  proof (rule ccontr)
    assume "\<not> m \<le> 2 ^ 87"
    then have "2 ^ 87 < m" by (simp only: not_le)
    then have "2 ^ 87 * 2 ^ 87 < m * m" by (intro mult_strict_mono) simp_all
    moreover have "n * 4 ^ 60 \<le> 2 ^ 53 * 4 ^ 60" using assms(2) by (rule mult_le_mono1)
    ultimately show False using lo by simp
  qed
  define x where "x = (if m * m = n * 4 ^ 60 then of_nat m else of_nat m + 1/2 :: rat) / 2 ^ 60"
  have "(2::rat) ^ 60 \<le> of_nat m" using of_nat_mono [OF m1, where ?'a = rat] by simp
  then have x1: "1 \<le> x" by (simp add: x_def field_simps)
  have "(of_nat m :: rat) \<le> 2 ^ 87" using of_nat_mono [OF m2, where ?'a = rat] by simp
  then have x2: "x \<le> 2 ^ 28" by (simp add: x_def field_simps)
  have "is_repr (1::rat)" using is_repr_int [of 1] by simp
  then have "1 \<le> rnd x" using rnd_ge_repr [OF x1] by simp
  moreover have "rnd x \<le> 2 ^ 28" using rnd_le_repr [OF x2] is_repr_int [of "2 ^ 28"] by simp
  then have "\<not> is_huge (rnd x)" using \<open>1 \<le> rnd x\<close> by (intro not_huge_powi [of _ 29]) simp_all
  moreover have "math_sqrt n = fl x" unfolding math_sqrt_def m_def [symmetric] x_def Let_def ..
  ultimately show ?thesis by (simp add: fl_def)
qed

lemma num_buckets_bounds:
  assumes "xs \<noteq> []" and "length xs \<le> 2 ^ 53"
  shows "\<exists>b. num_buckets xs = Fin b \<and> 1 \<le> b \<and> b \<le> 175"
proof -
  have "1 \<le> length xs" using assms(1) by (cases xs) simp_all
  with math_sqrt_bounds [of "length xs"] assms(2) obtain s where "math_sqrt (length xs) = Fin s" "1 \<le> s" by blast
  then show ?thesis by (auto simp: num_buckets_def HISTOGRAM_WIDTH_def math_min_def)
qed

text \<open>The least and the greatest of finite values.\<close>

lemma foldl_min: "foldl math_min (Fin a) (map Fin xs) = Fin (foldl min a xs)"
  by (induction xs arbitrary: a) (auto simp: math_min_def min_def)

lemma foldl_max: "foldl math_max (Fin a) (map Fin xs) = Fin (foldl max a xs)"
  by (induction xs arbitrary: a) (auto simp: math_max_def max_def)

lemma data_bounds:
  assumes "xs \<noteq> []"
  shows "\<exists>lo hi. data_min (map Fin xs) = Fin lo \<and> data_max (map Fin xs) = Fin hi \<and> lo \<in> set xs \<and> hi \<in> set xs
     \<and> (\<forall>x \<in> set xs. lo \<le> x \<and> x \<le> hi)"
proof -
  have min': "foldl min a ys \<in> insert a (set ys) \<and> (\<forall>x \<in> insert a (set ys). foldl min a ys \<le> x)" for a :: rat and ys
  proof (induction ys arbitrary: a)
    case (Cons y ys)
    from Cons [of "min a y"] show ?case by (auto simp: min_def split: if_splits)
  qed simp
  have max': "foldl max a ys \<in> insert a (set ys) \<and> (\<forall>x \<in> insert a (set ys). x \<le> foldl max a ys)" for a :: rat and ys
  proof (induction ys arbitrary: a)
    case (Cons y ys)
    from Cons [of "max a y"] show ?case by (auto simp: max_def split: if_splits)
  qed simp
  obtain y ys where xs: "xs = y # ys" using assms by (cases xs) auto
  have "data_min (map Fin xs) = Fin (foldl min y ys)" and "data_max (map Fin xs) = Fin (foldl max y ys)"
    by (simp_all add: data_min_def data_max_def xs math_min_def math_max_def foldl_min foldl_max)
  then show ?thesis using min' [of y ys] max' [of y ys] xs by auto
qed

text \<open>Rounding in a range where nothing overflows or is denormal.\<close>

definition mid_range :: "rat \<Rightarrow> bool" where
  "mid_range x \<longleftrightarrow> 1 / 2 ^ 120 \<le> x \<and> x \<le> 2 ^ 120"

lemma mid_range_rnd:
  assumes "mid_range x"
  shows "x * (1 - 1 / 2 ^ 53) \<le> rnd x" and "rnd x \<le> x * (1 + 1 / 2 ^ 53)" and "fl x = Fin (rnd x)"
proof -
  have "(2::rat) powi (-1022) \<le> 2 powi (-120)" by (simp only: powi_le_iff)
  moreover have "(2::rat) powi (-120) = 1 / 2 ^ 120" by (simp add: power_int_minus)
  ultimately have "2 powi (-1022) \<le> x" using assms unfolding mid_range_def by (metis order_trans)
  then have n: "x = 0 \<or> 2 powi (-1022) \<le> x" ..
  show lo: "x * (1 - 1 / 2 ^ 53) \<le> rnd x" by (rule rnd_rel(1) [OF n])
  show hi: "rnd x \<le> x * (1 + 1 / 2 ^ 53)" by (rule rnd_rel(2) [OF n])
  have "0 \<le> x" "x \<le> 2 ^ 120" using assms by (auto simp: mid_range_def intro: order_trans [rotated])
  then have "rnd x \<le> 2 ^ 121" "0 \<le> rnd x" using hi rnd_nonneg by simp_all
  then have "\<not> is_huge (rnd x)" by (intro not_huge_powi [of _ 122]) simp_all
  then show "fl x = Fin (rnd x)" by (simp add: fl_def)
qed

lemma bucket_in_range:
  assumes "lo \<le> x" and "x \<le> hi" and "1 / 2 ^ 100 \<le> hi - lo" and "hi - lo \<le> 2 ^ 100" and "1 \<le> b" and "b \<le> 175"
  defines "B \<equiv> js_div (js_sub (Fin hi) (Fin lo)) (Fin b)"
  shows "\<exists>B' Q. B = Fin B' \<and> 0 < B' \<and> js_div (js_sub (Fin x) (Fin lo)) B = Fin Q \<and> 0 \<le> Q \<and> Q \<le> b + 1/4"
proof -
  let ?e = "1 / 2 ^ 53 :: rat"
  define D where "D = rnd (hi - lo)"
  have d: "mid_range (hi - lo)" using assms(3,4) by (simp add: mid_range_def)
  note D = mid_range_rnd [OF d, folded D_def]
  have D1: "1 / 2 ^ 101 \<le> D" using D(1) assms(3) by (simp add: field_simps)
  have D2: "D \<le> 2 ^ 101" using D(2) assms(4) by (simp add: field_simps)
  have "1 / 2 ^ 120 \<le> D / b" using D1 assms(5,6) by (simp add: field_simps)
  moreover have "D / b \<le> D" using D1 assms(5) by (simp add: field_simps)
  ultimately have db: "mid_range (D / b)" using D2 by (simp add: mid_range_def)
  define B' where "B' = rnd (D / b)"
  note B = mid_range_rnd [OF db, folded B'_def]
  have b0: "b \<noteq> 0" and D0: "0 < D" using assms(5) D1 by auto
  have "0 < D / b * (1 - ?e)" using D0 assms(5) by simp
  then have B0: "0 < B'" using B(1) by linarith
  have Beq: "B = Fin B'" using D(3) B(3) b0 by (simp add: B_def js_sub_Fin)
  define X where "X = rnd (x - lo)"
  have X: "0 \<le> X" "X \<le> D" unfolding X_def D_def using assms(1,2) by (auto intro: rnd_nonneg rnd_mono)
  have "\<not> is_huge X" using X D2 by (intro not_huge_powi [of _ 102]) simp_all
  then have Xeq: "js_sub (Fin x) (Fin lo) = Fin X" by (simp add: js_sub_Fin fl_def X_def)
  define y where "y = X / B'"
  have "X \<le> D" and "D * (1 - ?e) \<le> b * B'" using X(2) B(1) assms(5) by (simp_all add: field_simps)
  then have "X * (1 - ?e) \<le> b * B'" using mult_right_mono [of X D "1 - ?e"] by simp
  then have "y * (1 - ?e) \<le> b" using B0 by (simp add: y_def field_simps)
  moreover have y0: "0 \<le> y" using X(1) B0 by (simp add: y_def)
  ultimately have y1: "y \<le> b + 1/8" using assms(6) by (simp add: field_simps)
  have m: "mid_range (b + 1/8)" using assms(5,6) by (simp add: mid_range_def)
  have "rnd y \<le> rnd (b + 1/8)" using y1 by (rule rnd_mono)
  also have "\<dots> \<le> (b + 1/8) * (1 + ?e)" by (rule mid_range_rnd(2) [OF m])
  also have "\<dots> \<le> b + 1/4" using assms(6) by (simp add: field_simps)
  finally have Q: "rnd y \<le> b + 1/4" "0 \<le> rnd y" using y0 rnd_nonneg by auto
  have "\<not> is_huge (rnd y)" using Q assms(6) by (intro not_huge_powi [of _ 8]) simp_all
  then have "js_div (js_sub (Fin x) (Fin lo)) B = Fin (rnd y)" using B0 by (simp add: Xeq Beq y_def fl_def)
  then show ?thesis using Beq B0 Q by blast
qed

lemma loop_count_bounds:
  assumes "1 \<le> b" and "b \<le> 175"
  shows "b + 1/2 \<le> of_nat (loop_count (js_add (Fin b) (Fin 1)))"
proof -
  have m: "mid_range (b + 1)" using assms by (simp add: mid_range_def)
  note r = mid_range_rnd [OF m]
  have "b + 1/2 \<le> rnd (b + 1)" using r(1) assms(2) by (simp add: field_simps)
  with le_of_int_ceiling [of "rnd (b + 1)"] have "b + 1/2 \<le> of_int \<lceil>rnd (b + 1)\<rceil>" by linarith
  moreover have "0 \<le> rnd (b + 1)" using assms(1) by (intro rnd_nonneg) simp
  ultimately show ?thesis using r(3) by (simp add: loop_count_def)
qed

lemma count_points_total:
  assumes "\<forall>x \<in> set points. \<exists>i < n. \<forall>h. length h = n \<longrightarrow> count_point dmin bsize h x = Some (h[i := h ! i + 1])"
    and "length h = n"
  shows "\<exists>h'. count_points dmin bsize h points = Some h' \<and> length h' = n \<and> sum_list h' = sum_list h + length points"
  using assms
proof (induction points arbitrary: h)
  case (Cons x points)
  then obtain i where i: "i < n" "count_point dmin bsize h x = Some (h[i := h ! i + 1])" by auto
  have "sum_list (h[i := h ! i + 1]) = sum_list h + 1"
    using i(1) Cons.prems(2) member_le_sum_list [of "h ! i" h] by (simp add: sum_list_update)
  with Cons.IH [of "h[i := h ! i + 1]"] Cons.prems i show ?case by auto
qed simp

lemma count_point_in_range:
  assumes "js_div (js_sub (Fin x) (Fin lo)) bsize = Fin Q" and "0 \<le> Q" and "Q < of_nat (length h)"
  shows "count_point (Fin lo) bsize h (Fin x) = Some (h[nat \<lfloor>Q\<rfloor> := h ! nat \<lfloor>Q\<rfloor> + 1])" and "nat \<lfloor>Q\<rfloor> < length h"
proof -
  have "of_int \<lfloor>Q\<rfloor> < (of_int (int (length h)) :: rat)" using assms(3) of_int_floor_le [of Q] by linarith
  then have "\<lfloor>Q\<rfloor> < int (length h)" by (simp only: of_int_less_iff)
  then show "nat \<lfloor>Q\<rfloor> < length h" using assms(2) by linarith
  then show "count_point (Fin lo) bsize h (Fin x) = Some (h[nat \<lfloor>Q\<rfloor> := h ! nat \<lfloor>Q\<rfloor> + 1])"
    using assms(1,2) by (simp add: count_point_def Let_def)
qed

text \<open>
  C14: a histogram counts every task exactly once: no bucket lies outside the array although the number of buckets is a rounded
  square root and the bucket of a task a rounded quotient, and the counts add up to the number of tasks.
\<close>

theorem histogram_counts_every_task:
  assumes "xs \<noteq> []" and "length xs \<le> 2 ^ 53" and "\<forall>x \<in> set xs. 0 \<le> x \<and> x \<le> 2 ^ 100"
    and "\<forall>x \<in> set xs. \<forall>y \<in> set xs. x < y \<longrightarrow> 1 / 2 ^ 100 \<le> y - x"
  shows "\<exists>h. histogram_data (map Fin xs) = Some h \<and> sum_list h = length xs"
proof -
  obtain lo hi where lh: "data_min (map Fin xs) = Fin lo" "data_max (map Fin xs) = Fin hi" "lo \<in> set xs" "hi \<in> set xs"
    and between: "\<forall>x \<in> set xs. lo \<le> x \<and> x \<le> hi" using data_bounds [OF assms(1)] by blast
  obtain b where b: "num_buckets (map Fin xs) = Fin b" "1 \<le> b" "b \<le> 175"
    using num_buckets_bounds [of "map Fin xs"] assms(1,2) by auto
  define n where "n = loop_count (js_add (Fin b) (Fin 1))"
  have n: "b + 1/2 \<le> of_nat n" unfolding n_def by (rule loop_count_bounds [OF b(2,3)])
  show ?thesis
  proof (cases "lo = hi")
    case True
    then have "bucket_size (map Fin xs) = Fin 0" using b by (simp add: bucket_size_def lh js_sub_Fin fl_def)
    then show ?thesis by (simp add: histogram_data_def js_eq_def)
  next
    case False
    then have "lo < hi" using between lh(3) by (metis order_less_le)
    have "0 \<le> lo" and "hi \<le> 2 ^ 100" using assms(3) lh(3,4) by blast+
    then have d: "1 / 2 ^ 100 \<le> hi - lo" "hi - lo \<le> 2 ^ 100" using assms(4) lh(3,4) \<open>lo < hi\<close> by (blast, linarith)
    have bs: "bucket_size (map Fin xs) = js_div (js_sub (Fin hi) (Fin lo)) (Fin b)" by (simp add: bucket_size_def lh b(1))
    obtain B where "bucket_size (map Fin xs) = Fin B" "0 < B"
      using bucket_in_range [OF order_refl less_imp_le [OF \<open>lo < hi\<close>] d b(2,3)] unfolding bs by blast
    then have pos: "\<not> js_eq (bucket_size (map Fin xs)) (Fin 0)" by (simp add: js_eq_def)
    have "\<exists>i < n. \<forall>h. length h = n \<longrightarrow> count_point (Fin lo) (bucket_size (map Fin xs)) h y = Some (h[i := h ! i + 1])"
      if y: "y \<in> set (map Fin xs)" for y
    proof -
      from y obtain x where x: "y = Fin x" "lo \<le> x" "x \<le> hi" using between by auto
      obtain Q where Q: "js_div (js_sub (Fin x) (Fin lo)) (bucket_size (map Fin xs)) = Fin Q" "0 \<le> Q" "Q \<le> b + 1/4"
        using bucket_in_range [OF x(2,3) d b(2,3)] unfolding bs by blast
      then have "Q < of_nat n" using n by linarith
      with count_point_in_range [OF Q(1,2), of "replicate n 0"] count_point_in_range(1) [OF Q(1,2)] x(1) show ?thesis by auto
    qed
    then obtain h where "count_points (Fin lo) (bucket_size (map Fin xs)) (replicate n 0) (map Fin xs) = Some h"
        "sum_list h = length xs"
      using count_points_total [of "map Fin xs" n "Fin lo" "bucket_size (map Fin xs)" "replicate n 0"] by (auto simp: sum_list_replicate)
    then show ?thesis using pos by (simp add: histogram_data_def lh b(1) n_def)
  qed
qed

theorem histogram_counts_every_task_witness:
  "\<exists>h. histogram_data (map Fin [1, 5, 5, 9]) = Some h \<and> sum_list h = Suc (Suc (Suc (Suc 0)))"
  using histogram_counts_every_task [of "[1, 5, 5, 9]"] by simp

end
