(* ===== verification/QueryDetail.thy ===== *)
theory QueryDetail
  imports StageSummary WorkerStatus
begin

text \<open>
  The class \<open>QueryDetail\<close> of \<open>webapp/src/components/QueryDetail.jsx\<close>: stack traces, polling with its rates, the snapshot of
  the stages and the page.
\<close>

section \<open>Stack traces\<close>

definition failureInfoToString :: "failure_info \<Rightarrow> string" where
  "failureInfoToString t =
     (case fi_message t of
        Null \<Rightarrow> fi_type t
      | Undefined \<Rightarrow> fi_type t @ '': '' @ ''undefined''
      | Value message \<Rightarrow> fi_type t @ '': '' @ message)"

function count_shared :: "string list \<Rightarrow> string list \<Rightarrow> nat \<Rightarrow> nat" where
  "count_shared stack parentStack n =
     (if n < min (length stack) (length parentStack)
         \<and> stack ! (length stack - 1 - n) = parentStack ! (length parentStack - 1 - n)
      then count_shared stack parentStack (n + 1) else n)"
  by auto
termination
  by (relation "measure (\<lambda>(stack, parentStack, n). length stack - n)") auto

declare count_shared.simps [simp del]

definition countSharedStackFrames :: "string list \<Rightarrow> string list \<Rightarrow> nat" where
  "countSharedStackFrames stack parentStack = count_shared stack parentStack 0"

definition newline :: string where
  "newline = [CHR 0x0A]"

definition tab :: string where
  "tab = [CHR 0x09]"

definition stack_lines :: "string \<Rightarrow> string list \<Rightarrow> nat \<Rightarrow> string" where
  "stack_lines linePrefix stack sharedStackFrames =
     concat (map (\<lambda>frame. linePrefix @ tab @ ''at '' @ frame @ newline) (take (length stack - sharedStackFrames) stack))
     @ (if sharedStackFrames \<noteq> 0 then linePrefix @ tab @ ''... '' @ nat_str sharedStackFrames @ '' more'' @ newline else [])"

text \<open>A parent whose stack is missing raises when its length is read; one whose stack is \<open>null\<close> shares nothing.\<close>

definition shared_frames :: "string list \<Rightarrow> string list field \<Rightarrow> exn + nat" where
  "shared_frames stack parentStack =
     (case parentStack of Null \<Rightarrow> Inr 0 | Undefined \<Rightarrow> Inl TypeError | Value parent \<Rightarrow> Inr (countSharedStackFrames stack parent))"

fun formatStackTraceHelper :: "failure_info \<Rightarrow> string list field \<Rightarrow> string \<Rightarrow> string \<Rightarrow> exn + string"
  and format_suppressed :: "failure_info list \<Rightarrow> string list field \<Rightarrow> string \<Rightarrow> exn + string"
  and format_cause :: "failure_info option \<Rightarrow> string list field \<Rightarrow> string \<Rightarrow> exn + string" where
  "formatStackTraceHelper (FailureInfo ty message stack suppressed cause) parentStack pre linePrefix =
     res_bind
       (case stack of
          Value frames \<Rightarrow> res_map (stack_lines linePrefix frames) (shared_frames frames parentStack)
        | _ \<Rightarrow> Inr []) (\<lambda>lines.
     res_bind (format_suppressed suppressed stack (linePrefix @ tab)) (\<lambda>nested.
     res_map (\<lambda>causes.
       linePrefix @ pre @ failureInfoToString (FailureInfo ty message stack suppressed cause) @ newline @ lines @ nested @ causes)
       (format_cause cause stack linePrefix)))"
| "format_suppressed [] parentStack linePrefix = Inr []"
| "format_suppressed (info # infos) parentStack linePrefix =
     res_bind (formatStackTraceHelper info parentStack ''Suppressed: '' linePrefix) (\<lambda>s.
     res_map (\<lambda>rest. s @ rest) (format_suppressed infos parentStack linePrefix))"
| "format_cause None parentStack linePrefix = Inr []"
| "format_cause (Some info) parentStack linePrefix = formatStackTraceHelper info parentStack ''Caused by: '' linePrefix"

definition formatStackTrace :: "failure_info \<Rightarrow> exn + string" where
  "formatStackTrace info = formatStackTraceHelper info (Value []) [] []"

section \<open>State\<close>

text \<open>
  The constructor initialises \<open>lastSnapshotStages\<close>, while the code reads \<open>lastSnapshotStage\<close>: that field starts undefined,
  like the output stage of a query that has none.
\<close>

record qd_state =
  qd_query :: "query_info option"
  qd_lastSnapshotStages :: "stage_info option"
  qd_lastSnapshotStage :: "stage_info option"
  qd_lastScheduledTime :: "jsnum option"
  qd_lastCpuTime :: "jsnum option"
  qd_lastRowInput :: jsnum
  qd_lastByteInput :: "jsnum option"
  qd_scheduledTimeRate :: "jsnum list"
  qd_cpuTimeRate :: "jsnum list"
  qd_rowInputRate :: "jsnum list"
  qd_byteInputRate :: "jsnum list"
  qd_reservedMemory :: "jsnum list"
  qd_initialized :: bool
  qd_ended :: bool
  qd_lastRefresh :: "int option"
  qd_lastRender :: "int option"
  qd_stageRefresh :: bool
  qd_timeout :: bool
  qd_requests :: nat

definition qd_init :: qd_state where
  "qd_init = \<lparr>qd_query = None, qd_lastSnapshotStages = None, qd_lastSnapshotStage = None, qd_lastScheduledTime = Some (Fin 0),
     qd_lastCpuTime = Some (Fin 0), qd_lastRowInput = Fin 0, qd_lastByteInput = Some (Fin 0), qd_scheduledTimeRate = [],
     qd_cpuTimeRate = [], qd_rowInputRate = [], qd_byteInputRate = [], qd_reservedMemory = [], qd_initialized = False,
     qd_ended = False, qd_lastRefresh = None, qd_lastRender = None, qd_stageRefresh = True, qd_timeout = False, qd_requests = 0\<rparr>"

definition qd_resetTimer :: "qd_state \<Rightarrow> qd_state" where
  "qd_resetTimer s = s\<lparr>qd_timeout := qd_query s = None \<or> \<not> qd_ended s\<rparr>"

definition qd_url :: "string \<Rightarrow> string" where
  "qd_url search = ''/v1/query/'' @ getFirstParameter search"

definition qd_refreshLoop :: "qd_state \<Rightarrow> qd_state" where
  "qd_refreshLoop s = s\<lparr>qd_timeout := False, qd_requests := qd_requests s + 1\<rparr>"

definition qd_receive :: "query_info \<Rightarrow> int \<Rightarrow> qd_state \<Rightarrow> qd_state" where
  "qd_receive query nowMillis s =
     s\<lparr>qd_query := Some query,
       qd_lastSnapshotStage := (if qd_stageRefresh s then qi_outputStage query else qd_lastSnapshotStage s),
       qd_lastScheduledTime := parseDuration (qi_totalScheduledTime query),
       qd_lastCpuTime := parseDuration (qs_totalCpuTime (q_queryStats query)),
       qd_lastRowInput := qi_processedInputPositions query,
       qd_lastByteInput := parseDataSize (qi_processedInputDataSize query),
       qd_initialized := True,
       qd_ended := qi_finalQueryInfo query,
       qd_lastRefresh := Some nowMillis\<rparr>"

text \<open>
  The rates of a new measurement against the previous one; \<open>old\<close> is the state before the answer.  Sizes the server sends
  parse; one that did not would be kept as \<open>null\<close>, where the model keeps the number \<open>null\<close> converts to.
\<close>

definition qd_rates :: "query_info \<Rightarrow> jsnum \<Rightarrow> qd_state \<Rightarrow> qd_state \<Rightarrow> qd_state" where
  "qd_rates query elapsedSecs old s =
     (let millis = js_mul elapsedSecs (Fin 1000);
          diff = (\<lambda>new last. js_sub (to_number new) (to_number last))
      in s\<lparr>
        qd_scheduledTimeRate := addToHistory
          (js_div (diff (parseDuration (qi_totalScheduledTime query)) (qd_lastScheduledTime old)) millis) (qd_scheduledTimeRate s),
        qd_cpuTimeRate := addToHistory
          (js_div (diff (parseDuration (qs_totalCpuTime (q_queryStats query))) (qd_lastCpuTime old)) millis) (qd_cpuTimeRate s),
        qd_rowInputRate := addToHistory
          (js_div (js_sub (qi_processedInputPositions query) (qd_lastRowInput old)) elapsedSecs) (qd_rowInputRate s),
        qd_byteInputRate := addToHistory
          (js_div (diff (parseDataSize (qi_processedInputDataSize query)) (qd_lastByteInput old)) elapsedSecs) (qd_byteInputRate s),
        qd_reservedMemory := addToHistory
          (to_number (parseDataSize (qs_userMemoryReservation (q_queryStats query)))) (qd_reservedMemory s)\<rparr>)"

definition elapsed_secs :: "query_info \<Rightarrow> int \<Rightarrow> int option \<Rightarrow> jsnum" where
  "elapsed_secs query nowMillis lastRefresh' =
     (let now = Fin (of_int nowMillis);
          lastRefresh = (case lastRefresh' of Some t \<Rightarrow> Fin (of_int t)
            | None \<Rightarrow> js_sub now (to_number (parseDuration (qs_elapsedTime (q_queryStats query)))))
      in js_div (js_sub now lastRefresh) (Fin 1000))"

definition qd_success :: "query_info \<Rightarrow> int \<Rightarrow> qd_state \<Rightarrow> qd_state" where
  "qd_success query nowMillis s =
     (let s' = qd_receive query nowMillis s in
      if qd_ended s \<or> (qd_lastRefresh s = None \<and> q_state query = ''RUNNING'') then qd_resetTimer s'
      else
        (let elapsedSecsSinceLastRefresh = elapsed_secs query nowMillis (qd_lastRefresh s) in
         qd_resetTimer
           (if js_ge elapsedSecsSinceLastRefresh (Fin 0) then qd_rates query elapsedSecsSinceLastRefresh s s' else s')))"

definition qd_error :: "qd_state \<Rightarrow> qd_state" where
  "qd_error s = qd_resetTimer (s\<lparr>qd_initialized := True\<rparr>)"

definition handleStageRefreshClick :: "qd_state \<Rightarrow> exn + qd_state" where
  "handleStageRefreshClick s =
     (if qd_stageRefresh s then
        res_map (\<lambda>query. s\<lparr>qd_stageRefresh := False, qd_lastSnapshotStages := qi_outputStage query\<rparr>)
          (res_of_option TypeError (qd_query s))
      else Inr (s\<lparr>qd_stageRefresh := True\<rparr>))"

definition qd_drawings :: "qd_state \<Rightarrow> drawing list" where
  "qd_drawings s =
     [(''#scheduled-time-rate-sparkline'', qd_scheduledTimeRate s, [ChartRangeMin0, NumberFormatter precisionRound]),
      (''#cpu-time-rate-sparkline'', qd_cpuTimeRate s, [ChartRangeMin0, NumberFormatter precisionRound]),
      (''#row-input-rate-sparkline'', qd_rowInputRate s, [NumberFormatter formatCount]),
      (''#byte-input-rate-sparkline'', qd_byteInputRate s, [NumberFormatter formatDataSize]),
      (''#reserved-memory-sparkline'', qd_reservedMemory s, [NumberFormatter formatDataSize])]"

text \<open>The query text is highlighted with the first drawing.\<close>

definition qd_componentDidUpdate :: "int \<Rightarrow> int \<Rightarrow> qd_state \<Rightarrow> (drawing list \<times> bool) \<times> qd_state" where
  "qd_componentDidUpdate now later s =
     (if (case qd_lastRender s of None \<Rightarrow> True | Some t \<Rightarrow> now - t \<ge> 1000)
      then ((qd_drawings s, qd_lastRender s = None), s\<lparr>qd_lastRender := Some later\<rparr>) else (([], False), s))"

datatype qd_event = QD_Query query_info int | QD_Error | QD_StageRefreshClick | QD_DidUpdate int int

fun qd_answers :: "qd_event \<Rightarrow> bool" where
  "qd_answers (QD_Query query now) \<longleftrightarrow> True"
| "qd_answers QD_Error \<longleftrightarrow> True"
| "qd_answers e \<longleftrightarrow> False"

text \<open>A handler that raises leaves the state as it is.\<close>

fun qd_handle :: "qd_event \<Rightarrow> qd_state \<Rightarrow> qd_state" where
  "qd_handle (QD_Query query now) s = qd_success query now (s\<lparr>qd_requests := qd_requests s - 1\<rparr>)"
| "qd_handle QD_Error s = qd_error (s\<lparr>qd_requests := qd_requests s - 1\<rparr>)"
| "qd_handle QD_StageRefreshClick s = (case handleStageRefreshClick s of Inl e \<Rightarrow> s | Inr s' \<Rightarrow> s')"
| "qd_handle (QD_DidUpdate now later) s = snd (qd_componentDidUpdate now later s)"

end
