(* ===== verification/QueryDetailView.thy ===== *)
theory QueryDetailView
  imports QueryDetail
begin

text \<open>
  The rendering of the class \<open>QueryDetail\<close> of \<open>webapp/src/components/QueryDetail.jsx\<close>.  The path of the page, the clock, the
  local calendar and the class \<open>URL\<close> of the browser are arguments, and so are the states of the rows of the stages.
\<close>

datatype qd_click = QD_Header header_event | QD_StageRefresh | QD_Stage stage_event

section \<open>Stages\<close>

definition renderStageRefreshButton :: "qd_state \<Rightarrow> qd_click vnode" where
  "renderStageRefreshButton s =
     (if qd_stageRefresh s
      then El ''button'' [cls ''btn btn-info live-button'', AOn ''onClick'' QD_StageRefresh] [Text ''Auto-Refresh: On'']
      else El ''button'' [cls ''btn btn-info live-button'', AOn ''onClick'' QD_StageRefresh] [Text ''Auto-Refresh: Off''])"

text \<open>The field \<open>lastSnapshotStage\<close> is never \<open>null\<close>: it is missing or a stage, so the section is always there.\<close>

definition renderStages ::
  "(string \<Rightarrow> exn + url_parts) \<Rightarrow> int \<Rightarrow> (string \<Rightarrow> ssum_state) \<Rightarrow> query_info \<Rightarrow> qd_state \<Rightarrow> exn + qd_click vnode" where
  "renderStages URL now summaries query s =
     res_map (\<lambda>stageList.
       El ''div'' []
         [divC ''row''
           [divC ''col-xs-9'' [El ''h3'' [] [Text ''Stages'']],
            divC ''col-xs-3'' [El ''table'' [cls ''header-inline-links''] [El ''tbody'' [] [El ''tr'' []
              [El ''td'' [] [renderStageRefreshButton s]]]]]],
          divC ''row'' [divC ''col-xs-12'' [Keyed (q_queryId query) (map_vnode QD_Stage stageList)]]])
       (StageList_render URL now summaries (qd_lastSnapshotStage s))"

section \<open>Session\<close>

definition property_span :: "string \<Rightarrow> 'e vnode" where
  "property_span text = El ''span'' [] [Text ''- '', Text text, Text '' '', El ''br'' [] []]"

text \<open>The properties of an object are visited in the order of its keys.\<close>

definition object_entries :: "(string \<times> 'v) list \<Rightarrow> (string \<times> 'v) list" where
  "object_entries m = map (\<lambda>k. (k, the (map_of m k))) (object_keys m)"

definition renderSessionProperties :: "query_info \<Rightarrow> 'e vnode list" where
  "renderSessionProperties query =
     map (\<lambda>(property, value). property_span (property @ ''='' @ value)) (object_entries (qi_systemProperties query))
     @ concat (map (\<lambda>(catalog, properties).
         map (\<lambda>(property, value). property_span (catalog @ ''.'' @ property @ ''='' @ value)) (object_entries properties))
         (object_entries (qi_catalogProperties query)))"

text \<open>\<open>replace\<close> with the expression of one letter replaces its first occurrence.\<close>

fun replace_first :: "char \<Rightarrow> string \<Rightarrow> string \<Rightarrow> string" where
  "replace_first c r [] = []"
| "replace_first c r (x # xs) = (if x = c then r @ xs else x # replace_first c r xs)"

definition snake_cased :: "string \<Rightarrow> string" where
  "snake_cased resource =
     foldl (\<lambda>snakeCased upper. replace_first upper (CHR ''_'' # toLowerCase [upper]) snakeCased) resource (filter is_upper resource)"

definition renderResourceEstimates :: "query_info \<Rightarrow> 'e vnode list" where
  "renderResourceEstimates query =
     map (\<lambda>(resource, estimate). property_span (snake_cased resource @ ''='' @ estimate)) (object_entries (qi_resourceEstimates query))"

definition info_cell :: "string \<Rightarrow> 'e vnode list \<Rightarrow> 'e vnode" where
  "info_cell title kids = El ''tr'' [] [El ''td'' [cls ''info-title''] [Text title], El ''td'' [cls ''info-text''] kids]"

definition qd_copy :: "string list \<Rightarrow> string \<Rightarrow> string \<Rightarrow> 'e vnode" where
  "qd_copy href classes target =
     El ''a'' (map (AStr ''href'') href @
         [cls classes, AStr ''data-clipboard-target'' target, AStr ''data-toggle'' ''tooltip'',
          AStr ''data-placement'' ''right'', AStr ''title'' ''Copy to clipboard''])
       [El ''span'' [cls ''glyphicon glyphicon-copy'', AStr ''aria-hidden'' ''true'', AStr ''alt'' ''Copy to clipboard''] []]"

definition info_table :: "string \<Rightarrow> 'e vnode list \<Rightarrow> 'e vnode" where
  "info_table title rows =
     divC ''col-xs-6'' [El ''h3'' [] [Text title], El ''hr'' [cls ''h3-hr''] [], El ''table'' [cls ''table''] [El ''tbody'' [] rows]]"

definition session_table :: "query_info \<Rightarrow> 'e vnode" where
  "session_table query =
     (let session = q_session query in
      info_table ''Session''
        [info_row ''User''
           [id_span ''query-user'' (s_user session), Text (nbsp @ nbsp), qd_copy [''#''] ''copy-button'' ''#query-user''],
         info_row ''Principal'' [opt_child (s_principal session)],
         info_row ''Source'' [opt_child (s_source session)],
         info_cell ''Catalog'' [opt_child (qi_catalog query)],
         info_cell ''Schema'' [opt_child (qi_schema query)],
         info_cell ''Client Address'' [opt_child (qi_remoteUserAddress query)],
         info_cell ''Client Tags'' [Text (js_join '', '' (qi_clientTags query))],
         info_row ''Session Properties'' (renderSessionProperties query),
         info_row ''Resource Estimates'' (renderResourceEstimates query)])"

section \<open>Execution and resources\<close>

definition execution_table :: "(jsnum \<Rightarrow> js_date) \<Rightarrow> query_info \<Rightarrow> 'e vnode" where
  "execution_table local_date query =
     (let stats = q_queryStats query in
      info_table ''Execution''
        [info_row ''Resource Group''
           [Text (case q_resourceGroupId query of None \<Rightarrow> ''n/a'' | Some path \<Rightarrow> js_join ''.'' path)],
         info_cell ''Submission Time'' [Text (formatShortDateTime (local_date (Date_parse (qs_createTime stats))))],
         info_cell ''Completion Time''
           [Text (case qi_endTime query of None \<Rightarrow> [] | Some endTime \<Rightarrow>
              if endTime = [] then [] else formatShortDateTime (local_date (Date_parse endTime)))],
         info_cell ''Elapsed Time'' [Text (qs_elapsedTime stats)],
         info_cell ''Queued Time'' [Text (qi_queuedTime query)],
         info_cell ''Planning Time'' [Text (qi_totalPlanningTime query)],
         info_cell ''Execution Time'' [Text (qs_executionTime stats)]])"

definition spilled_row :: "query_info \<Rightarrow> 'e vnode" where
  "spilled_row query =
     (if js_gt (to_number (parseDataSize (qi_spilledDataSize query))) (Fin 0)
      then info_cell ''Spilled Data'' [Text (qi_spilledDataSize query)] else Nothing)"

definition utilization_table :: "query_info \<Rightarrow> 'e vnode" where
  "utilization_table query =
     (let stats = q_queryStats query in
      info_table ''Resource Utilization Summary''
        [info_cell ''CPU Time'' [Text (qs_totalCpuTime stats)],
         info_cell ''Scheduled Time'' [Text (qi_totalScheduledTime query)],
         info_cell ''Blocked Time'' [Text (qi_totalBlockedTime query)],
         info_cell ''Input Rows'' [Text (formatCount (qi_processedInputPositions query))],
         info_cell ''Input Data'' [Text (qi_processedInputDataSize query)],
         info_cell ''Raw Input Rows'' [Text (formatCount (qi_rawInputPositions query))],
         info_cell ''Raw Input Data'' [Text (qi_rawInputDataSize query)],
         info_cell ''Peak User Memory'' [Text (qs_peakUserMemoryReservation stats)],
         info_cell ''Peak Total Memory'' [Text (qi_peakTotalMemoryReservation query)],
         info_cell ''Memory Pool'' [Text (q_memoryPool query)],
         info_cell ''Cumulative User Memory''
           [Text (formatDataSizeBytes (js_div (qs_cumulativeUserMemory stats) (Fin 1000)) @ '' seconds'')],
         info_cell ''Output Rows'' [Text (formatCount (qi_outputPositions query))],
         info_cell ''Output Data'' [Text (qi_outputDataSize query)],
         info_cell ''Written Output Rows'' [Text (formatCount (qi_writtenOutputPositions query))],
         info_cell ''Written Output Logical Data Size'' [Text (qi_writtenOutputLogicalDataSize query)],
         info_cell ''Written Output Physical Data Size'' [Text (qi_writtenOutputPhysicalDataSize query)],
         spilled_row query])"

definition timeline_table :: "qd_state \<Rightarrow> 'e vnode" where
  "timeline_table s =
     info_table ''Timeline''
       (sparkline_rows ''Parallelism'' ''cpu-time-rate-sparkline'' [formatted_stat formatCount (qd_cpuTimeRate s)] @
        sparkline_rows ''Scheduled Time/s'' ''scheduled-time-rate-sparkline''
          [formatted_stat formatCount (qd_scheduledTimeRate s)] @
        sparkline_rows ''Input Rows/s'' ''row-input-rate-sparkline'' [formatted_stat formatCount (qd_rowInputRate s)] @
        sparkline_rows ''Input Bytes/s'' ''byte-input-rate-sparkline'' [formatted_stat formatDataSize (qd_byteInputRate s)] @
        sparkline_rows ''Memory Utilization'' ''reserved-memory-sparkline''
          [formatted_stat formatDataSize (qd_reservedMemory s)])"

section \<open>Warnings, errors and the text\<close>

definition renderWarningInfo :: "query_info \<Rightarrow> 'e vnode" where
  "renderWarningInfo query =
     (if length (q_warnings query) > 0 then
        divC ''row'' [divC ''col-xs-12''
          [El ''h3'' [] [Text ''Warnings''], El ''hr'' [cls ''h3-hr''] [],
           El ''table'' [cls ''table'', AStr ''id'' ''warnings-table'']
             (map (\<lambda>warning. El ''tr'' [] [El ''td'' [] [Text (w_codeName warning)], El ''td'' [] [Text (w_message warning)]])
               (q_warnings query))]]
      else Nothing)"

definition renderFailureInfo :: "query_info \<Rightarrow> exn + 'e vnode" where
  "renderFailureInfo query =
     (case qi_failureInfo query of
        None \<Rightarrow> Inr (Text [])
      | Some failureInfo \<Rightarrow>
          res_bind (res_of_option TypeError (q_errorCode query)) (\<lambda>errorCode.
          res_map (\<lambda>trace.
            divC ''row'' [divC ''col-xs-12''
              [El ''h3'' [] [Text ''Error Information''], El ''hr'' [cls ''h3-hr''] [],
               El ''table'' [cls ''table''] [El ''tbody'' []
                 [info_cell ''Error Type'' [opt_child (q_errorType query)],
                  info_cell ''Error Code'' [Text (ec_name errorCode @ '' ('' @ num_str (Fin (of_int (ec_code errorCode))) @ '')'')],
                  El ''tr'' []
                    [El ''td'' [cls ''info-title''] [Text ''Stack Trace'', qd_copy [] ''btn copy-button'' ''#stack-trace''],
                     El ''td'' [cls ''info-text''] [El ''pre'' [AStr ''id'' ''stack-trace''] [Text trace]]]]]]])
            (formatStackTrace failureInfo)))"

definition query_text :: "query_info \<Rightarrow> 'e vnode" where
  "query_text query =
     divC ''row'' [divC ''col-xs-12''
       [El ''h3'' [] [Text ''Query'', qd_copy [] ''btn copy-button'' ''#query-text''],
        El ''pre'' [AStr ''id'' ''query''] [El ''code'' [cls ''lang-sql'', AStr ''id'' ''query-text''] [Text (q_query query)]]]]"

section \<open>The page\<close>

definition QueryDetail_render ::
  "(string \<Rightarrow> exn + url_parts) \<Rightarrow> (jsnum \<Rightarrow> js_date) \<Rightarrow> string \<Rightarrow> int \<Rightarrow> (string \<Rightarrow> ssum_state) \<Rightarrow> qd_state
   \<Rightarrow> exn + qd_click vnode" where
  "QueryDetail_render URL local_date pathname now summaries s =
     (case qd_query s of
        None \<Rightarrow> Inr (divC ''row error-message'' [divC ''col-xs-12'' [El ''h4'' [] [loading_label (qd_initialized s)]]])
      | Some query \<Rightarrow>
          if \<not> qd_initialized s
          then Inr (divC ''row error-message'' [divC ''col-xs-12'' [El ''h4'' [] [loading_label (qd_initialized s)]]])
          else
            res_bind (QueryHeader_render pathname query) (\<lambda>header.
            res_bind (renderFailureInfo query) (\<lambda>failure.
            res_map (\<lambda>stages.
              El ''div'' []
                [map_vnode QD_Header header,
                 divC ''row'' [session_table query, execution_table local_date query],
                 divC ''row'' [divC ''col-xs-12'' [divC ''row'' [utilization_table query, timeline_table s]]],
                 renderWarningInfo query, failure, query_text query, stages])
              (renderStages URL now summaries query s))))"

end
