(* ===== verification/QueryDetailProofs.thy ===== *)
theory QueryDetailProofs
  imports QueryDetailView "HOL-Library.Sublist"
begin

text \<open>
  Properties of the page of one query: its stack traces, its snapshot of the stages, its polling and its rendering.
\<close>

section \<open>Stack traces\<close>

text \<open>The frames a stack shares with its parent are their longest common suffix.\<close>

lemma count_shared_lcp:
  assumes "n \<le> length stack" and "n \<le> length parent"
  shows "count_shared stack parent n = n + length (longest_common_prefix (drop n (rev stack)) (drop n (rev parent)))"
  using assms
proof (induction stack parent n rule: count_shared.induct)
  case (1 stack parent n)
  show ?case
  proof (cases "n < min (length stack) (length parent)")
    case True
    then have "drop n (rev stack) = stack ! (length stack - 1 - n) # drop (Suc n) (rev stack)"
      and "drop n (rev parent) = parent ! (length parent - 1 - n) # drop (Suc n) (rev parent)"
      by (simp_all add: Cons_nth_drop_Suc [symmetric] rev_nth)
    then show ?thesis using 1 True by (subst count_shared.simps) simp
  next
    case False
    then have "drop n (rev stack) = [] \<or> drop n (rev parent) = []" using "1.prems" by auto
    then have "longest_common_prefix (drop n (rev stack)) (drop n (rev parent)) = []"
      by (metis longest_common_prefix.simps(2,3))
    moreover have "count_shared stack parent n = n" using False by (subst count_shared.simps) auto
    ultimately show ?thesis by simp
  qed
qed

lemma countSharedStackFrames_lcp:
  "countSharedStackFrames stack parent = length (longest_common_prefix (rev stack) (rev parent))"
  by (simp add: countSharedStackFrames_def count_shared_lcp)

lemma shared_frames_suffix:
  fixes stack parent :: "string list"
  defines "n \<equiv> countSharedStackFrames stack parent"
  shows "n \<le> length stack" and "n \<le> length parent" and "drop (length stack - n) stack = drop (length parent - n) parent"
proof -
  let ?l = "longest_common_prefix (rev stack) (rev parent)"
  have n: "n = length ?l" by (simp add: n_def countSharedStackFrames_lcp)
  have p: "prefix ?l (rev stack)" "prefix ?l (rev parent)"
    by (rule longest_common_prefix_prefix1, rule longest_common_prefix_prefix2)
  show le: "n \<le> length stack" "n \<le> length parent" using p [THEN prefix_length_le] n by simp_all
  have "take n (rev xs) = ?l" if "prefix ?l (rev xs)" for xs using that n by (auto simp: prefix_def)
  then have "take n (rev stack) = take n (rev parent)" using p by simp
  then show "drop (length stack - n) stack = drop (length parent - n) parent" using le by (simp add: take_rev)
qed

text \<open>The failures of a report: the failure itself, those it suppressed and its causes.\<close>

fun failures :: "failure_info \<Rightarrow> failure_info list"
  and failures_list :: "failure_info list \<Rightarrow> failure_info list"
  and failures_option :: "failure_info option \<Rightarrow> failure_info list" where
  "failures (FailureInfo ty message stack suppressed cause) =
     FailureInfo ty message stack suppressed cause # failures_list suppressed @ failures_option cause"
| "failures_list [] = []"
| "failures_list (f # fs) = failures f @ failures_list fs"
| "failures_option None = []"
| "failures_option (Some f) = failures f"

definition stacks_known :: "failure_info list \<Rightarrow> bool" where
  "stacks_known fs \<longleftrightarrow> (\<forall>f \<in> set fs. \<exists>stack. fi_stack f = Value stack)"

text \<open>What a text prints of a failure; a frame may be left out that the parent prints.\<close>

definition prints :: "string list \<Rightarrow> string \<Rightarrow> failure_info \<Rightarrow> bool" where
  "prints parent s f \<longleftrightarrow>
     sublist (failureInfoToString f @ newline) s \<and>
     (\<forall>stack. fi_stack f = Value stack \<longrightarrow>
        (\<forall>frame \<in> set stack. frame \<in> set parent \<or> sublist (tab @ ''at '' @ frame @ newline) s))"

lemma prints_append: "prints p s f \<Longrightarrow> prints p (a @ s @ b) f"
  unfolding prints_def by (meson sublist_appendI sublist_order.order_trans)

lemma prints_parent:
  assumes "prints stack s f" and "\<forall>frame \<in> set stack. frame \<in> set parent \<or> sublist (tab @ ''at '' @ frame @ newline) s"
  shows "prints parent s f"
  using assms unfolding prints_def by blast

lemma stack_lines_print:
  assumes "frame \<in> set stack"
  shows "frame \<in> set parent \<or> sublist (tab @ ''at '' @ frame @ newline) (stack_lines pre stack (countSharedStackFrames stack parent))"
proof (cases "frame \<in> set (take (length stack - countSharedStackFrames stack parent) stack)")
  case True
  then obtain xs ys where "take (length stack - countSharedStackFrames stack parent) stack = xs @ frame # ys"
    by (auto simp: in_set_conv_decomp)
  moreover define line where "line = (\<lambda>frame. pre @ tab @ ''at '' @ frame @ newline)"
  moreover define rest where "rest = (if countSharedStackFrames stack parent \<noteq> 0
    then pre @ tab @ ''... '' @ nat_str (countSharedStackFrames stack parent) @ '' more'' @ newline else [])"
  ultimately have "sublist (tab @ ''at '' @ frame @ newline) (stack_lines pre stack (countSharedStackFrames stack parent))"
    using sublist_appendI [of "tab @ ''at '' @ frame @ newline" "concat (map line xs) @ pre" "concat (map line ys) @ rest"]
    by (simp add: stack_lines_def line_def rest_def)
  then show ?thesis ..
next
  case False
  let ?n = "countSharedStackFrames stack parent"
  have "set stack = set (take (length stack - ?n) stack) \<union> set (drop (length stack - ?n) stack)"
    by (metis append_take_drop_id set_append)
  then have "frame \<in> set (drop (length parent - ?n) parent)"
    using assms False shared_frames_suffix(3) [of stack parent] by auto
  then show ?thesis by (auto dest: in_set_dropD)
qed

lemma trace_prints:
  "stacks_known (failures f) \<Longrightarrow>
     \<exists>s. formatStackTraceHelper f (Value parent) pre line = Inr s \<and> (\<forall>g \<in> set (failures f). prints parent s g)"
  "stacks_known (failures_list fs) \<Longrightarrow>
     \<exists>s. format_suppressed fs (Value parent) line = Inr s \<and> (\<forall>g \<in> set (failures_list fs). prints parent s g)"
  "stacks_known (failures_option c) \<Longrightarrow>
     \<exists>s. format_cause c (Value parent) line = Inr s \<and> (\<forall>g \<in> set (failures_option c). prints parent s g)"
proof (induction f and fs and c arbitrary: parent pre line and parent line and parent line
    rule: failures_failures_list_failures_option.induct)
  case (1 ty message st suppressed cause)
  let ?f = "FailureInfo ty message st suppressed cause"
  obtain stack where st: "st = Value stack" using "1.prems" by (auto simp: stacks_known_def)
  define lines where "lines = stack_lines line stack (countSharedStackFrames stack parent)"
  obtain nested where nested: "format_suppressed suppressed st (line @ tab) = Inr nested"
      "\<forall>g \<in> set (failures_list suppressed). prints stack nested g"
    using "1.IH"(1) [of stack "line @ tab"] "1.prems" st by (auto simp: stacks_known_def)
  obtain causes where causes: "format_cause cause st line = Inr causes"
      "\<forall>g \<in> set (failures_option cause). prints stack causes g"
    using "1.IH"(2) [of stack line] "1.prems" st by (auto simp: stacks_known_def)
  define s where "s = line @ pre @ failureInfoToString ?f @ newline @ lines @ nested @ causes"
  have s: "formatStackTraceHelper ?f (Value parent) pre line = Inr s"
    using nested(1) causes(1) by (simp add: st shared_frames_def s_def lines_def)
  have "sublist lines s" unfolding s_def sublist_def by (metis append.assoc)
  then have frames: "\<forall>frame \<in> set stack. frame \<in> set parent \<or> sublist (tab @ ''at '' @ frame @ newline) s"
    using stack_lines_print [of _ stack parent line] unfolding lines_def by (meson sublist_order.order_trans)
  have "sublist (failureInfoToString ?f @ newline) s" unfolding s_def sublist_def by (metis append.assoc)
  then have "prints parent s ?f" using frames st by (auto simp: prints_def)
  moreover have "prints parent s g" if "g \<in> set (failures_list suppressed)" for g
    using prints_parent [OF prints_append [of stack nested g "line @ pre @ failureInfoToString ?f @ newline @ lines" causes]]
      nested(2) that frames by (simp add: s_def)
  moreover have "prints parent s g" if "g \<in> set (failures_option cause)" for g
    using prints_parent [OF prints_append [of stack causes g "line @ pre @ failureInfoToString ?f @ newline @ lines @ nested" "[]"]]
      causes(2) that frames by (simp add: s_def)
  ultimately show ?case using s by auto
next
  case (3 f fs)
  obtain s where s: "formatStackTraceHelper f (Value parent) ''Suppressed: '' line = Inr s" "\<forall>g \<in> set (failures f). prints parent s g"
    using "3.IH"(1) [of parent "''Suppressed: ''" line] "3.prems" by (auto simp: stacks_known_def)
  obtain r where r: "format_suppressed fs (Value parent) line = Inr r" "\<forall>g \<in> set (failures_list fs). prints parent r g"
    using "3.IH"(2) [of parent line] "3.prems" by (auto simp: stacks_known_def)
  have "prints parent (s @ r) g" if "g \<in> set (failures_list (f # fs))" for g
    using that s(2) r(2) prints_append [of parent s g "[]" r] prints_append [of parent r g s "[]"] by auto
  then show ?case using s(1) r(1) by auto
qed auto

text \<open>
  C11: the stack trace of a failed query leaves nothing out: if every failure of the report has a stack, then the trace is
  produced, it names every failure with its message, suppressed failures and causes included, and it prints every frame
  of every stack, although the frames a stack shares with its parent are only counted.
\<close>

theorem stack_trace_complete:
  assumes "stacks_known (failures info)"
  shows "\<exists>s. formatStackTrace info = Inr s \<and>
    (\<forall>f \<in> set (failures info). sublist (failureInfoToString f @ newline) s \<and>
       (\<forall>stack. fi_stack f = Value stack \<longrightarrow> (\<forall>frame \<in> set stack. sublist (tab @ ''at '' @ frame @ newline) s)))"
  using trace_prints(1) [OF assms, of "[]" "[]" "[]"] by (auto simp: formatStackTrace_def prints_def)

definition example_failure :: failure_info where
  "example_failure = FailureInfo ''RuntimeException'' (Value ''no'') (Value [''a.run'', ''Main.main''])
     [] (Some (FailureInfo ''IOException'' Null (Value [''io.read'', ''Main.main'']) [] None))"

theorem stack_trace_complete_witness:
  "\<exists>s. formatStackTrace example_failure = Inr s \<and> sublist (tab @ ''at io.read'' @ newline) s"
  using stack_trace_complete [of example_failure] by (auto simp: example_failure_def stacks_known_def)


section \<open>Snake case\<close>

text \<open>Replacing the first occurrence of each capital in turn replaces every capital by an underscore and its small letter.\<close>

definition snake_char :: "char \<Rightarrow> string" where
  "snake_char c = (if is_upper c then [CHR ''_'', char_lower c] else [c])"

lemma replace_first_append: "c \<notin> set pre \<Longrightarrow> replace_first c r (pre @ c # xs) = pre @ r @ xs"
  by (induction pre) auto

lemma snake_char_no_upper: "\<forall>d \<in> set (snake_char c). \<not> is_upper d"
  by (auto simp: snake_char_def is_upper_def char_lower_def code_unit_def Let_def)

lemma snake_cased_char: "snake_cased resource = concat (map snake_char resource)"
proof -
  have "\<forall>d \<in> set pre. \<not> is_upper d \<Longrightarrow>
      foldl (\<lambda>s u. replace_first u (CHR ''_'' # toLowerCase [u]) s) (pre @ xs) (filter is_upper xs) = pre @ concat (map snake_char xs)"
    for pre xs
  proof (induction xs arbitrary: pre)
    case (Cons x xs)
    have p: "\<forall>d \<in> set (pre @ snake_char x). \<not> is_upper d" using Cons.prems snake_char_no_upper [of x] by auto
    show ?case
    proof (cases "is_upper x")
      case True
      then have "x \<notin> set pre" using Cons.prems by auto
      then have "replace_first x (CHR ''_'' # toLowerCase [x]) (pre @ x # xs) = (pre @ snake_char x) @ xs"
        using True by (simp add: replace_first_append snake_char_def toLowerCase_def)
      then show ?thesis using True Cons.IH [OF p] by simp
    next
      case False
      then show ?thesis using Cons.IH [OF p] by (simp add: snake_char_def)
    qed
  qed simp
  from this [of "[]" resource] show ?thesis by (simp add: snake_cased_def)
qed

section \<open>Polling\<close>

interpretation qd: live_poller qd_timeout qd_requests "\<lambda>s. qd_query s = None \<or> \<not> qd_ended s" qd_refreshLoop qd_answers qd_handle
  "\<lambda>s. s = qd_init"
proof unfold_locales
  fix e s
  assume "qd_answers e"
  then have "qd_requests (qd_handle e s) = qd_requests s - 1"
    and "qd_timeout (qd_handle e s) \<longleftrightarrow> qd_query (qd_handle e s) = None \<or> \<not> qd_ended (qd_handle e s)"
    by (cases e; simp add: qd_success_def qd_error_def qd_resetTimer_def qd_receive_def qd_rates_def Let_def; fail)+
  then show "qd_requests (qd_handle e s) = qd_requests s - 1"
    and "qd_query (qd_handle e s) = None \<or> \<not> qd_ended (qd_handle e s) \<Longrightarrow> qd_timeout (qd_handle e s)" by blast+
next
  fix e s
  assume "\<not> qd_answers e"
  then have "qd_requests (qd_handle e s) = qd_requests s \<and> qd_timeout (qd_handle e s) = qd_timeout s
     \<and> qd_query (qd_handle e s) = qd_query s \<and> qd_ended (qd_handle e s) = qd_ended s"
    by (cases e) (auto simp: handleStageRefreshClick_def qd_componentDidUpdate_def res_of_option_def split: option.splits)
  then show "qd_requests (qd_handle e s) = qd_requests s" and "qd_timeout (qd_handle e s) = qd_timeout s"
    and "qd_query (qd_handle e s) = None \<or> \<not> qd_ended (qd_handle e s) \<Longrightarrow> qd_query s = None \<or> \<not> qd_ended s"
    by simp_all
qed (simp_all add: qd_refreshLoop_def qd_init_def)


section \<open>The snapshot of the stages\<close>

fun qd_act :: "qd_event action \<Rightarrow> qd_state \<Rightarrow> qd_state" where
  "qd_act Timer s = qd_refreshLoop s"
| "qd_act (Event e) s = qd_handle e s"

definition qd_run :: "qd_event action list \<Rightarrow> qd_state" where
  "qd_run acts = fold qd_act acts qd_init"

text \<open>
  What the page promises: an answer replaces the query it shows, and the stages as well while they are refreshed
  automatically; a click stops or resumes that, once there is a query.
\<close>

record snapshot =
  sn_query :: "query_info option"
  sn_live :: bool
  sn_stages :: "stage_info option"

fun snapshot_step :: "qd_event action \<Rightarrow> snapshot \<Rightarrow> snapshot" where
  "snapshot_step (Event (QD_Query q now)) v = v\<lparr>sn_query := Some q, sn_stages := (if sn_live v then qi_outputStage q else sn_stages v)\<rparr>"
| "snapshot_step (Event QD_StageRefreshClick) v = (if sn_query v = None \<and> sn_live v then v else v\<lparr>sn_live := \<not> sn_live v\<rparr>)"
| "snapshot_step a v = v"

definition snapshot_of :: "qd_state \<Rightarrow> snapshot" where
  "snapshot_of s = \<lparr>sn_query = qd_query s, sn_live = qd_stageRefresh s, sn_stages = qd_lastSnapshotStage s\<rparr>"

lemma snapshot_of_act: "snapshot_of (qd_act a s) = snapshot_step a (snapshot_of s)"
proof (cases a)
  case Timer
  then show ?thesis by (simp add: snapshot_of_def qd_refreshLoop_def)
next
  case (Event e)
  then show ?thesis
    by (cases e) (auto simp: snapshot_of_def qd_success_def qd_error_def qd_resetTimer_def qd_receive_def qd_rates_def Let_def
        handleStageRefreshClick_def qd_componentDidUpdate_def res_of_option_def split: option.splits)
qed

lemma snapshot_of_run: "snapshot_of (fold qd_act acts s) = fold snapshot_step acts (snapshot_of s)"
  by (induction acts arbitrary: s) (simp_all add: snapshot_of_act)

definition snapshot_init :: snapshot where
  "snapshot_init = \<lparr>sn_query = None, sn_live = True, sn_stages = None\<rparr>"

lemma frozen_snapshot:
  "\<not> sn_live v \<Longrightarrow> Event QD_StageRefreshClick \<notin> set acts \<Longrightarrow>
     sn_stages (fold snapshot_step acts v) = sn_stages v \<and> \<not> sn_live (fold snapshot_step acts v)"
proof (induction acts arbitrary: v)
  case (Cons a acts)
  then show ?case by (cases "(a, v)" rule: snapshot_step.cases) auto
qed simp

text \<open>
  C4: after any sequence of answers, failures, redraws, timer events and clicks, the page shows what the snapshot promises:
  the abstract machine and the page agree step by step.  In particular stages frozen by a click stay as they were,
  whatever answers come, until the next click; then the next answer replaces them.
\<close>

theorem stage_snapshot_refinement:
  assumes "sn_query (snapshot_of (qd_run before)) \<noteq> None" and "sn_live (snapshot_of (qd_run before))"
    and "Event QD_StageRefreshClick \<notin> set later"
  defines "click \<equiv> Event QD_StageRefreshClick"
  shows "snapshot_of (qd_run acts) = fold snapshot_step acts snapshot_init
    \<and> qd_lastSnapshotStage (qd_run (before @ [click] @ later)) = qd_lastSnapshotStage (qd_run before)
    \<and> qd_lastSnapshotStage (qd_run (before @ [click] @ later @ [click, Event (QD_Query q now)])) = qi_outputStage q"
proof -
  have run: "snapshot_of (qd_run acts) = fold snapshot_step acts snapshot_init" for acts
  proof -
    have "snapshot_of qd_init = snapshot_init" by (simp add: snapshot_of_def qd_init_def snapshot_init_def)
    then show ?thesis by (simp add: qd_run_def snapshot_of_run)
  qed
  have stages: "qd_lastSnapshotStage (qd_run acts) = sn_stages (snapshot_of (qd_run acts))" for acts
    by (simp add: snapshot_of_def)
  define v where "v = snapshot_step click (fold snapshot_step before snapshot_init)"
  have v: "\<not> sn_live v" "sn_stages v = sn_stages (fold snapshot_step before snapshot_init)"
    using assms(1,2) by (simp_all add: v_def click_def run)
  define w where "w = fold snapshot_step later v"
  have w: "\<not> sn_live w" "sn_stages w = sn_stages v" using frozen_snapshot [OF v(1) assms(3)] by (simp_all add: w_def)
  have "fold snapshot_step (before @ [click] @ later) snapshot_init = w" by (simp add: w_def v_def)
  moreover have "fold snapshot_step (before @ [click] @ later @ [click, Event (QD_Query q now)]) snapshot_init =
      snapshot_step (Event (QD_Query q now)) (snapshot_step click w)" by (simp add: w_def v_def)
  moreover have "sn_stages (snapshot_step (Event (QD_Query q now)) (snapshot_step click w)) = qi_outputStage q"
    using w(1) by (simp add: click_def)
  ultimately show ?thesis using w(2) v(2) by (simp only: stages run simp_thms)
qed

theorem stage_snapshot_refinement_witness:
  "qd_lastSnapshotStage (qd_run ([Timer, Event (QD_Query example_info 5)] @ [Event QD_StageRefreshClick]
     @ [Timer, Event (QD_Query (example_info\<lparr>qi_outputStage := None\<rparr>) 9)])) = Some example_stage"
proof -
  have "snapshot_of (qd_run [Timer, Event (QD_Query example_info 5)]) =
      \<lparr>sn_query = Some example_info, sn_live = True, sn_stages = Some example_stage\<rparr>"
    using snapshot_of_run [of "[Timer, Event (QD_Query example_info 5)]" qd_init]
    by (simp add: qd_run_def snapshot_of_def qd_init_def example_info_def query.defs query_info.defs)
  then show ?thesis
    using stage_snapshot_refinement [of "[Timer, Event (QD_Query example_info 5)]"
        "[Timer, Event (QD_Query (example_info\<lparr>qi_outputStage := None\<rparr>) 9)]" "[]" example_info 0]
    by (simp add: snapshot_of_def)
qed


section \<open>The page\<close>

definition hosts_known :: "(string \<Rightarrow> exn + url_parts) \<Rightarrow> task_info list \<Rightarrow> bool" where
  "hosts_known URL tasks \<longleftrightarrow> (\<forall>task \<in> set tasks. \<exists>parts. URL (tk_self task) = Inr parts)"

lemma show_ports_ok: "hosts_known URL tasks \<Longrightarrow> \<exists>b. show_ports URL tasks m = Inr b"
proof (induction tasks arbitrary: m)
  case (Cons task tasks)
  then obtain parts where "URL (tk_self task) = Inr parts" by (auto simp: hosts_known_def)
  moreover have "hosts_known URL tasks" using Cons.prems by (simp add: hosts_known_def)
  ultimately show ?case using Cons.IH by (simp add: getHostname_def getPort_def) blast
qed auto

lemma handlers_td [simp]:
  "handlers (td_num c v t) = []" "handlers (td_time c w) = []" "handlers (th_glyph c n t) = []" "handlers (th_text c t) = []"
  by (simp_all add: td_num_def td_time_def td_def th_glyph_def th_text_def GLYPHICON_HIGHLIGHT_def tooltip_def split: option.splits)

lemma handlers_task_parts [simp]:
  "concat (map handlers (task_names name host task)) = []"
  "concat (map handlers (task_numbers now task)) = []"
  "handlers task_head = []"
  by (simp_all add: task_names_def task_numbers_def task_head_def td_def Let_def)

lemma render_task_ok:
  assumes "hosts_known URL tasks" and "task \<in> set tasks"
  shows "\<exists>v :: 'e vnode. render_task URL now showPorts task = Inr v \<and> handlers v = []"
proof -
  obtain parts where "URL (tk_self task) = Inr parts" using assms by (auto simp: hosts_known_def)
  then show ?thesis
    by (auto simp: render_task_def getHostname_def getHostAndPort_def simp del: concat_eq_Nil_conv)
qed

lemma TaskList_render_ok:
  assumes "hosts_known URL tasks"
  shows "\<exists>v :: 'e vnode. TaskList_render URL now tasks = Inr v \<and> handlers v = []"
proof (cases "tasks = []")
  case False
  obtain b where b: "showPortNumbers URL tasks = Inr b" using show_ports_ok [OF assms] by (auto simp: showPortNumbers_def)
  obtain vs :: "'e vnode list" where vs: "res_mapM (render_task URL now b) tasks = Inr vs" "list_all2 (\<lambda>task v. handlers v = []) tasks vs"
    using res_mapM_ex [of tasks "render_task URL now b" "\<lambda>task v. handlers v = []"] render_task_ok [OF assms] by blast
  have "\<forall>v \<in> set vs. handlers v = []" using vs(2) by (auto simp: list_all2_conv_all_nth in_set_conv_nth)
  then show ?thesis using False b vs(1) by (simp add: TaskList_render_def)
qed (simp add: TaskList_render_def)

lemma renderTaskList_ok:
  assumes "hosts_known URL tasks"
  shows "\<exists>v :: 'e vnode. renderTaskList URL now s tasks = Inr v \<and> handlers v = []"
proof -
  have "hosts_known URL (filter p (if b then tasks else []))" for p b using assms by (auto simp: hosts_known_def)
  from TaskList_render_ok [OF this] obtain v :: "'e vnode" where
    "TaskList_render URL now (filter (\<lambda>task. TASK_FILTER_predicate (ssum_taskFilter s) (tk_state task))
       (if ssum_expanded s then tasks else [])) = Inr v" "handlers v = []" by blast
  then show ?thesis by (simp add: renderTaskList_def getExpandedStyle_def)
qed

lemma attempts_ok:
  assumes "\<forall>attempt \<in> set attempts. hosts_known URL (se_tasks attempt)"
  shows "\<exists>vs :: 'e vnode list. renderStageExecutionAttemptsTasks URL now s attempts = Inr vs \<and> concat (map handlers vs) = []"
proof -
  obtain vs :: "'e vnode list" where "res_mapM (\<lambda>attempt. renderTaskList URL now s (se_tasks attempt)) attempts = Inr vs"
      "list_all2 (\<lambda>attempt v. handlers v = []) attempts vs"
    using res_mapM_ex [of attempts "\<lambda>attempt. renderTaskList URL now s (se_tasks attempt)" "\<lambda>attempt v. handlers v = []"]
      renderTaskList_ok assms by blast
  then show ?thesis by (auto simp: renderStageExecutionAttemptsTasks_def list_all2_conv_all_nth in_set_conv_nth)
qed

definition stage_hosts_known :: "(string \<Rightarrow> exn + url_parts) \<Rightarrow> stage_info \<Rightarrow> bool" where
  "stage_hosts_known URL stage \<longleftrightarrow> (\<forall>attempt \<in> set (stg_latest stage # stg_previous stage). hosts_known URL (se_tasks attempt))"

definition stage_actions :: "stage_info \<Rightarrow> ssum_event list" where
  "stage_actions stage =
     (if stg_plan stage = None then [] else SSum_Toggle # map SSum_Filter [TF_ALL, TF_PLANNED, TF_RUNNING, TF_FINISHED, TF_FAILED])"

lemma handlers_stage_parts [simp]:
  "handlers (expanded_chart s t c) = []"
  "handlers (stage_stat_tables s stage) = [SSum_Toggle]"
  "handlers (renderTaskFilter s) = map SSum_Filter [TF_ALL, TF_PLANNED, TF_RUNNING, TF_FINISHED, TF_FAILED]"
  by (simp_all add: expanded_chart_def getExpandedStyle_def stage_stat_tables_def stat_table_def stat_cells_def
      histogram_table_def renderTaskFilter_def renderTaskFilterListItem_def GLYPHICON_HIGHLIGHT_def tooltip_def Let_def)

lemma StageSummary_render_ok:
  assumes "stage_hosts_known URL stage"
  shows "\<exists>v. StageSummary_render URL now stage s = Inr v \<and> handlers v = stage_actions stage"
proof -
  obtain latest :: "ssum_event vnode list" where "renderStageExecutionAttemptsTasks URL now s [stg_latest stage] = Inr latest" "concat (map handlers latest) = []"
    using attempts_ok [of "[stg_latest stage]" URL now s] assms by (auto simp: stage_hosts_known_def)
  moreover obtain previous :: "ssum_event vnode list" where "renderStageExecutionAttemptsTasks URL now s (stg_previous stage) = Inr previous"
      "concat (map handlers previous) = []"
    using attempts_ok [of "stg_previous stage" URL now s] assms by (auto simp: stage_hosts_known_def)
  ultimately show ?thesis
    by (simp add: StageSummary_render_def stage_actions_def Let_def getExpandedStyle_def del: concat_eq_Nil_conv)
qed


definition shown_stages :: "qd_state \<Rightarrow> stage_info list" where
  "shown_stages s = (case qd_lastSnapshotStage s of None \<Rightarrow> [] | Some stage \<Rightarrow> getStageList stage)"

lemma StageList_render_ok:
  assumes "\<forall>stage \<in> set stages. stage_hosts_known URL stage"
    and "stages = (case outputStage of None \<Rightarrow> [] | Some stage \<Rightarrow> getStageList stage)"
  shows "\<exists>v. StageList_render URL now summaries outputStage = Inr v \<and>
    handlers v = concat (map (\<lambda>stage. map (StageEvent (stg_stageId stage)) (stage_actions stage)) stages)"
proof (cases "stages = []")
  case True
  then show ?thesis using assms(2) by (simp add: StageList_render_def)
next
  case False
  let ?r = "\<lambda>stage. res_map (\<lambda>v. Keyed (stg_stageId stage) (map_vnode (StageEvent (stg_stageId stage)) v))
     (StageSummary_render URL now stage (summaries (stg_stageId stage)))"
  let ?h = "\<lambda>stage. map (StageEvent (stg_stageId stage)) (stage_actions stage)"
  have "\<exists>v. ?r stage = Inr v \<and> handlers v = ?h stage" if "stage \<in> set stages" for stage
    using StageSummary_render_ok [of URL stage now "summaries (stg_stageId stage)"] assms(1) that by auto
  then obtain vs where vs: "res_mapM ?r stages = Inr vs" "list_all2 (\<lambda>stage v. handlers v = ?h stage) stages vs"
    using res_mapM_ex [of stages ?r "\<lambda>stage v. handlers v = ?h stage"] by blast
  have "map handlers vs = map ?h stages" using vs(2) by (induction rule: list_all2_induct) simp_all
  then show ?thesis using False vs(1) assms(2) by (simp add: StageList_render_def Let_def)
qed

lemma handlers_detail_parts [simp]:
  "handlers (property_span t) = []"
  "handlers (info_cell t kids) = concat (map handlers kids)"
  "handlers (info_row t kids) = concat (map handlers kids)"
  "handlers (qd_copy href c t) = []"
  "handlers (opt_child o') = []"
  "handlers (id_span i t) = []"
  "handlers (info_table t rows) = concat (map handlers rows)"
  "handlers (formatted_stat f xs) = []"
  "concat (map handlers (sparkline_rows t i value)) = concat (map handlers value)"
  by (simp_all add: property_span_def info_cell_def info_row_def qd_copy_def opt_child_def id_span_def info_table_def
      formatted_stat_def sparkline_rows_def split: option.split) (induction href, simp_all)

lemma handlers_properties [simp]:
  "concat (map handlers (renderSessionProperties query)) = []"
  "concat (map handlers (renderResourceEstimates query)) = []"
  by (auto simp: renderSessionProperties_def renderResourceEstimates_def)

lemma handlers_detail_tables [simp]:
  "handlers (session_table query) = []"
  "handlers (execution_table local_date query) = []"
  "handlers (utilization_table query) = []"
  "handlers (timeline_table s) = []"
  "handlers (renderWarningInfo query) = []"
  "handlers (query_text query) = []"
  by (simp_all add: session_table_def execution_table_def utilization_table_def timeline_table_def renderWarningInfo_def
      query_text_def spilled_row_def Let_def del: concat_eq_Nil_conv)
    (auto simp: renderWarningInfo_def)


text \<open>The error fields of a failed query: its code comes with the report, and every failure of the report has a stack.\<close>

definition failure_ok :: "query_info \<Rightarrow> bool" where
  "failure_ok query \<longleftrightarrow>
     (case qi_failureInfo query of None \<Rightarrow> True | Some f \<Rightarrow> q_errorCode query \<noteq> None \<and> stacks_known (failures f))"

lemma renderFailureInfo_ok:
  assumes "failure_ok query"
  shows "\<exists>v :: 'e vnode. renderFailureInfo query = Inr v \<and> handlers v = []"
proof (cases "qi_failureInfo query")
  case (Some f)
  with assms obtain c where c: "q_errorCode query = Some c" "stacks_known (failures f)" by (auto simp: failure_ok_def)
  obtain t where "formatStackTrace f = Inr t"
    using trace_prints(1) [OF c(2), of "[]" "[]" "[]"] by (auto simp: formatStackTrace_def)
  then show ?thesis using Some c(1) by (simp add: renderFailureInfo_def)
qed (simp add: renderFailureInfo_def)

lemma renderStages_ok:
  assumes "\<forall>stage \<in> set (shown_stages s). stage_hosts_known URL stage"
  shows "\<exists>v. renderStages URL now summaries query s = Inr v \<and> handlers v = QD_StageRefresh #
    map QD_Stage (concat (map (\<lambda>stage. map (StageEvent (stg_stageId stage)) (stage_actions stage)) (shown_stages s)))"
proof -
  obtain v where "StageList_render URL now summaries (qd_lastSnapshotStage s) = Inr v"
      "handlers v = concat (map (\<lambda>stage. map (StageEvent (stg_stageId stage)) (stage_actions stage)) (shown_stages s))"
    using StageList_render_ok [OF assms shown_stages_def] by blast
  then show ?thesis by (simp add: renderStages_def renderStageRefreshButton_def)
qed

lemma QueryDetail_render_ok:
  assumes "qd_query s = Some query" and "qd_initialized s" and "error_fields_ok query" and "failure_ok query"
    and "\<forall>stage \<in> set (shown_stages s). stage_hosts_known URL stage"
  shows "\<exists>v. QueryDetail_render URL local_date pathname now summaries s = Inr v \<and> handlers v =
    (if isQueryEnded query then []
     else [QD_Header (PUT (''/v1/query/'' @ q_queryId query @ ''/preempted'') ''Preempted via web UI''),
           QD_Header (PUT (''/v1/query/'' @ q_queryId query @ ''/killed'') ''Killed via web UI'')])
    @ QD_StageRefresh # map QD_Stage (concat (map (\<lambda>stage. map (StageEvent (stg_stageId stage)) (stage_actions stage)) (shown_stages s)))"
proof -
  obtain failure :: "qd_click vnode" where f: "renderFailureInfo query = Inr failure" "handlers failure = []"
    using renderFailureInfo_ok [OF assms(4)] by blast
  obtain header where h: "QueryHeader_render pathname query = Inr header"
      "handlers header = (if isQueryEnded query then []
        else [PUT (''/v1/query/'' @ q_queryId query @ ''/preempted'') ''Preempted via web UI'',
              PUT (''/v1/query/'' @ q_queryId query @ ''/killed'') ''Killed via web UI''])"
    using QueryHeader_render_ok [OF assms(3)] by blast
  obtain stages where st: "renderStages URL now summaries query s = Inr stages" "handlers stages = QD_StageRefresh #
      map QD_Stage (concat (map (\<lambda>stage. map (StageEvent (stg_stageId stage)) (stage_actions stage)) (shown_stages s)))"
    using renderStages_ok [OF assms(5)] by blast
  show ?thesis
    using assms(1,2) f(1) h(1) st(1)
    by (auto simp add: QueryDetail_render_def f(2) h(2) st(2))
qed

text \<open>
  C16: the page of a query is always rendered if the error fields are consistent and the addresses of the tasks are valid, and
  its only actions are: to preempt or kill the query while it has not ended, to switch the refreshing of the stages, and,
  for every stage shown that has a plan, to expand it and to choose one of the five task filters.
\<close>

theorem query_page_actions:
  assumes "qd_query s = Some query" and "qd_initialized s" and "error_fields_ok query" and "failure_ok query"
    and "\<forall>stage \<in> set (shown_stages s). stage_hosts_known URL stage"
  shows "\<exists>v. QueryDetail_render URL local_date pathname now summaries s = Inr v \<and> handlers v =
    (if isQueryEnded query then []
     else [QD_Header (PUT (''/v1/query/'' @ q_queryId query @ ''/preempted'') ''Preempted via web UI''),
           QD_Header (PUT (''/v1/query/'' @ q_queryId query @ ''/killed'') ''Killed via web UI'')])
    @ QD_StageRefresh # map QD_Stage (concat (map (\<lambda>stage. map (StageEvent (stg_stageId stage)) (stage_actions stage)) (shown_stages s)))"
  using QueryDetail_render_ok [OF assms] .

theorem query_page_actions_witness:
  "\<exists>v. QueryDetail_render (\<lambda>u. Inl TypeError) (\<lambda>t. example_date) ''/ui/query.html'' 0 (\<lambda>i. ssum_init)
      (qd_run [Timer, Event (QD_Query example_info 5)]) = Inr v \<and> QD_StageRefresh \<in> set (handlers v)"
proof -
  let ?s = "qd_run [Timer, Event (QD_Query example_info 5)]"
  have "snapshot_of ?s = \<lparr>sn_query = Some example_info, sn_live = True, sn_stages = Some example_stage\<rparr>"
    using snapshot_of_run [of "[Timer, Event (QD_Query example_info 5)]" qd_init]
    by (simp add: qd_run_def snapshot_of_def qd_init_def)
  then have "qd_query ?s = Some example_info" and st: "qd_lastSnapshotStage ?s = Some example_stage" by (simp_all add: snapshot_of_def)
  moreover have "qd_initialized ?s"
    by (simp add: qd_run_def qd_success_def qd_resetTimer_def qd_receive_def qd_rates_def Let_def)
  moreover have "error_fields_ok example_info" and "failure_ok example_info"
    by (simp_all add: error_fields_ok_def failure_ok_def example_info_def query.defs query_info.defs example_query_def)
  moreover have "\<forall>stage \<in> set (shown_stages ?s). stage_hosts_known (\<lambda>u. Inl TypeError) stage"
    by (simp add: shown_stages_def st stage_hosts_known_def hosts_known_def example_stage_def example_execution_def)
  ultimately show ?thesis
    using query_page_actions [of ?s example_info "\<lambda>u. Inl TypeError" "\<lambda>t. example_date" "''/ui/query.html''" 0 "\<lambda>i. ssum_init"]
    by auto
qed

end
