(* ===== verification/MountedPages.thy ===== *)
theory MountedPages
  imports Mounting StageDetailProofs QueryDetailProofs
begin

text \<open>
  The pages of a stage and of a query as they are mounted: every change of the state renders the page, and an exception there
  unmounts it.  The handlers of StageDetail and QueryDetail are split into what they do before, while and after they set the
  state; as long as nothing raises, they are \<open>sd_handle\<close> and \<open>qd_handle\<close>.
\<close>

section \<open>The page of a stage\<close>

text \<open>Rendering the page, and what the operator graph of the stage it shows does once it is mounted or updated.\<close>

definition sd_shown :: "sd_state \<Rightarrow> stage_info option" where
  "sd_shown s =
     (case sd_query s of None \<Rightarrow> None
      | Some query \<Rightarrow>
          (case qi_outputStage query of None \<Rightarrow> None
           | Some outputStage \<Rightarrow>
               if isQueryEnded query
               then findStage (q_queryId query @ ''.'' @ (case sd_selectedStageId s of Some i \<Rightarrow> i | None \<Rightarrow> ''null'')) outputStage
               else None))"

definition sd_raises :: "string \<Rightarrow> sd_state \<Rightarrow> bool" where
  "sd_raises pathname s \<longleftrightarrow>
     isl (res_bind (StageDetail_render pathname s) (\<lambda>v. case sd_shown s of None \<Rightarrow> Inr [] | Some stage \<Rightarrow> operator_graph stage))"

definition sd_receive :: "sd_event \<Rightarrow> sd_state \<Rightarrow> sd_state" where
  "sd_receive e s = (if sd_answers e then s\<lparr>sd_requests := tl (sd_requests s)\<rparr> else s)"

fun sd_updates :: "sd_event \<Rightarrow> sd_state \<Rightarrow> (sd_state \<Rightarrow> sd_state) list" where
  "sd_updates (SD_Query query) s = [\<lambda>t. t\<lparr>sd_initialized := True, sd_ended := qi_finalQueryInfo query,
     sd_selectedStageId := Some (hd (sd_requests s)), sd_query := Some query\<rparr>]"
| "sd_updates SD_Error s = [\<lambda>t. t\<lparr>sd_initialized := True\<rparr>]"
| "sd_updates (SD_Select stageId) s = [\<lambda>t. t\<lparr>sd_selectedStageId := Some stageId\<rparr>]"

definition sd_finish :: "sd_event \<Rightarrow> sd_state \<Rightarrow> sd_state" where
  "sd_finish e s = (if sd_answers e then sd_resetTimer s else s)"

definition sd_page_handle :: "string \<Rightarrow> sd_event \<Rightarrow> sd_state \<times> bool \<Rightarrow> sd_state \<times> bool" where
  "sd_page_handle pathname = page_handle (sd_raises pathname) sd_receive sd_updates sd_finish"

lemma sd_handle_updates: "sd_finish e (fold (\<lambda>f. f) (sd_updates e s) (sd_receive e s)) = sd_handle e s"
  by (cases e) (simp_all add: sd_finish_def sd_receive_def sd_success_def sd_error_def)

text \<open>Answers the page is rendered for: consistent error fields, and complete plans for all stages.\<close>

definition sd_query_ok :: "query_info \<Rightarrow> bool" where
  "sd_query_ok query \<longleftrightarrow> error_fields_ok query \<and>
     (case qi_outputStage query of None \<Rightarrow> True
      | Some output \<Rightarrow> \<forall>stage \<in> set (all_stages output). \<exists>plan. stg_plan stage = Some plan \<and> sources_known (sp_root plan))"

definition sd_good :: "sd_state \<Rightarrow> bool" where
  "sd_good s \<longleftrightarrow> (case sd_query s of None \<Rightarrow> True | Some query \<Rightarrow> sd_query_ok query)"

fun sd_good_event :: "sd_event \<Rightarrow> bool" where
  "sd_good_event (SD_Query query) \<longleftrightarrow> sd_query_ok query"
| "sd_good_event e \<longleftrightarrow> True"

lemma getAllStageIds_ok:
  "(\<forall>t \<in> set (all_stages s). stg_plan t \<noteq> None) \<Longrightarrow> \<exists>ids. getAllStageIds s = Inr ids"
  "(\<forall>t \<in> set (all_stages_list ss). stg_plan t \<noteq> None) \<Longrightarrow> \<exists>ids. getAllStageIds_list ss = Inr ids"
proof (induction s and ss rule: getAllStageIds_getAllStageIds_list.induct)
  case (1 i plan latest previous subStages)
  then show ?case by (cases plan) auto
next
  case (3 stage stages)
  then show ?case by fastforce
qed simp

lemma operator_graph_ok: "stg_plan stage = Some plan \<Longrightarrow> sources_known (sp_root plan) \<Longrightarrow> \<exists>ops. operator_graph stage = Inr ops"
  using computeOperatorGraphs_ok [of "sp_root plan"] by (fastforce simp: operator_graph_def)

lemma sd_good_renders:
  assumes "sd_good s"
  shows "\<not> sd_raises pathname s"
proof (cases "sd_query s")
  case None
  then show ?thesis by (simp add: sd_raises_def sd_shown_def StageDetail_render_def)
next
  case (Some query)
  note q = Some
  show ?thesis
  proof (cases "qi_outputStage query")
    case None
    then show ?thesis using q by (simp add: sd_raises_def sd_shown_def StageDetail_render_def)
  next
    case (Some outputStage)
    let ?id = "q_queryId query @ ''.'' @ (case sd_selectedStageId s of Some i \<Rightarrow> i | None \<Rightarrow> ''null'')"
    have ok: "error_fields_ok query" "\<forall>stage \<in> set (all_stages outputStage). \<exists>plan. stg_plan stage = Some plan \<and> sources_known (sp_root plan)"
      using assms q Some by (simp_all add: sd_good_def sd_query_ok_def)
    obtain ids where ids: "getAllStageIds outputStage = Inr ids" using getAllStageIds_ok(1) [of outputStage] ok(2) by auto
    obtain header where header: "QueryHeader_render pathname query = Inr header" using QueryHeader_render_ok [OF ok(1)] by blast
    have "\<exists>v. StageDetail_render pathname s = Inr v"
      using q Some ids header by (cases "findStage ?id outputStage") (auto simp: StageDetail_render_def)
    moreover have "\<exists>ops. operator_graph stage = Inr ops" if "findStage ?id outputStage = Some stage" for stage
    proof -
      have "stage \<in> set (all_stages outputStage)" using that by (auto simp: findStage_find(1) find_Some_iff)
      then show ?thesis using ok(2) operator_graph_ok by blast
    qed
    ultimately show ?thesis using q Some by (auto simp: sd_raises_def sd_shown_def split: option.splits)
  qed
qed

lemma sd_update_cases:
  assumes "f \<in> set (sd_updates e s)"
  shows "sd_requests (f t) = sd_requests t" and "sd_timeout (f t) = sd_timeout t"
    and "\<not> sd_answers e \<Longrightarrow> sd_query (f t) = sd_query t \<and> sd_ended (f t) = sd_ended t"
    and "sd_good_event e \<Longrightarrow> sd_good t \<Longrightarrow> sd_good (f t)"
  using assms by (cases e; auto simp: sd_good_def; fail)+

interpretation sdp: fed_page sd_timeout "\<lambda>s. length (sd_requests s)" "\<lambda>s. sd_query s = None \<or> \<not> sd_ended s" "sd_refreshLoop search"
  sd_answers sd_receive sd_updates sd_finish "sd_raises pathname" "\<lambda>s. s = sd_init" sd_good_event sd_good for search pathname
proof unfold_locales
  fix e t
  assume "sd_answers e" and "sd_query (sd_finish e t) = None \<or> \<not> sd_ended (sd_finish e t)"
  then show "sd_timeout (sd_finish e t)" by (simp add: sd_finish_def sd_resetTimer_def)
next
  fix e f s t
  assume "sd_good_event e" "sd_good t" "f \<in> set (sd_updates e s)"
  then show "sd_good (f t)" by (simp add: sd_update_cases)
next
  fix s
  assume "sd_good s"
  then show "\<not> sd_raises pathname s" by (rule sd_good_renders)
qed (auto simp: sd_refreshLoop_def sd_receive_def sd_finish_def sd_init_def sd_update_cases sd_good_def sd_resetTimer_def)

section \<open>The page of a query\<close>

text \<open>
  The state of the page is that of \<open>QueryDetail\<close> and of the summaries it shows, by stage; the summary of a stage that is no
  longer shown is dropped, and starts anew if the stage comes back.  Whether a rendering raises does not depend on the time.
\<close>

type_synonym qp_state = "qd_state \<times> (string \<Rightarrow> ssum_state)"

datatype qp_event = QP_Page qd_event | QP_Stage stage_event

fun qp_answers :: "qp_event \<Rightarrow> bool" where
  "qp_answers (QP_Page e) \<longleftrightarrow> qd_answers e"
| "qp_answers (QP_Stage e) \<longleftrightarrow> False"

definition qp_init :: qp_state where
  "qp_init = (qd_init, \<lambda>i. ssum_init)"

definition qp_refreshLoop :: "qp_state \<Rightarrow> qp_state" where
  "qp_refreshLoop s = (qd_refreshLoop (fst s), snd s)"

definition qp_raises :: "(string \<Rightarrow> exn + url_parts) \<Rightarrow> (jsnum \<Rightarrow> js_date) \<Rightarrow> string \<Rightarrow> int \<Rightarrow> qp_state \<Rightarrow> bool" where
  "qp_raises URL local_date pathname now s \<longleftrightarrow> isl (QueryDetail_render URL local_date pathname now (snd s) (fst s))"

definition qp_receive :: "qp_event \<Rightarrow> qp_state \<Rightarrow> qp_state" where
  "qp_receive e s = (if qp_answers e then ((fst s)\<lparr>qd_requests := qd_requests (fst s) - 1\<rparr>, snd s) else s)"

fun qd_updates :: "qd_event \<Rightarrow> qd_state \<Rightarrow> (qd_state \<Rightarrow> qd_state) list" where
  "qd_updates (QD_Query query now) s =
     qd_receive query now #
       (if qd_ended s \<or> (qd_lastRefresh s = None \<and> q_state query = ''RUNNING'') then []
        else (let elapsedSecsSinceLastRefresh = elapsed_secs query now (qd_lastRefresh s) in
              if js_ge elapsedSecsSinceLastRefresh (Fin 0) then [qd_rates query elapsedSecsSinceLastRefresh s] else []))"
| "qd_updates QD_Error s = [\<lambda>t. t\<lparr>qd_initialized := True\<rparr>]"
| "qd_updates QD_StageRefreshClick s =
     (if qd_stageRefresh s then
        (case qd_query s of None \<Rightarrow> []
         | Some query \<Rightarrow> [\<lambda>t. t\<lparr>qd_stageRefresh := False, qd_lastSnapshotStages := qi_outputStage query\<rparr>])
      else [\<lambda>t. t\<lparr>qd_stageRefresh := True\<rparr>])"
| "qd_updates (QD_DidUpdate now later) s =
     (if (case qd_lastRender s of None \<Rightarrow> True | Some t \<Rightarrow> now - t \<ge> 1000) then [\<lambda>t. t\<lparr>qd_lastRender := Some later\<rparr>] else [])"

definition keep_summaries :: "qd_state \<Rightarrow> (string \<Rightarrow> ssum_state) \<Rightarrow> string \<Rightarrow> ssum_state" where
  "keep_summaries s summaries i = (if i \<in> set (map stg_stageId (shown_stages s)) then summaries i else ssum_init)"

fun qp_updates :: "qp_event \<Rightarrow> qp_state \<Rightarrow> (qp_state \<Rightarrow> qp_state) list" where
  "qp_updates (QP_Page e) s = map (\<lambda>f t. (f (fst t), keep_summaries (f (fst t)) (snd t))) (qd_updates e (fst s))"
| "qp_updates (QP_Stage (StageEvent i e)) s = [\<lambda>t. (fst t, (snd t)(i := ssum_handle e (snd t i)))]"

definition qp_finish :: "qp_event \<Rightarrow> qp_state \<Rightarrow> qp_state" where
  "qp_finish e s = (if qp_answers e then (qd_resetTimer (fst s), snd s) else s)"

definition qp_handle ::
  "(string \<Rightarrow> exn + url_parts) \<Rightarrow> (jsnum \<Rightarrow> js_date) \<Rightarrow> string \<Rightarrow> int \<Rightarrow> qp_event \<Rightarrow> qp_state \<times> bool \<Rightarrow> qp_state \<times> bool" where
  "qp_handle URL local_date pathname now = page_handle (qp_raises URL local_date pathname now) qp_receive qp_updates qp_finish"

lemma fold_page_updates:
  "fst (fold (\<lambda>f. f) (map (\<lambda>f t. (f (fst t), keep_summaries (f (fst t)) (snd t))) fs) s) = fold (\<lambda>f. f) fs (fst s)"
  by (induction fs arbitrary: s) simp_all

text \<open>While nothing raises, the page does what \<open>qd_handle\<close> does.\<close>

lemma qd_handle_updates:
  "fst (qp_finish (QP_Page e) (fold (\<lambda>f. f) (qp_updates (QP_Page e) s) (qp_receive (QP_Page e) s))) = qd_handle e (fst s)"
proof (cases e)
  case (QD_Query query now)
  have r: "qd_rates query k (fst s) t = qd_rates query k ((fst s)\<lparr>qd_requests := n\<rparr>) t" for k t n by (simp add: qd_rates_def)
  show ?thesis using QD_Query
    by (simp add: qp_finish_def qp_receive_def fold_page_updates qd_success_def Let_def r [of _ _ "qd_requests (fst s) - 1"])
qed (auto simp: qp_finish_def qp_receive_def fold_page_updates qd_error_def handleStageRefreshClick_def qd_componentDidUpdate_def
    split: option.splits)

text \<open>Answers the page is rendered for.\<close>

definition qp_stages_ok :: "(string \<Rightarrow> exn + url_parts) \<Rightarrow> stage_info option \<Rightarrow> bool" where
  "qp_stages_ok URL output' \<longleftrightarrow>
     (case output' of None \<Rightarrow> True | Some stage \<Rightarrow> list_all (stage_hosts_known URL) (getStageList stage))"

definition qp_query_ok :: "query_info \<Rightarrow> bool" where
  "qp_query_ok query \<longleftrightarrow> error_fields_ok query \<and> failure_ok query"

definition qp_good :: "(string \<Rightarrow> exn + url_parts) \<Rightarrow> qp_state \<Rightarrow> bool" where
  "qp_good URL s \<longleftrightarrow> (case qd_query (fst s) of None \<Rightarrow> True | Some query \<Rightarrow> qp_query_ok query)
     \<and> qp_stages_ok URL (qd_lastSnapshotStage (fst s))"

fun qp_good_event :: "(string \<Rightarrow> exn + url_parts) \<Rightarrow> qp_event \<Rightarrow> bool" where
  "qp_good_event URL (QP_Page (QD_Query query now)) \<longleftrightarrow> qp_query_ok query \<and> qp_stages_ok URL (qi_outputStage query)"
| "qp_good_event URL e \<longleftrightarrow> True"

lemma qp_good_renders:
  assumes "qp_good URL s"
  shows "\<not> qp_raises URL local_date pathname now s"
proof (cases "qd_query (fst s) = None \<or> \<not> qd_initialized (fst s)")
  case True
  then show ?thesis by (auto simp: qp_raises_def QueryDetail_render_def split: option.splits)
next
  case False
  then obtain query where "qd_query (fst s) = Some query" "qd_initialized (fst s)" by auto
  moreover have "\<forall>stage \<in> set (shown_stages (fst s)). stage_hosts_known URL stage"
    using assms by (auto simp: qp_good_def qp_stages_ok_def shown_stages_def list_all_iff split: option.splits)
  ultimately show ?thesis using QueryDetail_render_ok [of "fst s" query URL local_date pathname now "snd s"] assms
    by (auto simp: qp_raises_def qp_good_def qp_query_ok_def)
qed

lemma qd_update_cases:
  assumes "f \<in> set (qd_updates e s)"
  shows "qd_requests (f t) = qd_requests t" and "qd_timeout (f t) = qd_timeout t"
    and "\<not> qd_answers e \<Longrightarrow> qd_query (f t) = qd_query t \<and> qd_ended (f t) = qd_ended t"
    and "qp_good_event URL (QP_Page e) \<Longrightarrow> qp_good URL (t, summaries) \<Longrightarrow> qp_good URL (f t, summaries')"
  using assms by (cases e; auto simp: qd_receive_def qd_rates_def qp_good_def Let_def split: if_splits option.splits; fail)+

lemma qp_update_cases:
  assumes "f \<in> set (qp_updates e s)"
  shows "qd_requests (fst (f t)) = qd_requests (fst t)" and "qd_timeout (fst (f t)) = qd_timeout (fst t)"
    and "\<not> qp_answers e \<Longrightarrow> qd_query (fst (f t)) = qd_query (fst t) \<and> qd_ended (fst (f t)) = qd_ended (fst t)"
    and "qp_good_event URL e \<Longrightarrow> qp_good URL t \<Longrightarrow> qp_good URL (f t)"
proof -
  have "(\<exists>e'. e = QP_Page e' \<and> (\<exists>g \<in> set (qd_updates e' (fst s)). fst (f t) = g (fst t))) \<or> fst (f t) = fst t"
    using assms by (cases "(e, s)" rule: qp_updates.cases) auto
  then show "qd_requests (fst (f t)) = qd_requests (fst t)" and "qd_timeout (fst (f t)) = qd_timeout (fst t)"
    and "\<not> qp_answers e \<Longrightarrow> qd_query (fst (f t)) = qd_query (fst t) \<and> qd_ended (fst (f t)) = qd_ended (fst t)"
    and "qp_good_event URL e \<Longrightarrow> qp_good URL t \<Longrightarrow> qp_good URL (f t)"
    by (auto simp: qd_update_cases(1-3)) (metis prod.collapse qd_update_cases(4), simp add: qp_good_def)
qed

interpretation qdp: fed_page "\<lambda>s. qd_timeout (fst s)" "\<lambda>s. qd_requests (fst s)" "\<lambda>s. qd_query (fst s) = None \<or> \<not> qd_ended (fst s)"
  qp_refreshLoop qp_answers qp_receive qp_updates qp_finish "qp_raises URL local_date pathname now" "\<lambda>s. s = qp_init"
  "qp_good_event URL" "qp_good URL" for URL local_date pathname now
proof unfold_locales
  fix e t
  assume "qp_answers e" and "qd_query (fst (qp_finish e t)) = None \<or> \<not> qd_ended (fst (qp_finish e t))"
  then show "qd_timeout (fst (qp_finish e t))" by (simp add: qp_finish_def qd_resetTimer_def)
next
  fix e f s t
  assume "qp_good_event URL e" "qp_good URL t" "f \<in> set (qp_updates e s)"
  then show "qp_good URL (f t)" by (simp add: qp_update_cases)
next
  fix s
  assume "qp_good URL s"
  then show "\<not> qp_raises URL local_date pathname now s" by (rule qp_good_renders)
qed (auto simp: qp_refreshLoop_def qd_refreshLoop_def qp_receive_def qp_finish_def qp_init_def qd_init_def qp_update_cases(1-3) qp_good_def qd_resetTimer_def)

section \<open>Properties\<close>

text \<open>
  C7: the page of a query survives everything a correct server sends.  In every run in which a pending timer fires at last
  and a request is answered or fails at last, whatever answers, failures and clicks come, on the page and on its stages: if
  the answers have consistent error fields, stacks for all failures and valid task addresses, the page stays mounted and
  polls again and again until the query has ended.
\<close>

theorem query_page_survives:
  assumes "fair_run (\<lambda>p. qd_timeout (fst (fst p))) (\<lambda>p. qd_requests (fst (fst p))) (page_tick qp_refreshLoop) qp_answers
      (qp_handle URL local_date pathname now) (qp_init, True) run acts"
    and "\<forall>i e. acts i = Event e \<longrightarrow> qp_good_event URL e"
  shows "snd (run i) \<and> (\<exists>j \<ge> i. acts j = Timer \<or> \<not> (qd_query (fst (fst (run j))) = None \<or> \<not> qd_ended (fst (fst (run j)))))"
  using qdp.goes_on [OF assms(1) [unfolded qp_handle_def], of i] assms(2)
  by (simp add: qp_good_def qp_init_def qd_init_def qp_stages_ok_def)

lemma failing_run:
  fixes handle tick
  assumes "tick (handle e (tick s)) = w" and "handle e w = f" and "handle e (tick s) = f"
    and "answers e" and "pending f" and "\<not> pending (tick s)" and "\<not> pending w" and "0 < outstanding (tick s)" and "0 < outstanding w"
    and "outstanding f = 0"
  shows "fair_run pending outstanding tick answers handle s
    (\<lambda>i. if i = 0 then tick s else if odd i then f else w) (\<lambda>i. if even i then Event e else Timer)"
proof -
  have "tick f = w" using assms(1,3) by simp
  then show ?thesis using assms unfolding fair_run_def
    by (auto split: if_splits)
qed

theorem query_page_survives_witness:
  "\<exists>run. snd (run 3) \<and> fair_run (\<lambda>p. qd_timeout (fst (fst p))) (\<lambda>p. qd_requests (fst (fst p))) (page_tick qp_refreshLoop) qp_answers
     (qp_handle (\<lambda>u. Inl TypeError) (\<lambda>t. example_date) ''/ui/query.html'' 0) (qp_init, True) run
     (\<lambda>i. if even i then Event (QP_Page QD_Error) else Timer)"
proof -
  let ?run = "\<lambda>i :: nat. if i = 0 then page_tick qp_refreshLoop (qp_init, True)
    else if odd i then (((fst qp_init)\<lparr>qd_initialized := True, qd_timeout := True\<rparr>, snd qp_init), True)
    else (((fst qp_init)\<lparr>qd_initialized := True, qd_requests := 1\<rparr>, snd qp_init), True)"
  have fair: "fair_run (\<lambda>p. qd_timeout (fst (fst p))) (\<lambda>p. qd_requests (fst (fst p))) (page_tick qp_refreshLoop) qp_answers
     (qp_handle (\<lambda>u. Inl TypeError) (\<lambda>t. example_date) ''/ui/query.html'' 0) (qp_init, True) ?run
     (\<lambda>i. if even i then Event (QP_Page QD_Error) else Timer)"
    by (rule failing_run)
      (auto simp: qp_handle_def page_handle_def page_tick_def qp_refreshLoop_def qd_refreshLoop_def qp_init_def qd_init_def qp_receive_def
        qp_finish_def qd_resetTimer_def qp_raises_def QueryDetail_render_def keep_summaries_def shown_stages_def)
  show ?thesis
    by (intro exI [of _ ?run] conjI fair conjunct1 [OF query_page_survives [OF fair]]) auto
qed

text \<open>
  C29: an answer with a stage that has no plan stops the page of a stage for good.  Computing the list of stages raises, the
  page is unmounted, and since the exception leaves the handler before the timer is set, no request is ever sent again.
\<close>

theorem missing_plan_stops_stage_page:
  assumes "poll_reach (\<lambda>p. sd_timeout (fst p)) (\<lambda>p. length (sd_requests (fst p))) (page_tick (sd_refreshLoop search)) sd_answers
      (sd_page_handle pathname) (sd_init, True) p" and "snd p" and "sd_requests (fst p) \<noteq> []"
    and "qi_outputStage query = Some outputStage" and "stage \<in> set (all_stages outputStage)" and "stg_plan stage = None"
    and "(\<lambda>q q'. \<exists>a. poll_step (\<lambda>p. sd_timeout (fst p)) (\<lambda>p. length (sd_requests (fst p))) (page_tick (sd_refreshLoop search)) sd_answers
      (sd_page_handle pathname) q a q')\<^sup>*\<^sup>* (sd_page_handle pathname (SD_Query query) p) q"
  shows "\<not> snd q \<and> \<not> sd_timeout (fst q) \<and> sd_requests (fst q) = []"
proof -
  have "getAllStageIds outputStage \<noteq> Inr ids" for ids
  proof
    assume "getAllStageIds outputStage = Inr ids"
    then have "None \<notin> set (map (\<lambda>t. map_option sp_id (stg_plan t)) (all_stages outputStage))" using getAllStageIds_map(1) by auto
    then show False using assms(5,6) by force
  qed
  then obtain x where x: "getAllStageIds outputStage = Inl x" by (cases "getAllStageIds outputStage") auto
  define f where "f = (\<lambda>t :: sd_state. t\<lparr>sd_initialized := True, sd_ended := qi_finalQueryInfo query,
    sd_selectedStageId := Some (hd (sd_requests (fst p))), sd_query := Some query\<rparr>)"
  have updates: "sd_updates (SD_Query query) (fst p) = f # []" by (simp add: f_def)
  have raises: "sd_raises pathname (f (sd_receive (SD_Query query) (fst p)))"
    using assms(4) x by (simp add: sd_raises_def StageDetail_render_def f_def)
  note reach = assms(1) [unfolded sd_page_handle_def]
  have stopped: "\<not> snd (sd_page_handle pathname (SD_Query query) p) \<and> \<not> sd_timeout (fst (sd_page_handle pathname (SD_Query query) p))
      \<and> length (sd_requests (fst (sd_page_handle pathname (SD_Query query) p))) = 0"
    unfolding sd_page_handle_def by (rule sdp.raising_answer_stops [OF reach _ _ _ updates raises assms(2)]) (use assms(3) in simp_all)
  from assms(7) have "\<not> snd q \<and> \<not> sd_timeout (fst q) \<and> length (sd_requests (fst q)) = 0"
  proof (induction rule: rtranclp_induct)
    case base
    show ?case by (rule stopped)
  next
    case (step q q')
    from step(2) obtain a where "poll_step (\<lambda>p. sd_timeout (fst p)) (\<lambda>p. length (sd_requests (fst p))) (page_tick (sd_refreshLoop search))
        sd_answers (sd_page_handle pathname) q a q'" by blast
    from sdp.stopped_stays [OF step(3) this [unfolded sd_page_handle_def]] show ?case .
  qed
  then show ?thesis by simp
qed

theorem missing_plan_stops_stage_page_witness:
  "\<not> sd_timeout (fst (sd_page_handle ''/ui/stage.html'' (SD_Query (example_info\<lparr>qi_outputStage := Some (StageInfo ''q1.0'' None example_execution [] [])\<rparr>))
     (page_tick (sd_refreshLoop ''?q1.0'') (sd_init, True))))"
proof -
  let ?q = "example_info\<lparr>qi_outputStage := Some (StageInfo ''q1.0'' None example_execution [] [])\<rparr>"
  let ?p = "page_tick (sd_refreshLoop ''?q1.0'') (sd_init, True)"
  let ?stage = "StageInfo ''q1.0'' None example_execution [] []"
  have "\<not> snd (sd_page_handle ''/ui/stage.html'' (SD_Query ?q) ?p) \<and> \<not> sd_timeout (fst (sd_page_handle ''/ui/stage.html'' (SD_Query ?q) ?p))
      \<and> sd_requests (fst (sd_page_handle ''/ui/stage.html'' (SD_Query ?q) ?p)) = []"
    by (rule missing_plan_stops_stage_page [where p = ?p and query = ?q and search = "''?q1.0''" and pathname = "''/ui/stage.html''" and outputStage = ?stage and stage = ?stage])
      (rule poll_mount, simp_all add: sd_refreshLoop_def)
  then show ?thesis by blast
qed

end
