(* ===== verification/Pages.thy ===== *)
theory Pages
  imports QueryListView ClusterHUD PageTitle WorkerStatus WorkerThreadList LivePlan MountedPages
begin

text \<open>
  The entry points \<open>index.jsx\<close>, \<open>query.jsx\<close>, \<open>plan.jsx\<close>, \<open>embedded_plan.jsx\<close>, \<open>stage.jsx\<close> and \<open>worker.jsx\<close> of
  \<open>webapp/src\<close>: which components a page mounts, and in which element.  The search part of the address is an argument.
\<close>

section \<open>Mounting\<close>

datatype component =
    Mount_PageTitle string
  | Mount_ClusterHUD
  | Mount_QueryList
  | Mount_QueryDetail
  | Mount_LivePlan string bool
  | Mount_StageDetail
  | Mount_WorkerStatus
  | Mount_WorkerThreadList

definition index_page :: "(component \<times> string) list" where
  "index_page = [(Mount_PageTitle ''Cluster Overview'', ''title''), (Mount_ClusterHUD, ''cluster-hud''), (Mount_QueryList, ''query-list'')]"

definition query_page :: "(component \<times> string) list" where
  "query_page = [(Mount_PageTitle ''Query Details'', ''title''), (Mount_QueryDetail, ''query-detail'')]"

definition plan_page :: "string \<Rightarrow> (component \<times> string) list" where
  "plan_page search = [(Mount_PageTitle ''Query Details'', ''title''),
     (Mount_LivePlan (getFirstParameter search) False, ''live-plan-container'')]"

definition embedded_plan_page :: "string \<Rightarrow> (component \<times> string) list" where
  "embedded_plan_page search = [(Mount_LivePlan (getFirstParameter search) True, ''live-plan-container'')]"

definition stage_page :: "(component \<times> string) list" where
  "stage_page = [(Mount_PageTitle ''Query Details'', ''title''), (Mount_StageDetail, ''stage-performance-header'')]"

definition worker_page :: "(component \<times> string) list" where
  "worker_page = [(Mount_PageTitle ''Worker Status'', ''title''), (Mount_WorkerStatus, ''worker-status''),
     (Mount_WorkerThreadList, ''worker-threads'')]"

definition pages :: "string \<Rightarrow> (component \<times> string) list list" where
  "pages search = [index_page, query_page, plan_page search, embedded_plan_page search, stage_page, worker_page]"

section \<open>Polling of the pages\<close>

definition one_series ::
  "('s \<Rightarrow> bool) \<Rightarrow> ('s \<Rightarrow> nat) \<Rightarrow> ('s \<Rightarrow> 's) \<Rightarrow> ('e \<Rightarrow> bool) \<Rightarrow> ('e \<Rightarrow> 's \<Rightarrow> 's) \<Rightarrow> 's \<Rightarrow> bool" where
  "one_series pending outstanding tick answers handle s0 \<longleftrightarrow>
     (\<forall>s. poll_reach pending outstanding tick answers handle s0 s \<longrightarrow>
        outstanding s \<le> 1 \<and> (pending s \<longrightarrow> outstanding s = 0))"

text \<open>A fair run polls again and again, until it has nothing more to ask.\<close>

definition keeps_polling ::
  "('s \<Rightarrow> bool) \<Rightarrow> ('s \<Rightarrow> nat) \<Rightarrow> ('s \<Rightarrow> bool) \<Rightarrow> ('s \<Rightarrow> 's) \<Rightarrow> ('e \<Rightarrow> bool) \<Rightarrow> ('e \<Rightarrow> 's \<Rightarrow> 's) \<Rightarrow> 's \<Rightarrow> bool" where
  "keeps_polling pending outstanding continues tick answers handle s0 \<longleftrightarrow>
     (\<forall>run acts. fair_run pending outstanding tick answers handle s0 run acts \<longrightarrow>
        (\<forall>i. \<exists>j \<ge> i. acts j = Timer \<or> \<not> continues (run j)))"

lemma keeps_pollingI:
  "(\<And>run acts i. fair_run pending outstanding tick answers handle s0 run acts \<Longrightarrow> \<exists>j \<ge> i. acts j = Timer \<or> \<not> continues (run j))
   \<Longrightarrow> keeps_polling pending outstanding continues tick answers handle s0"
  by (simp add: keeps_polling_def)

text \<open>The thread list of a worker asks only on a click, so it has no series.\<close>

fun polls_once :: "string \<Rightarrow> string \<Rightarrow> component \<Rightarrow> bool" where
  "polls_once search pathname (Mount_PageTitle title) \<longleftrightarrow>
     (\<forall>now. one_series pt_timeout pt_requests pt_refreshLoop (\<lambda>e. True) pt_handle (pt_init now))"
| "polls_once search pathname Mount_ClusterHUD \<longleftrightarrow> one_series hud_timeout hud_requests hud_refreshLoop hud_answers hud_handle hud_init"
| "polls_once search pathname Mount_QueryList \<longleftrightarrow>
     (\<forall>s. ql_reachable s \<longrightarrow> ql_requests s \<le> 1 \<and> (ql_timeout s \<longrightarrow> ql_requests s = 0))"
| "polls_once search pathname Mount_QueryDetail \<longleftrightarrow>
     (\<forall>URL local_date now. one_series (\<lambda>p. qd_timeout (fst (fst p))) (\<lambda>p. qd_requests (fst (fst p))) (page_tick qp_refreshLoop) qp_answers
        (qp_handle URL local_date pathname now) (qp_init, True))"
| "polls_once search pathname (Mount_LivePlan queryId isEmbedded) \<longleftrightarrow>
     one_series lp_timeout lp_requests lp_refreshLoop (\<lambda>e. True) (lp_handle pathname isEmbedded) lp_init"
| "polls_once search pathname Mount_StageDetail \<longleftrightarrow>
     one_series (\<lambda>p. sd_timeout (fst p)) (\<lambda>p. length (sd_requests (fst p))) (page_tick (sd_refreshLoop search)) sd_answers
       (sd_page_handle pathname) (sd_init, True)"
| "polls_once search pathname Mount_WorkerStatus \<longleftrightarrow> one_series ws_timeout ws_requests ws_refreshLoop (\<lambda>e. True) ws_handle ws_init"
| "polls_once search pathname Mount_WorkerThreadList \<longleftrightarrow> True"

lemma every_component_polls_once: "polls_once search pathname c"
proof (cases c)
  case Mount_QueryList
  then show ?thesis by (auto simp: ql_inv_def ql_polling_def split: if_splits dest!: ql_reachable_inv)
next
  case Mount_QueryDetail
  then show ?thesis by (auto simp: one_series_def qp_handle_def dest: qdp.single_series)
next
  case Mount_StageDetail
  then show ?thesis by (auto simp: one_series_def sd_page_handle_def dest: sdp.single_series)
qed (auto simp: one_series_def dest: pt.single_series hud.single_series lp.single_series ws.single_series)

text \<open>Fair runs of the query list, whose events include the firing of its refresh timer.\<close>

fun ql_answers :: "ql_event \<Rightarrow> bool" where
  "ql_answers (QL_RefreshSuccess l now later) \<longleftrightarrow> True"
| "ql_answers QL_RefreshError \<longleftrightarrow> True"
| "ql_answers e \<longleftrightarrow> False"

definition ql_fair_run :: "(nat \<Rightarrow> ql_state) \<Rightarrow> (nat \<Rightarrow> ql_event) \<Rightarrow> bool" where
  "ql_fair_run run acts \<longleftrightarrow>
     ql_reachable (run 0) \<and> (\<forall>i. ql_step (run i) (acts i) (run (Suc i)) \<and> ql_server_ok (acts i))
     \<and> (\<forall>i. ql_timeout (run i) \<longrightarrow> (\<exists>j \<ge> i. acts j = QL_RefreshTimer))
     \<and> (\<forall>i. 0 < ql_requests (run i) \<longrightarrow> (\<exists>j \<ge> i. ql_answers (acts j)))"

lemma ql_answer_sets_timer:
  assumes "ql_inv s" and "ql_step s e s'" and "ql_server_ok e" and "ql_answers e"
  shows "ql_timeout s'"
proof -
  have en: "ql_enabled e s" using assms(2) by (auto elim: ql_stepE)
  then obtain t where t: "ql_handle e s = Inr t" "ql_inv t" using ql_handle_inv [OF assms(1) _ assms(3)] by blast
  then have "s' = t" using assms(2) by (auto elim!: ql_stepE)
  moreover have "ql_requests s = 1" using assms(1,4) en by (cases e) (auto simp: ql_inv_def ql_polling_def split: if_splits)
  then have "ql_requests t = 0"
    using t(1) assms(4) by (cases e) (auto simp: ql_refresh_success_def ql_refresh_error_def ql_resetTimer_def answered_def Let_def)
  ultimately show ?thesis using t(2) by (auto simp: ql_inv_def ql_polling_def split: if_splits)
qed

lemma ql_polls_again:
  assumes "ql_fair_run run acts"
  shows "\<exists>j \<ge> i. acts j = QL_RefreshTimer"
proof -
  have "ql_reachable (run j)" for j
    using assms by (induction j) (auto simp: ql_fair_run_def intro: ql_reachable_step)
  note inv = ql_reachable_inv [OF this]
  show ?thesis
  proof (cases "ql_timeout (run i)")
    case False
    then have "0 < ql_requests (run i)" using inv [of i] by (auto simp: ql_inv_def ql_polling_def)
    then obtain j where "j \<ge> i" "ql_answers (acts j)" using assms unfolding ql_fair_run_def by blast
    then have "ql_timeout (run (Suc j))" using ql_answer_sets_timer [OF inv] assms by (auto simp: ql_fair_run_def)
    then obtain k where "k \<ge> Suc j" "acts k = QL_RefreshTimer" using assms by (auto simp: ql_fair_run_def)
    then show ?thesis using \<open>j \<ge> i\<close> by (meson Suc_leD order_trans)
  qed (use assms in \<open>simp add: ql_fair_run_def\<close>)
qed

text \<open>
  The components that watch one query stop when it has ended, and those that an exception may unmount stop there; the others
  go on for ever.
\<close>

fun polls_on :: "string \<Rightarrow> string \<Rightarrow> component \<Rightarrow> bool" where
  "polls_on search pathname (Mount_PageTitle title) \<longleftrightarrow>
     (\<forall>now. keeps_polling pt_timeout pt_requests (\<lambda>s. True) pt_refreshLoop (\<lambda>e. True) pt_handle (pt_init now))"
| "polls_on search pathname Mount_ClusterHUD \<longleftrightarrow>
     keeps_polling hud_timeout hud_requests (\<lambda>s. True) hud_refreshLoop hud_answers hud_handle hud_init"
| "polls_on search pathname Mount_QueryList \<longleftrightarrow> (\<forall>run acts i. ql_fair_run run acts \<longrightarrow> (\<exists>j \<ge> i. acts j = QL_RefreshTimer))"
| "polls_on search pathname Mount_QueryDetail \<longleftrightarrow>
     (\<forall>URL local_date now. keeps_polling (\<lambda>p. qd_timeout (fst (fst p))) (\<lambda>p. qd_requests (fst (fst p)))
        (\<lambda>p. snd p \<and> (qd_query (fst (fst p)) = None \<or> \<not> qd_ended (fst (fst p)))) (page_tick qp_refreshLoop) qp_answers
        (qp_handle URL local_date pathname now) (qp_init, True))"
| "polls_on search pathname (Mount_LivePlan queryId isEmbedded) \<longleftrightarrow>
     keeps_polling lp_timeout lp_requests (\<lambda>s. lp_query s = None \<or> \<not> lp_ended s) lp_refreshLoop (\<lambda>e. True)
       (lp_handle pathname isEmbedded) lp_init"
| "polls_on search pathname Mount_StageDetail \<longleftrightarrow>
     keeps_polling (\<lambda>p. sd_timeout (fst p)) (\<lambda>p. length (sd_requests (fst p)))
       (\<lambda>p. snd p \<and> (sd_query (fst p) = None \<or> \<not> sd_ended (fst p))) (page_tick (sd_refreshLoop search)) sd_answers
       (sd_page_handle pathname) (sd_init, True)"
| "polls_on search pathname Mount_WorkerStatus \<longleftrightarrow>
     keeps_polling ws_timeout ws_requests (\<lambda>s. \<not> ws_ended s) ws_refreshLoop (\<lambda>e. True) ws_handle ws_init"
| "polls_on search pathname Mount_WorkerThreadList \<longleftrightarrow> True"

lemma every_component_polls_on: "polls_on search pathname c"
proof (cases c)
  case Mount_QueryList
  then show ?thesis by (simp add: ql_polls_again)
next
  case Mount_QueryDetail
  then show ?thesis by (auto simp: qp_handle_def intro!: keeps_pollingI dest: qdp.polls_again)
next
  case Mount_StageDetail
  then show ?thesis by (auto simp: sd_page_handle_def intro!: keeps_pollingI dest: sdp.polls_again)
qed (simp_all only: polls_on.simps,
    (intro allI keeps_pollingI, erule pt.polls_again hud.polls_again lp.polls_again ws.polls_again)+)

end
