(* ===== verification/StatementClient.thy ===== *)
theory StatementClient
  imports JsObject
begin

text \<open>
  \<open>webapp/tableau/presto-client.js\<close>: the client of the Tableau connector.  Its requests are synchronous, so a method
  returns after its requests were answered.  The answers of the server are a list, taken in order; a request for which
  the list has no answer never returns (\<open>None\<close>).  What the client does, its requests and the calls of the three
  callbacks, is the list of its effects.  Columns and data are passed on unread: they are type parameters.  The session
  parameters are represented by what \<open>JSON.parse\<close> makes of them.
\<close>

section \<open>State\<close>

record connection_data =
  cd_query :: string
  cd_catalog :: "string option"
  cd_schema :: "string option"
  cd_userName :: "string option"
  cd_sessionParameters :: "(exn + (string \<times> string) list) option"

datatype header_value = Single string | Several "string list"

record ('c, 'd) response =
  rs_nextUri :: "string option"
  rs_error :: "(string \<times> string) option"
  rs_columns :: "'c option"
  rs_data :: "'d option"

record ('c, 'd) client =
  sc_query :: string
  sc_headers :: "(string \<times> header_value) list"
  sc_currentResults :: "('c, 'd) response option"
  sc_valid :: bool

datatype ('c, 'd) effect =
    POST string "(string \<times> header_value) list" string
  | GET string "(string \<times> header_value) list"
  | ErrorCallback string string
  | HeaderCallback "'c option"
  | DataCallback 'd "'c option" int

datatype ('c, 'd) answer = Failed string string | Success "('c, 'd) response"

section \<open>Construction\<close>

definition session_parameters :: "connection_data \<Rightarrow> exn + string list" where
  "session_parameters connectionData =
     (case cd_sessionParameters connectionData of
        None \<Rightarrow> Inr []
      | Some parameterMap' \<Rightarrow> res_map (\<lambda>parameterMap.
          map (\<lambda>name. name @ ''='' @ the (obj_get parameterMap name)) (object_keys parameterMap)) parameterMap')"

definition client_headers :: "connection_data \<Rightarrow> string list \<Rightarrow> (string \<times> header_value) list" where
  "client_headers connectionData sessionParameters =
     [(''X-Presto-User'', Single (case cd_userName connectionData of None \<Rightarrow> ''N/A''
         | Some user \<Rightarrow> if user = [] then ''N/A'' else user)),
      (''X-Presto-Source'', Single ''Tableau Web Connector''),
      (''X-Presto-Session'', Several sessionParameters)]
     @ (case cd_catalog connectionData of None \<Rightarrow> [] | Some catalog \<Rightarrow> [(''X-Presto-Catalog'', Single catalog)])
     @ (case cd_schema connectionData of None \<Rightarrow> [] | Some schema \<Rightarrow> [(''X-Presto-Schema'', Single schema)])"

section \<open>Requests\<close>

definition responseHandler :: "('c, 'd) response \<Rightarrow> int \<Rightarrow> ('c, 'd) effect list" where
  "responseHandler response lastRecordNumber =
     (case rs_error response of None \<Rightarrow> [] | Some (errorName, message) \<Rightarrow> [ErrorCallback errorName message])
     @ (case rs_columns response of None \<Rightarrow> [] | Some columns \<Rightarrow> [HeaderCallback (Some columns)])
     @ (case rs_data response of None \<Rightarrow> []
        | Some data \<Rightarrow> [HeaderCallback (rs_columns response), DataCallback data (rs_columns response) lastRecordNumber])"

fun submitQuery :: "int \<Rightarrow> ('c, 'd) client \<Rightarrow> ('c, 'd) answer list
    \<Rightarrow> (('c, 'd) effect list \<times> ('c, 'd) client \<times> ('c, 'd) answer list) option" where
  "submitQuery lastRecordNumber client [] = None"
| "submitQuery lastRecordNumber client (Failed responseText errorStr # answers) =
     Some ([POST ''/v1/statement'' (sc_headers client) (sc_query client), ErrorCallback responseText errorStr], client, answers)"
| "submitQuery lastRecordNumber client (Success response # answers) =
     Some (POST ''/v1/statement'' (sc_headers client) (sc_query client) # responseHandler response lastRecordNumber,
       client\<lparr>sc_currentResults := Some response\<rparr>, answers)"

text \<open>The constructor submits the query at once.\<close>

definition StatementClient :: "connection_data \<Rightarrow> ('c, 'd) answer list
    \<Rightarrow> exn + (('c, 'd) effect list \<times> ('c, 'd) client \<times> ('c, 'd) answer list) option" where
  "StatementClient connectionData answers =
     res_map (\<lambda>sessionParameters.
       submitQuery 0 \<lparr>sc_query = cd_query connectionData, sc_headers = client_headers connectionData sessionParameters,
         sc_currentResults = None, sc_valid = True\<rparr> answers)
       (session_parameters connectionData)"

text \<open>The address of the next results; an empty one counts as missing.\<close>

definition next_uri :: "('c, 'd) client \<Rightarrow> string option" where
  "next_uri client =
     (case sc_currentResults client of None \<Rightarrow> None
      | Some results \<Rightarrow> (case rs_nextUri results of None \<Rightarrow> None | Some uri \<Rightarrow> if uri = [] then None else Some uri))"

fun advance :: "int \<Rightarrow> ('c, 'd) client \<Rightarrow> ('c, 'd) answer list
    \<Rightarrow> (('c, 'd) effect list \<times> ('c, 'd) client \<times> ('c, 'd) answer list) option" where
  "advance lastRecordNumber client [] =
     (case next_uri client of None \<Rightarrow> Some ([], client\<lparr>sc_valid := False\<rparr>, []) | Some uri \<Rightarrow> None)"
| "advance lastRecordNumber client (answer # answers) =
     (case next_uri client of
        None \<Rightarrow> Some ([], client\<lparr>sc_valid := False\<rparr>, answer # answers)
      | Some uri \<Rightarrow>
         (case answer of
            Failed responseText errorStr \<Rightarrow> Some ([GET uri (sc_headers client), ErrorCallback responseText errorStr], client, answers)
          | Success response \<Rightarrow>
             (let client' = client\<lparr>sc_currentResults := Some response\<rparr>;
                  effects = GET uri (sc_headers client) # responseHandler response lastRecordNumber
              in if rs_data response \<noteq> None \<or> rs_error response \<noteq> None then Some (effects, client', answers)
                 else map_option (\<lambda>(later, client'', rest). (effects @ later, client'', rest))
                   (advance lastRecordNumber client' answers))))"

section \<open>Properties\<close>

text \<open>The data an answer carries, the data an effect delivers, the addresses effects request.\<close>

fun answer_data :: "('c, 'd) answer \<Rightarrow> 'd list" where
  "answer_data (Failed t e) = []"
| "answer_data (Success r) = (case rs_data r of None \<Rightarrow> [] | Some d \<Rightarrow> [d])"

fun delivered :: "('c, 'd) effect \<Rightarrow> 'd list" where
  "delivered (DataCallback d c n) = [d]"
| "delivered e = []"

fun requested :: "('c, 'd) effect \<Rightarrow> string list" where
  "requested (GET uri h) = [uri]"
| "requested e = []"

fun answer_uri :: "('c, 'd) answer \<Rightarrow> string list" where
  "answer_uri (Failed t e) = []"
| "answer_uri (Success r) = (case rs_nextUri r of None \<Rightarrow> [] | Some u \<Rightarrow> if u = [] then [] else [u])"

text \<open>An answer after which \<open>advance\<close> does not ask again.\<close>

definition decisive :: "('c, 'd) answer \<Rightarrow> bool" where
  "decisive a \<longleftrightarrow> (case a of Failed t e \<Rightarrow> True | Success r \<Rightarrow> rs_data r \<noteq> None \<or> rs_error r \<noteq> None \<or> answer_uri a = [])"

lemma handler_effects [simp]:
  "concat (map delivered (responseHandler r n)) = answer_data (Success r)"
  "concat (map requested (responseHandler r n)) = []"
  by (cases "rs_error r"; cases "rs_columns r"; cases "rs_data r"; auto simp: responseHandler_def; fail)+

lemma next_uri_current [simp]:
  "next_uri (c\<lparr>sc_currentResults := Some r\<rparr>) = (case answer_uri (Success r) of [] \<Rightarrow> None | u # us \<Rightarrow> Some u)"
  by (simp add: next_uri_def split: option.splits)

lemma advance_spec:
  assumes "next_uri c = Some uri" and "\<not> (\<exists>a \<in> set quiet. decisive a)" and "decisive a"
  shows "\<exists>effects c'. advance n c (quiet @ a # rest) = Some (effects, c', rest)
    \<and> concat (map delivered effects) = answer_data a
    \<and> concat (map requested effects) = uri # concat (map answer_uri quiet)"
  using assms
proof (induction quiet arbitrary: c uri)
  case Nil
  show ?case
  proof (cases a)
    case (Success r)
    show ?thesis
    proof (cases "rs_data r = None \<and> rs_error r = None")
      case True
      then have "answer_uri (Success r) = []" using Nil.prems(3) Success by (simp add: decisive_def)
      then have "next_uri (c\<lparr>sc_currentResults := Some r\<rparr>) = None" by simp
      then have "advance n (c\<lparr>sc_currentResults := Some r\<rparr>) rest =
          Some ([], c\<lparr>sc_currentResults := Some r, sc_valid := False\<rparr>, rest)" by (cases rest) simp_all
      then show ?thesis using Success Nil.prems(1) True by (simp add: Let_def del: concat_eq_Nil_conv)
    next
      case False
      then show ?thesis using Success Nil.prems(1) by (simp add: Let_def del: concat_eq_Nil_conv)
    qed
  qed (use Nil in simp)
next
  case (Cons q quiet)
  then have "\<not> decisive q" by simp
  then obtain r where q: "q = Success r" "rs_data r = None" "rs_error r = None" "answer_uri q \<noteq> []"
    unfolding decisive_def by (cases q) (simp_all del: not_None_eq)
  then obtain u where u: "answer_uri q = [u]" by (auto split: option.splits if_splits)
  then have "next_uri (c\<lparr>sc_currentResults := Some r\<rparr>) = Some u" using q(1) by simp
  from Cons.IH [OF this] Cons.prems q u show ?case by (fastforce simp: Let_def simp del: concat_eq_Nil_conv)
qed

text \<open>
  One call of \<open>advance\<close> returns as soon as the server gives an answer that carries data, reports an error, fails
  or has no successor; it takes exactly the answers up to that one, requests each at the address the previous answer
  named, and delivers the data of the last one, once: no batch is skipped and none is delivered twice.
\<close>

theorem advance_delivers_next_batch:
  assumes "next_uri client = Some uri" and "\<forall>answer \<in> set quiet. \<not> decisive answer" and "decisive answer"
  shows "\<exists>effects client'. advance n client (quiet @ answer # rest) = Some (effects, client', rest)
    \<and> concat (map delivered effects) = answer_data answer
    \<and> concat (map requested effects) = uri # concat (map answer_uri quiet)"
  using advance_spec [of client uri quiet answer n rest] assms by blast

definition example_response :: "(unit, nat) response" where
  "example_response = \<lparr>rs_nextUri = Some ''/v1/2'', rs_error = None, rs_columns = None, rs_data = None\<rparr>"

definition example_client :: "(unit, nat) client" where
  "example_client = \<lparr>sc_query = ''SELECT 1'', sc_headers = [], sc_currentResults = Some (example_response\<lparr>rs_nextUri := Some ''/v1/1''\<rparr>),
     sc_valid = True\<rparr>"

theorem advance_delivers_next_batch_witness:
  "\<exists>effects client'. advance 0 example_client [Success example_response, Success (example_response\<lparr>rs_data := Some 7\<rparr>), Failed [] []]
      = Some (effects, client', [Failed [] []])
    \<and> concat (map delivered effects) = [7] \<and> concat (map requested effects) = [''/v1/1'', ''/v1/2'']"
  using advance_delivers_next_batch [of example_client "''/v1/1''" "[Success example_response]"
      "Success (example_response\<lparr>rs_data := Some 7\<rparr>)" 0 "[Failed [] []]"]
  by (simp add: example_client_def example_response_def next_uri_def decisive_def)

end
