(* ===== verification/TableauConnector.thy ===== *)
theory TableauConnector
  imports StatementClient JsNumber
begin

text \<open>
  The script of \<open>webapp/tableau/presto-connector.html\<close>: the connector that hands the results of a statement to Tableau,
  on top of the client of StatementClient.  Tableau is outside: what it is told is the list of the calls of its
  interface, without those that only write its log.  An operation returns \<open>None\<close> if it never returns, \<open>Inl\<close> if it raises.
\<close>

section \<open>Values\<close>

datatype json = JNull | JBool bool | JNum jsnum | JStr string | JArr "json list" | JObj "(string \<times> json) list"

text \<open>\<open>JSON.stringify\<close>.\<close>

definition hex_digit :: "nat \<Rightarrow> char" where
  "hex_digit n = char_of (if n < 10 then 48 + n else 87 + n)"

definition escape_char :: "char \<Rightarrow> string" where
  "escape_char c =
     (let n = code_unit c in
      if n = 34 then [CHR 0x5C, c] else if n = 92 then [CHR 0x5C, c]
      else if n = 8 then [CHR 0x5C, CHR ''b''] else if n = 9 then [CHR 0x5C, CHR ''t'']
      else if n = 10 then [CHR 0x5C, CHR ''n''] else if n = 12 then [CHR 0x5C, CHR ''f'']
      else if n = 13 then [CHR 0x5C, CHR ''r'']
      else if n < 32 then CHR 0x5C # ''u00'' @ [hex_digit (n div 16), hex_digit (n mod 16)]
      else [c])"

definition quote_string :: "string \<Rightarrow> string" where
  "quote_string s = CHR 0x22 # concat (map escape_char s) @ [CHR 0x22]"

fun stringify :: "json \<Rightarrow> string" where
  "stringify JNull = ''null''"
| "stringify (JBool b) = (if b then ''true'' else ''false'')"
| "stringify (JNum n) = (if is_num n then num_str n else ''null'')"
| "stringify (JStr s) = quote_string s"
| "stringify (JArr xs) = ''['' @ js_join '','' (map stringify xs) @ '']''"
| "stringify (JObj m) =
     (let members = map (\<lambda>(k, v). (k, quote_string k @ '':'' @ stringify v)) m in
      ''{'' @ js_join '','' (map (\<lambda>k. the (map_of members k)) (object_keys members)) @ ''}'')"

record column =
  col_name :: string
  col_type :: string

text \<open>\<open>object[name] = value\<close>; assigning \<open>__proto__\<close> makes no member.\<close>

definition set_member :: "(string \<times> 'a) list \<Rightarrow> string \<Rightarrow> 'a \<Rightarrow> (string \<times> 'a) list" where
  "set_member m name value = (if name = ''__proto__'' then m else obj_set m name value)"

type_synonym batch = "json list list"
type_synonym tc_client = "(column list, batch) client"
type_synonym tc_answer = "(column list, batch) answer"

section \<open>State\<close>

text \<open>A cell of a row that is shorter than the columns is \<open>undefined\<close>.\<close>

datatype tableau_call =
    HeadersCallback "string list" "string list"
  | TableCallback "(string \<times> json option) list list" int bool
  | AbortWithError string

record connector =
  tc_headersPushed :: bool
  tc_statementClient :: "tc_client option"
  tc_getTableDataCalled :: bool
  tc_buffer :: "batch list"
  tc_schema :: "column list option"
  tc_errorName :: "string option"
  tc_errorMessage :: "string option"

definition tc_init :: connector where
  "tc_init = \<lparr>tc_headersPushed = False, tc_statementClient = None, tc_getTableDataCalled = False, tc_buffer = [],
     tc_schema = None, tc_errorName = None, tc_errorMessage = None\<rparr>"

section \<open>Callbacks\<close>

definition tableau_type :: "string \<Rightarrow> string" where
  "tableau_type columnType =
     (if columnType = ''boolean'' then ''bool'' else if columnType = ''date'' then ''date'' else ''string'')"

definition pushHeadersToTableau :: "column list option \<Rightarrow> connector \<Rightarrow> tableau_call list \<times> connector" where
  "pushHeadersToTableau columns' s =
     (case columns' of
        Some columns \<Rightarrow>
          if \<not> tc_headersPushed s
          then ([HeadersCallback (map col_name columns) (map (\<lambda>c. tableau_type (col_type c)) columns)],
                s\<lparr>tc_schema := Some columns, tc_headersPushed := True\<rparr>)
          else ([], s)
      | None \<Rightarrow> ([], s))"

definition isComplexType :: "string \<Rightarrow> bool" where
  "isComplexType typeName \<longleftrightarrow> indexOf typeName ''map'' = 0 \<or> indexOf typeName ''array'' = 0 \<or> indexOf typeName ''row'' = 0"

definition cell_value :: "column \<Rightarrow> json option \<Rightarrow> json option" where
  "cell_value column value = (if isComplexType (col_type column) then map_option (\<lambda>v. JStr (stringify v)) value else value)"

definition tableau_row :: "column list \<Rightarrow> json list \<Rightarrow> (string \<times> json option) list" where
  "tableau_row columns dataArray =
     foldl (\<lambda>row j. set_member row (col_name (columns ! j))
         (cell_value (columns ! j) (if j < length dataArray then Some (dataArray ! j) else None)))
       [] [0..<length columns]"

definition pushDataToTableau :: "batch \<Rightarrow> column list option \<Rightarrow> int \<Rightarrow> connector \<Rightarrow> exn + tableau_call list \<times> connector" where
  "pushDataToTableau data columns' lastRecordNumber s =
     (if length data > 0 then
        (if \<not> tc_getTableDataCalled s then Inr ([], s\<lparr>tc_buffer := tc_buffer s @ [data]\<rparr>)
         else res_map (\<lambda>columns. ([TableCallback (map (tableau_row columns) data) lastRecordNumber True], s))
           (res_of_option TypeError columns'))
      else Inr ([], s))"

definition errorHandler :: "string \<Rightarrow> string \<Rightarrow> connector \<Rightarrow> connector" where
  "errorHandler errName errMessage s = s\<lparr>tc_errorName := Some errName, tc_errorMessage := Some errMessage\<rparr>"

text \<open>The client calls back in the order of its effects.\<close>

fun call_back :: "(column list, batch) effect \<Rightarrow> connector \<Rightarrow> exn + tableau_call list \<times> connector" where
  "call_back (ErrorCallback errName errMessage) s = Inr ([], errorHandler errName errMessage s)"
| "call_back (HeaderCallback columns) s = Inr (pushHeadersToTableau columns s)"
| "call_back (DataCallback data columns lastRecordNumber) s = pushDataToTableau data columns lastRecordNumber s"
| "call_back (POST uri headers body) s = Inr ([], s)"
| "call_back (GET uri headers) s = Inr ([], s)"

fun call_backs :: "(column list, batch) effect list \<Rightarrow> connector \<Rightarrow> exn + tableau_call list \<times> connector" where
  "call_backs [] s = Inr ([], s)"
| "call_backs (e # es) s =
     res_bind (call_back e s) (\<lambda>(calls, s'). res_map (\<lambda>(later, s''). (calls @ later, s'')) (call_backs es s'))"

text \<open>A method of the client, run with its callbacks.\<close>

definition run_client :: "((column list, batch) effect list \<times> tc_client \<times> tc_answer list) option \<Rightarrow> connector
    \<Rightarrow> (exn + tableau_call list \<times> connector \<times> tc_answer list) option" where
  "run_client outcome s =
     (case outcome of None \<Rightarrow> None
      | Some (effects, client, answers) \<Rightarrow>
          Some (res_map (\<lambda>(calls, s'). (calls, s'\<lparr>tc_statementClient := Some client\<rparr>, answers)) (call_backs effects s)))"

definition client_advance :: "int \<Rightarrow> connector \<Rightarrow> tc_answer list \<Rightarrow> (exn + tableau_call list \<times> connector \<times> tc_answer list) option" where
  "client_advance lastRecordNumber s answers =
     (case tc_statementClient s of None \<Rightarrow> Some (Inl TypeError)
      | Some client \<Rightarrow> run_client (advance lastRecordNumber client answers) s)"

section \<open>Operations Tableau calls\<close>

definition null_text :: "string option \<Rightarrow> string" where
  "null_text t = (case t of None \<Rightarrow> ''null'' | Some s \<Rightarrow> s)"

definition truthy_text :: "string option \<Rightarrow> bool" where
  "truthy_text t \<longleftrightarrow> t \<noteq> None \<and> t \<noteq> Some []"

text \<open>The loop that waits for the headers.\<close>

partial_function (option) header_loop :: "tableau_call list \<Rightarrow> connector \<Rightarrow> tc_answer list
    \<Rightarrow> (exn + tableau_call list \<times> connector \<times> tc_answer list) option" where
  "header_loop calls s answers =
     (if tc_headersPushed s \<or> truthy_text (tc_errorMessage s) then Some (Inr (calls, s, answers))
      else Option.bind (client_advance 0 s answers) (\<lambda>r.
        if isl r then Some r
        else header_loop (calls @ fst (projr r)) (fst (snd (projr r))) (snd (snd (projr r)))))"

declare header_loop.simps [code]

definition header_result :: "tableau_call list \<times> connector \<times> tc_answer list \<Rightarrow> tableau_call list \<times> connector \<times> tc_answer list" where
  "header_result r =
     (case r of (calls, s, answers) \<Rightarrow>
        if truthy_text (tc_errorMessage s)
        then (calls @ [AbortWithError (''Error: ['' @ null_text (tc_errorName s) @ '']: ''
                @ the (tc_errorMessage s))], s, answers)
        else r)"

definition getColumnHeaders :: "connection_data \<Rightarrow> connector \<Rightarrow> tc_answer list
    \<Rightarrow> (exn + tableau_call list \<times> connector \<times> tc_answer list) option" where
  "getColumnHeaders connectionData s answers =
     (case StatementClient connectionData answers of
        Inl e \<Rightarrow> Some (Inl e)
      | Inr outcome \<Rightarrow>
          Option.bind (run_client outcome s) (\<lambda>r.
            case r of Inl e \<Rightarrow> Some (Inl e)
            | Inr (calls, s', rest) \<Rightarrow> map_option (res_map header_result) (header_loop calls s' rest)))"

definition getTableData :: "int \<Rightarrow> connector \<Rightarrow> tc_answer list \<Rightarrow> (exn + tableau_call list \<times> connector \<times> tc_answer list) option" where
  "getTableData lastRecordNumber s0 answers =
     (let s = s0\<lparr>tc_getTableDataCalled := True\<rparr> in
      case tc_buffer s of
        data # rest \<Rightarrow>
          Some (res_map (\<lambda>(calls, s'). (calls, s', answers))
            (pushDataToTableau data (tc_schema s) lastRecordNumber (s\<lparr>tc_buffer := rest\<rparr>)))
      | [] \<Rightarrow>
          map_option (res_map (\<lambda>(calls, s', answers).
              if \<not> sc_valid (the (tc_statementClient s')) then (calls @ [TableCallback [] lastRecordNumber False], s', answers)
              else (calls, s', answers)))
            (client_advance lastRecordNumber s answers))"

section \<open>Catalogs and schemas\<close>

text \<open>A value where the page needs text; inside an array \<open>null\<close> is empty.\<close>

fun json_text :: "json \<Rightarrow> string" where
  "json_text JNull = ''null''"
| "json_text (JBool b) = (if b then ''true'' else ''false'')"
| "json_text (JNum n) = num_str n"
| "json_text (JStr s) = s"
| "json_text (JArr xs) = js_join '','' (map (\<lambda>x. if x = JNull then [] else json_text x) xs)"
| "json_text (JObj m) = ''[object Object]''"

text \<open>The clients of the form report errors to the same handler; they ignore the headers.\<close>

fun report_error :: "(column list, batch) effect \<Rightarrow> connector \<Rightarrow> connector" where
  "report_error (ErrorCallback errName errMessage) s = errorHandler errName errMessage s"
| "report_error e s = s"

partial_function (option) populate_loop :: "batch list \<Rightarrow> tc_client \<Rightarrow> connector \<Rightarrow> tc_answer list
    \<Rightarrow> (batch list \<times> connector \<times> tc_answer list) option" where
  "populate_loop batches client s answers =
     (if sc_valid client then
        Option.bind (advance 0 client answers) (\<lambda>r.
          populate_loop (batches @ concat (map delivered (fst r))) (fst (snd r)) (fold report_error (fst r) s) (snd (snd r)))
      else Some (batches, s, answers))"

definition populate :: "connection_data \<Rightarrow> connector \<Rightarrow> tc_answer list \<Rightarrow> (string list \<times> connector \<times> tc_answer list) option" where
  "populate connectionData s answers =
     (case StatementClient connectionData answers of
        Inr (Some (effects, client, rest)) \<Rightarrow>
          map_option (\<lambda>(batches, s', rest'). (map (\<lambda>row. json_text (JArr row)) (concat batches), s', rest'))
            (populate_loop (concat (map delivered effects)) client (fold report_error effects s) rest)
      | _ \<Rightarrow> None)"

definition catalogs_request :: connection_data where
  "catalogs_request = \<lparr>cd_query = ''show catalogs'', cd_catalog = None, cd_schema = None, cd_userName = None, cd_sessionParameters = None\<rparr>"

definition schemas_request :: "string option \<Rightarrow> connection_data" where
  "schemas_request catalogName = \<lparr>cd_query = ''show schemas'', cd_catalog = catalogName, cd_schema = Some ''default'',
     cd_userName = None, cd_sessionParameters = None\<rparr>"

text \<open>The options the selections get; those of the schemas carry whether they are selected.\<close>

definition populateCatalogs :: "connector \<Rightarrow> tc_answer list \<Rightarrow> (string list \<times> connector \<times> tc_answer list) option" where
  "populateCatalogs s answers = populate catalogs_request s answers"

definition populateSchemas :: "string option \<Rightarrow> connector \<Rightarrow> tc_answer list
    \<Rightarrow> ((string \<times> bool) list \<times> connector \<times> tc_answer list) option" where
  "populateSchemas catalogName s answers =
     map_option (\<lambda>(schemas, s', rest). (map (\<lambda>schema. (schema, schema = ''default'')) schemas, s', rest))
       (populate (schemas_request catalogName) s answers)"

text \<open>Loading the page: the first catalog is the one selected.\<close>

definition load_selections :: "connector \<Rightarrow> tc_answer list
    \<Rightarrow> (string list \<times> (string \<times> bool) list \<times> connector \<times> tc_answer list) option" where
  "load_selections s answers =
     Option.bind (populateCatalogs s answers) (\<lambda>(catalogs, s', rest).
       map_option (\<lambda>(schemas, s'', rest'). (catalogs, schemas, s'', rest'))
         (populateSchemas (case catalogs of [] \<Rightarrow> None | c # cs \<Rightarrow> Some c) s' rest))"

section \<open>The form\<close>

text \<open>
  The rows of the session parameters: the number in the identifiers of a row, the values of its inputs, and how many
  click handlers its link has.  What inputs a browser makes of markup is the parameter \<open>html_inputs\<close>.
\<close>

record parameter_row =
  pr_number :: int
  pr_inputs :: "string list"
  pr_handlers :: nat

record form =
  fm_rows :: "parameter_row list"
  fm_sessionParameterCount :: int

definition form_init :: form where
  "form_init = \<lparr>fm_rows = [], fm_sessionParameterCount = 0\<rparr>"

definition int_text :: "int \<Rightarrow> string" where
  "int_text n = (if n < 0 then CHR ''-'' # nat_str (nat (- n)) else nat_str (nat n))"

definition parameter_markup :: "int \<Rightarrow> string \<Rightarrow> string \<Rightarrow> string" where
  "parameter_markup sessionParameterCount name value =
     (let q = [CHR 0x22]; n = int_text sessionParameterCount in
      ''<p><label for='' @ q @ ''sessionParameters'' @ q @ ''><input type='' @ q @ ''text'' @ q @ '' id='' @ q @ ''name_'' @ n @ q
      @ '' size='' @ q @ ''30'' @ q @ '' value='' @ q @ name @ q @ '' placeholder='' @ q @ ''name'' @ q @ ''/>''
      @ ''<input type='' @ q @ ''text'' @ q @ '' id='' @ q @ ''value_'' @ n @ q @ '' size='' @ q @ ''20'' @ q
      @ '' value='' @ q @ value @ q @ '' placeholder='' @ q @ ''value'' @ q @ '' /></label> ''
      @ ''<a href='' @ q @ ''#'' @ q @ '' id='' @ q @ ''removeSessionProp_'' @ n @ q @ ''>X</a></p>'')"

text \<open>An identifier selects the first element that has it.\<close>

fun attach_handler :: "int \<Rightarrow> parameter_row list \<Rightarrow> parameter_row list" where
  "attach_handler n [] = []"
| "attach_handler n (r # rs) = (if pr_number r = n then r\<lparr>pr_handlers := Suc (pr_handlers r)\<rparr> # rs else r # attach_handler n rs)"

definition addSessionParameterToForm :: "(string \<Rightarrow> string list) \<Rightarrow> string \<Rightarrow> string \<Rightarrow> form \<Rightarrow> form" where
  "addSessionParameterToForm html_inputs name value f =
     (let n = fm_sessionParameterCount f in
      f\<lparr>fm_rows := attach_handler n (fm_rows f @
           [\<lparr>pr_number = n, pr_inputs = html_inputs (parameter_markup n name value), pr_handlers = 0\<rparr>]),
        fm_sessionParameterCount := n + 1\<rparr>)"

text \<open>A click on the link of a row runs every handler of that link.\<close>

definition remove_parameter :: "nat \<Rightarrow> form \<Rightarrow> form" where
  "remove_parameter i f =
     (if i < length (fm_rows f) \<and> pr_handlers (fm_rows f ! i) > 0
      then f\<lparr>fm_rows := take i (fm_rows f) @ drop (Suc i) (fm_rows f),
             fm_sessionParameterCount := fm_sessionParameterCount f - int (pr_handlers (fm_rows f ! i))\<rparr>
      else f)"

definition restore_parameters :: "(string \<Rightarrow> string list) \<Rightarrow> (string \<times> string) list \<Rightarrow> form \<Rightarrow> form" where
  "restore_parameters html_inputs parameterMap f =
     fold (\<lambda>name. addSessionParameterToForm html_inputs name (the (obj_get parameterMap name))) (object_keys parameterMap) f"

definition form_inputs :: "form \<Rightarrow> string list" where
  "form_inputs f = concat (map pr_inputs (fm_rows f))"

text \<open>The inputs of the session parameters alternate between names and values.\<close>

fun collect_parameters :: "string list \<Rightarrow> (string \<times> string option) list \<Rightarrow> (string \<times> string option) list" where
  "collect_parameters [] parameters = parameters"
| "collect_parameters [paramName] parameters = set_member parameters paramName None"
| "collect_parameters (paramName # value # inputs) parameters =
     collect_parameters inputs (set_member (set_member parameters paramName None) paramName (Some value))"

text \<open>
  Submitting the form: the new state, the connection data and name Tableau stores, and whether the form is handed to
  Tableau.  The connection data goes through \<open>JSON.stringify\<close> and \<open>JSON.parse\<close> unchanged; a \<open>null\<close> in it is only
  ever read as text, in the headers of the client.
\<close>

definition submit_form :: "string list \<Rightarrow> string \<Rightarrow> string option \<Rightarrow> string option \<Rightarrow> string \<Rightarrow> string \<Rightarrow> connector
    \<Rightarrow> connector \<times> connection_data \<times> string \<times> bool" where
  "submit_form inputs query schema catalog userName dataSourceName s =
     (s\<lparr>tc_statementClient := None, tc_headersPushed := False\<rparr>,
      \<lparr>cd_query = query, cd_catalog = Some (null_text catalog), cd_schema = Some (null_text schema), cd_userName = Some userName,
       cd_sessionParameters = Some (Inr (map (\<lambda>(k, v). (k, null_text v)) (collect_parameters inputs [])))\<rparr>,
      dataSourceName,
      query \<noteq> [] \<and> truthy_text schema \<and> truthy_text catalog \<and> userName \<noteq> [] \<and> dataSourceName \<noteq> [])"

end
