(* ===== verification/TableauProofs.thy ===== *)
theory TableauProofs
  imports TableauConnector
begin

text \<open>
  The properties of the Tableau connector: that it hands over all the batches of a statement, what happens on errors and
  on statements without columns, and what the form of the session parameters keeps.
\<close>

declare concat_eq_Nil_conv [simp del]

section \<open>Statements that succeed\<close>

text \<open>
  The answers a server gives to the requests of one client, if the statement succeeds: no error, always the same columns,
  columns with all data, data in non-empty batches, and an address of further results in every answer but the last.
\<close>

fun session_ok :: "column list \<Rightarrow> tc_answer list \<Rightarrow> bool" where
  "session_ok cols [] \<longleftrightarrow> False"
| "session_ok cols (Failed t e # as) \<longleftrightarrow> False"
| "session_ok cols (Success r # as) \<longleftrightarrow>
     rs_error r = None \<and> (rs_columns r = None \<or> rs_columns r = Some cols)
     \<and> (case rs_data r of None \<Rightarrow> True | Some d \<Rightarrow> d \<noteq> [] \<and> rs_columns r = Some cols)
     \<and> (if answer_uri (Success r :: tc_answer) = [] then as = [] else session_ok cols as)"

fun has_columns :: "('c, 'd) answer \<Rightarrow> bool" where
  "has_columns (Failed t e) \<longleftrightarrow> False"
| "has_columns (Success r) \<longleftrightarrow> rs_columns r \<noteq> None"

definition ready :: "column list \<Rightarrow> tc_client \<Rightarrow> tc_answer list \<Rightarrow> bool" where
  "ready cols c as \<longleftrightarrow> (if next_uri c = None then as = [] else session_ok cols as)"

fun good_effect :: "column list \<Rightarrow> int \<Rightarrow> (column list, batch) effect \<Rightarrow> bool" where
  "good_effect cols n (ErrorCallback a b) \<longleftrightarrow> False"
| "good_effect cols n (HeaderCallback c) \<longleftrightarrow> c = None \<or> c = Some cols"
| "good_effect cols n (DataCallback d c m) \<longleftrightarrow> d \<noteq> [] \<and> c = Some cols \<and> m = n"
| "good_effect cols n e \<longleftrightarrow> True"

abbreviation batches_of :: "tc_answer list \<Rightarrow> batch list" where
  "batches_of as \<equiv> concat (map answer_data as)"

abbreviation delivers :: "(column list, batch) effect list \<Rightarrow> batch list" where
  "delivers effects \<equiv> concat (map delivered effects)"

definition has_header :: "(column list, batch) effect list \<Rightarrow> bool" where
  "has_header effects \<longleftrightarrow> (\<exists>e \<in> set effects. case e of HeaderCallback c \<Rightarrow> c \<noteq> None | _ \<Rightarrow> False)"

lemma has_header_simps [simp]:
  "has_header [] \<longleftrightarrow> False"
  "has_header (e # es) \<longleftrightarrow> (case e of HeaderCallback c \<Rightarrow> c \<noteq> None | _ \<Rightarrow> False) \<or> has_header es"
  "has_header (es @ fs) \<longleftrightarrow> has_header es \<or> has_header fs"
  by (auto simp: has_header_def)

lemma handler_good:
  assumes "session_ok cols (Success r # as)"
  shows "list_all (good_effect cols n) (responseHandler r n)"
    and "has_header (responseHandler r n) \<longleftrightarrow> rs_columns r \<noteq> None"
  using assms by (cases "rs_columns r"; cases "rs_data r"; auto simp: responseHandler_def; fail)+

lemma ready_next:
  "session_ok cols (Success r # as) \<Longrightarrow> ready cols (c\<lparr>sc_currentResults := Some r\<rparr>) as"
  by (auto simp: ready_def simp del: answer_uri.simps split: list.splits if_splits)

lemma advance_end: "next_uri c = None \<Longrightarrow> advance n c as = Some ([], c\<lparr>sc_valid := False\<rparr>, as)"
  by (cases as) simp_all

lemma next_uri_valid [simp]: "next_uri (c\<lparr>sc_valid := v\<rparr>) = next_uri c"
  by (simp add: next_uri_def)

definition advanced :: "column list \<Rightarrow> int \<Rightarrow> tc_client \<Rightarrow> tc_answer list \<Rightarrow> (column list, batch) effect list \<Rightarrow> tc_client
    \<Rightarrow> tc_answer list \<Rightarrow> bool" where
  "advanced cols n c as effects c' rest \<longleftrightarrow>
     ready cols c' rest \<and> list_all (good_effect cols n) effects \<and> batches_of as = delivers effects @ batches_of rest
     \<and> (if delivers effects = [] then rest = [] \<and> next_uri c' = None \<and> \<not> sc_valid c'
        else length (delivers effects) = 1 \<and> has_header effects \<and> sc_valid c' = sc_valid c)
     \<and> ((\<exists>a \<in> set as. has_columns a) \<longleftrightarrow> has_header effects \<or> (\<exists>a \<in> set rest. has_columns a))
     \<and> (as \<noteq> [] \<longrightarrow> length rest < length as)"

lemma advance_ready:
  "ready cols c as \<Longrightarrow> \<exists>effects c' rest. advance n c (as @ later) = Some (effects, c', rest @ later) \<and> advanced cols n c as effects c' rest"
proof (induction as arbitrary: c)
  case Nil
  then have "next_uri c = None" by (auto simp: ready_def split: if_splits)
  then show ?case by (auto simp: advance_end advanced_def ready_def)
next
  case (Cons a as)
  then obtain uri where uri: "next_uri c = Some uri" and ok: "session_ok cols (a # as)"
    by (auto simp: ready_def split: if_splits)
  then obtain r where a: "a = Success r" by (cases a) auto
  let ?c = "c\<lparr>sc_currentResults := Some r\<rparr>"
  note good = handler_good [OF ok [unfolded a], of n]
  have next': "ready cols ?c as" using ok a ready_next by blast
  have noerr: "rs_error r = None" using ok a by simp
  show ?case
  proof (cases "rs_data r")
    case None
    from Cons.IH [OF next'] obtain effects c' rest
      where IH: "advance n ?c (as @ later) = Some (effects, c', rest @ later)" "advanced cols n ?c as effects c' rest" by blast
    let ?effects = "GET uri (sc_headers c) # responseHandler r n @ effects"
    have "advance n c ((a # as) @ later) = Some (?effects, c', rest @ later)"
      using uri a None noerr IH(1) by (simp add: Let_def)
    moreover have "advanced cols n c (a # as) ?effects c' rest"
      using IH(2) good a None by (auto simp: advanced_def split: if_splits)
    ultimately show ?thesis by blast
  next
    case (Some d)
    let ?effects = "GET uri (sc_headers c) # responseHandler r n"
    have "advance n c ((a # as) @ later) = Some (?effects, ?c, as @ later)"
      using uri a Some by (simp add: Let_def)
    moreover have "advanced cols n c (a # as) ?effects ?c as"
      using next' good a Some ok by (auto simp: advanced_def)
    ultimately show ?thesis by blast
  qed
qed

section \<open>Callbacks\<close>

definition table_call :: "column list \<Rightarrow> batch \<Rightarrow> int \<Rightarrow> tableau_call" where
  "table_call cols d n = TableCallback (map (tableau_row cols) d) n True"

definition header_call :: "column list \<Rightarrow> tableau_call" where
  "header_call cols = HeadersCallback (map col_name cols) (map (\<lambda>c. tableau_type (col_type c)) cols)"

lemma call_backs_table:
  assumes "list_all (good_effect cols n) effects" and "tc_getTableDataCalled s" and "tc_headersPushed s"
  shows "call_backs effects s = Inr (map (\<lambda>d. table_call cols d n) (delivers effects), s)"
  using assms
proof (induction effects)
  case (Cons e effects)
  then show ?case
    by (cases e) (auto simp: pushHeadersToTableau_def pushDataToTableau_def table_call_def split: option.splits)
qed simp

lemma call_backs_buffer:
  assumes "list_all (good_effect cols n) effects" and "\<not> tc_getTableDataCalled s"
  shows "call_backs effects s = Inr (if has_header effects \<and> \<not> tc_headersPushed s then [header_call cols] else [],
    s\<lparr>tc_buffer := tc_buffer s @ delivers effects, tc_headersPushed := tc_headersPushed s \<or> has_header effects,
      tc_schema := if has_header effects \<and> \<not> tc_headersPushed s then Some cols else tc_schema s\<rparr>)"
  using assms
proof (induction effects arbitrary: s)
  case (Cons e effects)
  then show ?case
    by (cases e) (auto simp: pushHeadersToTableau_def pushDataToTableau_def header_call_def split: option.splits)
qed simp

section \<open>Downloading a table\<close>

abbreviation undelivered :: "connector \<Rightarrow> tc_answer list \<Rightarrow> batch list" where
  "undelivered s as \<equiv> tc_buffer s @ batches_of as"

definition tc_ready :: "column list \<Rightarrow> connector \<Rightarrow> tc_answer list \<Rightarrow> bool" where
  "tc_ready cols s as \<longleftrightarrow> tc_headersPushed s \<and> tc_schema s = Some cols \<and> [] \<notin> set (tc_buffer s)
     \<and> (\<exists>c. tc_statementClient s = Some c \<and> ready cols c as \<and> (sc_valid c \<or> undelivered s as = []))"

lemma getTableData_buffered:
  assumes "tc_ready cols s as" and "tc_buffer s = b # bs"
  shows "\<exists>s'. getTableData n s (as @ later) = Some (Inr ([table_call cols b n], s', as @ later))
    \<and> tc_ready cols s' as \<and> undelivered s' as = bs @ batches_of as"
  using assms by (auto simp: getTableData_def tc_ready_def pushDataToTableau_def table_call_def Let_def)

lemma getTableData_fetched:
  assumes "tc_ready cols s as" and "tc_buffer s = []"
  shows "\<exists>s' rest. getTableData n s (as @ later) = Some (Inr (
      case batches_of as of [] \<Rightarrow> [TableCallback [] n False] | b # bs \<Rightarrow> [table_call cols b n], s', rest @ later))
    \<and> (case batches_of as of [] \<Rightarrow> rest = [] | b # bs \<Rightarrow> tc_ready cols s' rest \<and> undelivered s' rest = bs)"
proof -
  from assms obtain c where c: "tc_statementClient s = Some c" "sc_valid c \<or> batches_of as = []" "ready cols c as" by (auto simp: tc_ready_def)
  from advance_ready [OF c(3), of n later] obtain effects c' rest
    where adv: "advance n c (as @ later) = Some (effects, c', rest @ later)" "advanced cols n c as effects c' rest" by blast
  let ?s = "s\<lparr>tc_getTableDataCalled := True, tc_statementClient := Some c'\<rparr>"
  have "call_backs effects (s\<lparr>tc_getTableDataCalled := True\<rparr>) =
      Inr (map (\<lambda>d. table_call cols d n) (delivers effects), s\<lparr>tc_getTableDataCalled := True\<rparr>)"
    using adv(2) assms(1) by (intro call_backs_table) (auto simp: advanced_def tc_ready_def)
  then have run: "getTableData n s (as @ later) = Some (Inr (map (\<lambda>d. table_call cols d n) (delivers effects)
      @ (if sc_valid c' then [] else [TableCallback [] n False]), ?s, rest @ later))"
    using c adv(1) assms(2) by (simp add: getTableData_def client_advance_def run_client_def Let_def)
  show ?thesis
  proof (cases "delivers effects")
    case Nil
    then have "batches_of as = [] \<and> rest = [] \<and> \<not> sc_valid c'"
      using adv(2) by (auto simp: advanced_def)
    then show ?thesis using run Nil by auto
  next
    case (Cons d ds)
    then have "ds = []" "sc_valid c'" "batches_of as = d # batches_of rest" "ready cols c' rest"
      using adv(2) c(2) by (auto simp: advanced_def)
    then show ?thesis using run Cons assms by (auto simp: tc_ready_def)
  qed
qed

text \<open>Tableau asks for data again and again, with the number of its last record.\<close>

fun table_run :: "int list \<Rightarrow> connector \<Rightarrow> tc_answer list \<Rightarrow> (exn + tableau_call list \<times> connector \<times> tc_answer list) option" where
  "table_run [] s answers = Some (Inr ([], s, answers))"
| "table_run (n # ns) s answers =
     Option.bind (getTableData n s answers) (\<lambda>r. case r of Inl e \<Rightarrow> Some (Inl e)
       | Inr (calls, s', rest) \<Rightarrow> map_option (res_map (\<lambda>(later, s'', rest'). (calls @ later, s'', rest'))) (table_run ns s' rest))"

lemma table_run_complete:
  assumes "tc_ready cols s as" and "length ns = length (undelivered s as)"
  shows "\<exists>s'. table_run (ns @ [n]) s (as @ later) =
    Some (Inr (map2 (table_call cols) (undelivered s as) ns @ [TableCallback [] n False], s', later))"
  using assms
proof (induction ns arbitrary: s as)
  case Nil
  then have "tc_buffer s = []" "batches_of as = []" by auto
  with getTableData_fetched [OF Nil.prems(1), of n later] show ?case by auto
next
  case (Cons m ns)
  then obtain b bs where u: "undelivered s as = b # bs" by (cases "undelivered s as") auto
  have "\<exists>s' rest. getTableData m s (as @ later) = Some (Inr ([table_call cols b m], s', rest @ later))
    \<and> tc_ready cols s' rest \<and> undelivered s' rest = bs"
  proof (cases "tc_buffer s")
    case Nil
    with getTableData_fetched [OF Cons.prems(1), of m later] u show ?thesis by auto
  next
    case (Cons b' bs')
    with getTableData_buffered [OF Cons.prems(1) Cons, of m later] u show ?thesis by fastforce
  qed
  then obtain s' rest where step: "getTableData m s (as @ later) = Some (Inr ([table_call cols b m], s', rest @ later))"
    and next': "tc_ready cols s' rest" "undelivered s' rest = bs" by blast
  with Cons.IH [OF next'(1)] Cons.prems(2) u show ?case by auto
qed

section \<open>Fetching the headers\<close>

lemma header_loop_done:
  "tc_headersPushed s \<or> truthy_text (tc_errorMessage s) \<Longrightarrow> header_loop calls s as = Some (Inr (calls, s, as))"
  by (subst header_loop.simps) simp

lemma header_loop_step:
  "\<not> tc_headersPushed s \<Longrightarrow> \<not> truthy_text (tc_errorMessage s) \<Longrightarrow> client_advance 0 s as = Some (Inr (new, s', rest)) \<Longrightarrow>
   header_loop calls s as = header_loop (calls @ new) s' rest"
  by (subst header_loop.simps) simp

definition fresh :: "connector \<Rightarrow> bool" where
  "fresh s \<longleftrightarrow> \<not> tc_headersPushed s \<and> \<not> tc_getTableDataCalled s \<and> tc_buffer s = [] \<and> \<not> truthy_text (tc_errorMessage s)"

lemma good_delivers: "list_all (good_effect cols n) effects \<Longrightarrow> [] \<notin> set (delivers effects)"
proof (induction effects)
  case (Cons e effects)
  then show ?case by (cases e) auto
qed simp

lemma truthy_buffer [simp]: "tc_errorMessage (s\<lparr>tc_buffer := b, tc_headersPushed := h, tc_schema := sch\<rparr>) = tc_errorMessage s"
  by simp

lemma header_loop_ready:
  assumes "fresh s" and "tc_statementClient s = Some c" and "sc_valid c" and "ready cols c as" and "\<exists>a \<in> set as. has_columns a"
  shows "\<exists>s' rest. header_loop [] s (as @ later) = Some (Inr ([header_call cols], s', rest @ later))
    \<and> \<not> truthy_text (tc_errorMessage s') \<and> undelivered s' rest = batches_of as \<and> tc_ready cols s' rest"
proof -
  from advance_ready [OF assms(4), of 0 later] obtain effects c' rest
    where adv: "advance 0 c (as @ later) = Some (effects, c', rest @ later)" "advanced cols 0 c as effects c' rest" by blast
  let ?s = "s\<lparr>tc_buffer := delivers effects, tc_headersPushed := True, tc_schema := Some cols, tc_statementClient := Some c'\<rparr>"
  have header: "has_header effects"
    using adv(2) assms(5) by (auto simp: advanced_def split: if_splits)
  have "client_advance 0 s (as @ later) = Some (Inr ([header_call cols], ?s, rest @ later))"
    using call_backs_buffer [of cols 0 effects s] adv assms(1,2) header
    by (simp add: client_advance_def run_client_def fresh_def advanced_def)
  then have "header_loop [] s (as @ later) = Some (Inr ([header_call cols], ?s, rest @ later))"
    using assms(1) by (simp add: header_loop_step header_loop_done fresh_def)
  moreover have "tc_ready cols ?s rest"
    using adv(2) assms(3) good_delivers [of cols 0 effects]
    by (auto simp: advanced_def tc_ready_def split: if_splits)
  ultimately show ?thesis using adv(2) assms(1) by (fastforce simp: advanced_def fresh_def)
qed

lemma getColumnHeaders_Success:
  assumes "session_parameters cd = Inr ps" and "session_ok cols (Success r # as)" and "\<not> tc_getTableDataCalled s"
    and "\<not> tc_headersPushed s" and "tc_buffer s = []"
  shows "\<exists>c. sc_valid c \<and> ready cols c as \<and> getColumnHeaders cd s (Success r # as @ later) =
    map_option (res_map header_result) (header_loop (if rs_columns r = None then [] else [header_call cols])
      (s\<lparr>tc_buffer := answer_data (Success r :: tc_answer), tc_headersPushed := rs_columns r \<noteq> None,
         tc_schema := if rs_columns r = None then tc_schema s else Some cols, tc_statementClient := Some c\<rparr>) (as @ later))"
proof -
  let ?c = "\<lparr>sc_query = cd_query cd, sc_headers = client_headers cd ps, sc_currentResults = None, sc_valid = True\<rparr> :: tc_client"
  let ?effects = "POST ''/v1/statement'' (sc_headers ?c) (sc_query ?c) # responseHandler r 0"
  have "list_all (good_effect cols 0) ?effects" using handler_good(1) [OF assms(2), of 0] by simp
  from call_backs_buffer [OF this assms(3)] handler_good(2) [OF assms(2), of 0] assms
  have "run_client (submitQuery 0 ?c (Success r # as @ later)) s = Some (Inr (if rs_columns r = None then [] else [header_call cols],
      s\<lparr>tc_buffer := answer_data (Success r :: tc_answer), tc_headersPushed := rs_columns r \<noteq> None,
         tc_schema := if rs_columns r = None then tc_schema s else Some cols,
         tc_statementClient := Some (?c\<lparr>sc_currentResults := Some r\<rparr>)\<rparr>, as @ later))"
    by (simp add: run_client_def)
  then show ?thesis
    using ready_next [OF assms(2), of ?c] assms(1)
    by (intro exI [of _ "?c\<lparr>sc_currentResults := Some r\<rparr>"]) (simp add: getColumnHeaders_def StatementClient_def)
qed

lemma header_result_ok: "\<not> truthy_text (tc_errorMessage s) \<Longrightarrow> header_result (calls, s, as) = (calls, s, as)"
  by (simp add: header_result_def)

lemma getColumnHeaders_ready:
  assumes "fresh s" and "session_parameters cd = Inr ps" and "session_ok cols answers" and "\<exists>a \<in> set answers. has_columns a"
  shows "\<exists>s' rest. getColumnHeaders cd s (answers @ later) = Some (Inr ([header_call cols], s', rest @ later))
    \<and> tc_ready cols s' rest \<and> undelivered s' rest = batches_of answers"
proof -
  obtain r as where answers: "answers = Success r # as" using assms(3) by (cases answers rule: list.exhaust; cases "hd answers") auto
  let ?s = "\<lambda>c. s\<lparr>tc_buffer := answer_data (Success r :: tc_answer), tc_headersPushed := rs_columns r \<noteq> None,
      tc_schema := if rs_columns r = None then tc_schema s else Some cols, tc_statementClient := Some c\<rparr>"
  from getColumnHeaders_Success [of cd ps cols r as s later] assms answers
  obtain c where c: "sc_valid c" "ready cols c as" "getColumnHeaders cd s (answers @ later) =
      map_option (res_map header_result) (header_loop (if rs_columns r = None then [] else [header_call cols]) (?s c) (as @ later))"
    by (auto simp: fresh_def)
  have err: "\<not> truthy_text (tc_errorMessage s)" using assms(1) by (simp add: fresh_def)
  show ?thesis
  proof (cases "rs_columns r")
    case None
    then have nodata: "rs_data r = None" using assms(3) answers by (cases "rs_data r") auto
    have "fresh (?s c)" using assms(1) None nodata by (simp add: fresh_def)
    from header_loop_ready [OF this _ c(1,2), of later] None nodata assms(4) answers c(3) show ?thesis
      by (fastforce simp: header_result_ok)
  next
    case (Some cs)
    then have "tc_ready cols (?s c) as" using assms(3) answers c(1,2) by (auto simp: tc_ready_def split: option.splits)
    moreover have "undelivered (?s c) as = batches_of answers" using answers by simp
    moreover have "getColumnHeaders cd s (answers @ later) = Some (Inr ([header_call cols], ?s c, as @ later))"
      using c(3) Some err by (simp add: header_loop_done header_result_ok)
    ultimately show ?thesis by blast
  qed
qed

lemma header_loop_stuck:
  assumes "tc_statementClient s = Some c" and "next_uri c = None" and "\<not> tc_headersPushed s" and "\<not> truthy_text (tc_errorMessage s)"
  shows "header_loop calls s as = None"
proof (rule ccontr)
  assume "header_loop calls s as \<noteq> None"
  then obtain y where "header_loop calls s as = Some y" by blast
  then have "\<not> (\<exists>c. tc_statementClient s = Some c \<and> next_uri c = None \<and> \<not> tc_headersPushed s \<and> \<not> truthy_text (tc_errorMessage s))"
  proof (rule header_loop.raw_induct [rotated], goal_cases)
    case (1 loop calls s as y)
    show ?case
    proof
      assume "\<exists>c. tc_statementClient s = Some c \<and> next_uri c = None \<and> \<not> tc_headersPushed s \<and> \<not> truthy_text (tc_errorMessage s)"
      then obtain c where c: "tc_statementClient s = Some c" "next_uri c = None" "\<not> tc_headersPushed s" "\<not> truthy_text (tc_errorMessage s)"
        by blast
      then have "client_advance 0 s as = Some (Inr ([], s\<lparr>tc_statementClient := Some (c\<lparr>sc_valid := False\<rparr>)\<rparr>, as))"
        by (simp add: client_advance_def advance_end run_client_def)
      with c 1(2) have "loop calls (s\<lparr>tc_statementClient := Some (c\<lparr>sc_valid := False\<rparr>)\<rparr>) as = Some y" by simp
      from 1(1) [OF this] c show False by simp
    qed
  qed
  with assms show False by blast
qed

lemma getColumnHeaders_stuck:
  assumes "fresh s" and "session_parameters cd = Inr ps" and "session_ok cols answers" and "\<not> (\<exists>a \<in> set answers. has_columns a)"
  shows "getColumnHeaders cd s (answers @ later) = None"
proof -
  let ?t = "s\<lparr>tc_buffer := [], tc_headersPushed := False\<rparr>"
  obtain r as where answers: "answers = Success r # as" using assms(3) by (cases answers rule: list.exhaust; cases "hd answers") auto
  then have none: "rs_columns r = None" "rs_data r = None" using assms(3,4) by (auto split: option.splits)
  from getColumnHeaders_Success [of cd ps cols r as s later] assms answers none
  obtain c where c: "sc_valid c" "ready cols c as" and run: "getColumnHeaders cd s (answers @ later) =
      map_option (res_map header_result) (header_loop [] (?t\<lparr>tc_statementClient := Some c\<rparr>) (as @ later))"
    by (auto simp: fresh_def)
  from advance_ready [OF c(2), of 0 later] obtain effects c' rest
    where adv: "advance 0 c (as @ later) = Some (effects, c', rest @ later)" "advanced cols 0 c as effects c' rest" by blast
  have "\<not> has_header effects" using adv(2) assms(4) answers by (auto simp: advanced_def)
  then have "delivers effects = []" "next_uri c' = None" using adv(2) by (auto simp: advanced_def split: if_splits)
  with \<open>\<not> has_header effects\<close> call_backs_buffer [of cols 0 effects "?t\<lparr>tc_statementClient := Some c\<rparr>"] adv assms(1)
  have "client_advance 0 (?t\<lparr>tc_statementClient := Some c\<rparr>) (as @ later) = Some (Inr ([], ?t\<lparr>tc_statementClient := Some c'\<rparr>, rest @ later))"
    by (simp add: client_advance_def run_client_def fresh_def advanced_def)
  with assms(1) have "header_loop [] (?t\<lparr>tc_statementClient := Some c\<rparr>) (as @ later) = header_loop [] (?t\<lparr>tc_statementClient := Some c'\<rparr>) (rest @ later)"
    by (subst header_loop_step) (auto simp: fresh_def)
  also have "\<dots> = None" using \<open>next_uri c' = None\<close> assms(1) by (intro header_loop_stuck [of _ c']) (auto simp: fresh_def)
  finally show ?thesis using run by simp
qed

section \<open>Catalogs and schemas\<close>

lemma report_good: "list_all (good_effect cols n) effects \<Longrightarrow> fold report_error effects s = s"
proof (induction effects)
  case (Cons e effects)
  then show ?case by (cases e) auto
qed simp

lemma populate_loop_ready:
  "ready cols c as \<Longrightarrow> sc_valid c \<Longrightarrow> populate_loop bs c s (as @ later) = Some (bs @ batches_of as, s, later)"
proof (induction "length (batches_of as)" arbitrary: bs c as rule: less_induct)
  case less
  from advance_ready [OF less.prems(1), of 0 later] obtain effects c' rest
    where adv: "advance 0 c (as @ later) = Some (effects, c', rest @ later)" "advanced cols 0 c as effects c' rest" by blast
  have report: "fold report_error effects s = s" using adv(2) report_good by (auto simp: advanced_def)
  have step: "populate_loop bs c s (as @ later) = populate_loop (bs @ delivers effects) c' s (rest @ later)"
    using less.prems(2) adv(1) report by (subst populate_loop.simps) simp
  show ?case
  proof (cases "delivers effects = []")
    case True
    then have "\<not> sc_valid c'" "rest = []" "batches_of as = []" using adv(2) by (auto simp: advanced_def)
    then have "populate_loop bs c' s later = Some (bs, s, later)" by (subst populate_loop.simps) simp
    then show ?thesis using step True \<open>rest = []\<close> \<open>batches_of as = []\<close> by simp
  next
    case False
    then have "ready cols c' rest" "sc_valid c'" "batches_of as = delivers effects @ batches_of rest"
      using adv(2) less.prems(2) by (auto simp: advanced_def)
    with step False less.hyps [of rest c' "bs @ delivers effects"] show ?thesis by simp
  qed
qed

abbreviation listed :: "tc_answer list \<Rightarrow> string list" where
  "listed answers \<equiv> map (\<lambda>row. json_text (JArr row)) (concat (batches_of answers))"

lemma populate_ready:
  assumes "cd_sessionParameters cd = None" and "session_ok cols answers"
  shows "populate cd s (answers @ later) = Some (listed answers, s, later)"
proof -
  obtain r as where answers: "answers = Success r # as" using assms(2) by (cases answers rule: list.exhaust; cases "hd answers") auto
  let ?c = "\<lparr>sc_query = cd_query cd, sc_headers = client_headers cd [], sc_currentResults = Some r, sc_valid = True\<rparr> :: tc_client"
  have "ready cols ?c as" using ready_next [of cols r as ?c] assms(2) answers by simp
  from populate_loop_ready [OF this] have "populate_loop (answer_data (Success r)) ?c s (as @ later) = Some (batches_of answers, s, later)"
    using answers by simp
  moreover have "fold report_error (responseHandler r 0) s = s" using handler_good(1) [of cols r as 0] report_good assms(2) answers by blast
  ultimately show ?thesis using assms(1) answers by (simp add: populate_def StatementClient_def session_parameters_def)
qed

text \<open>An error that ends a statement at once.\<close>

lemma populate_error:
  assumes "cd_sessionParameters cd = None" and "rs_error r = Some (name, message)" and "rs_nextUri r = None" and "rs_data r = None"
  shows "populate cd s (Success r # later) = Some ([], errorHandler name message s, later)"
proof -
  let ?c = "\<lparr>sc_query = cd_query cd, sc_headers = client_headers cd [], sc_currentResults = Some r, sc_valid = True\<rparr> :: tc_client"
  have "next_uri ?c = None" using assms(3) by (simp add: next_uri_def)
  then have "populate_loop [] ?c t later = Some ([], t, later)" for t
    by (subst populate_loop.simps, subst populate_loop.simps) (simp add: advance_end)
  then show ?thesis using assms
    by (cases "rs_columns r") (simp_all add: populate_def StatementClient_def session_parameters_def responseHandler_def)
qed

lemma getColumnHeaders_aborts:
  assumes "session_parameters cd = Inr ps" and "session_ok cols answers" and "\<not> tc_getTableDataCalled s"
    and "\<not> tc_headersPushed s" and "tc_buffer s = []" and "tc_errorName s = Some name" and "tc_errorMessage s = Some message" and "message \<noteq> []"
  shows "\<exists>calls s' rest. getColumnHeaders cd s answers =
    Some (Inr (calls @ [AbortWithError (''Error: ['' @ name @ '']: '' @ message)], s', rest))"
proof -
  obtain r as where answers: "answers = Success r # as" using assms(2) by (cases answers rule: list.exhaust; cases "hd answers") auto
  from getColumnHeaders_Success [of cd ps cols r as s "[]"] assms answers show ?thesis
    by (auto simp: header_loop_done truthy_text_def header_result_def null_text_def)
qed

section \<open>The form\<close>

definition plain_form :: "form \<Rightarrow> bool" where
  "plain_form f \<longleftrightarrow> map pr_number (fm_rows f) = map int [0..<length (fm_rows f)]
     \<and> list_all (\<lambda>r. pr_handlers r = 1) (fm_rows f) \<and> fm_sessionParameterCount f = int (length (fm_rows f))"

lemma attach_new: "n \<notin> pr_number ` set rs \<Longrightarrow> attach_handler n (rs @ rs') = rs @ attach_handler n rs'"
  by (induction rs) auto

lemma attach_old: "n \<in> pr_number ` set rs \<Longrightarrow> attach_handler n (rs @ rs') = attach_handler n rs @ rs'"
  by (induction rs) auto

lemma length_attach [simp]: "length (attach_handler n rs) = length rs"
  by (induction rs) auto

lemma plain_numbers:
  assumes "plain_form f"
  shows "pr_number ` set (fm_rows f) = int ` {0..<length (fm_rows f)}"
proof -
  have "pr_number ` set (fm_rows f) = set (map pr_number (fm_rows f))" by simp
  also have "\<dots> = set (map int [0..<length (fm_rows f)])" using assms by (simp only: plain_form_def)
  finally show ?thesis by simp
qed

lemma add_plain_eq:
  assumes "plain_form f"
  shows "addSessionParameterToForm html name value f = f\<lparr>fm_rows := fm_rows f @ [\<lparr>pr_number = fm_sessionParameterCount f,
      pr_inputs = html (parameter_markup (fm_sessionParameterCount f) name value), pr_handlers = 1\<rparr>],
    fm_sessionParameterCount := fm_sessionParameterCount f + 1\<rparr>"
proof -
  have "fm_sessionParameterCount f \<notin> pr_number ` set (fm_rows f)"
    using assms unfolding plain_numbers [OF assms] by (auto simp: plain_form_def)
  then show ?thesis by (simp add: addSessionParameterToForm_def Let_def attach_new)
qed

lemma add_plain:
  assumes "plain_form f"
  shows "plain_form (addSessionParameterToForm html name value f)"
    and "form_inputs (addSessionParameterToForm html name value f) =
      form_inputs f @ html (parameter_markup (fm_sessionParameterCount f) name value)"
    and "length (fm_rows (addSessionParameterToForm html name value f)) = Suc (length (fm_rows f))"
  using assms by (simp_all add: add_plain_eq [OF assms]) (simp_all add: plain_form_def form_inputs_def)

lemma plain_init [simp]: "plain_form form_init"
  by (simp add: plain_form_def form_init_def)

abbreviation add_all :: "(string \<Rightarrow> string list) \<Rightarrow> (string \<times> string) list \<Rightarrow> form \<Rightarrow> form" where
  "add_all html ps \<equiv> fold (\<lambda>(name, value). addSessionParameterToForm html name value) ps"

lemma add_all_plain:
  "plain_form f \<Longrightarrow> plain_form (add_all html ps f) \<and> length (fm_rows (add_all html ps f)) = length (fm_rows f) + length ps"
proof (induction ps arbitrary: f)
  case (Cons p ps)
  then show ?case using add_plain [OF Cons.prems] by (cases p) simp
qed simp

lemma add_all_inputs:
  assumes "plain_form f" and "\<And>n name value. (name, value) \<in> set ps \<Longrightarrow> html (parameter_markup n name value) = [name, value]"
  shows "form_inputs (add_all html ps f) = form_inputs f @ concat (map (\<lambda>(name, value). [name, value]) ps)"
  using assms
proof (induction ps arbitrary: f)
  case (Cons p ps)
  obtain name v where p: "p = (name, v)" by (cases p)
  from Cons.IH [OF add_plain(1) [OF Cons.prems(1), of html name v]] Cons.prems(2) add_plain(2) [OF Cons.prems(1)] p
  show ?case by simp
qed simp

lemma added_row_stuck:
  assumes "plain_form f" and "Suc i < length (fm_rows f)" and "f' = addSessionParameterToForm html name value (remove_parameter i f)"
  shows "length (fm_rows f') = length (fm_rows f) \<and> remove_parameter (length (fm_rows f) - 1) f' = f'"
proof -
  let ?k = "length (fm_rows f)" and ?rows = "take i (fm_rows f) @ drop (Suc i) (fm_rows f)"
  let ?new = "\<lparr>pr_number = int ?k - 1, pr_inputs = html (parameter_markup (int ?k - 1) name value), pr_handlers = 0\<rparr>"
  have one: "pr_handlers (fm_rows f ! i) = 1" using assms(1,2) by (simp add: plain_form_def list_all_length)
  have "map pr_number (fm_rows f) ! (?k - 1) = int (?k - 1)" using assms(1,2) by (simp add: plain_form_def)
  then have number: "pr_number (fm_rows f ! (?k - 1)) = int ?k - 1" using assms(2) by auto
  have rest: "drop (Suc i) (fm_rows f) \<noteq> []" "fm_rows f \<noteq> []" using assms(2) by auto
  then have "last (drop (Suc i) (fm_rows f)) = fm_rows f ! (?k - 1)"
    using last_conv_nth [OF rest(2)] by simp
  then have "fm_rows f ! (?k - 1) \<in> set ?rows" using last_in_set [OF rest(1)] by simp
  then have "int ?k - 1 \<in> pr_number ` set ?rows" using number by (metis image_eqI)
  from attach_old [OF this, of "[?new]"]
  have f': "f' = f\<lparr>fm_rows := attach_handler (int ?k - 1) ?rows @ [?new], fm_sessionParameterCount := int ?k\<rparr>"
    using assms one by (simp add: addSessionParameterToForm_def remove_parameter_def Let_def plain_form_def)
  have "length ?rows = ?k - 1" using assms(2) by simp
  then have "(attach_handler (int ?k - 1) ?rows @ [?new]) ! (?k - 1) = ?new" by (metis length_attach nth_append_length)
  then show ?thesis using f' assms(2) by (simp add: remove_parameter_def)
qed

lemma object_keys_again: "map fst m' = object_keys m \<Longrightarrow> object_keys m' = object_keys m"
  by (simp add: object_keys_def filter_sort [symmetric] sort_key_id_if_sorted)

lemma update_last: "map_of m k = None \<Longrightarrow> AList.update k v (m @ [(k, u)]) = m @ [(k, v)]"
  by (induction m) (auto split: if_splits)

lemma collect_pairs:
  assumes "distinct (map fst ps)" and "''__proto__'' \<notin> fst ` set ps" and "fst ` set ps \<inter> fst ` set m = {}"
  shows "collect_parameters (concat (map (\<lambda>(name, value). [name, value]) ps)) m = m @ map (\<lambda>(name, value). (name, Some value)) ps"
  using assms
proof (induction ps arbitrary: m)
  case (Cons p ps)
  obtain name v where p: "p = (name, v)" by (cases p)
  then have "map_of m name = None" using Cons.prems by (auto simp: map_of_eq_None_iff)
  then have "set_member (set_member m name None) name (Some v) = m @ [(name, Some v)]"
    using p Cons.prems(2) by (auto simp: set_member_def obj_set_def update_new update_last)
  with Cons p show ?case by auto
qed simp

lemma restore_inputs:
  assumes "\<And>n name value. (name, value) \<in> set m \<Longrightarrow> html (parameter_markup n name value) = [name, value]" and "obj_ok m"
  shows "form_inputs (restore_parameters html m form_init) =
    concat (map (\<lambda>(name, value). [name, value]) (map (\<lambda>k. (k, the (obj_get m k))) (object_keys m)))"
proof -
  let ?ps = "map (\<lambda>k. (k, the (obj_get m k))) (object_keys m)"
  have mem: "set ?ps \<subseteq> set m" using assms(2) by (auto simp: obj_get_def obj_ok_def)
  have "restore_parameters html m form_init = add_all html ?ps form_init"
    by (simp add: restore_parameters_def fold_map comp_def)
  with add_all_inputs [OF plain_init, of ?ps html] mem assms(1) show ?thesis by (auto simp: form_inputs_def form_init_def)
qed

section \<open>Properties\<close>

text \<open>
  C6: for every statement the server answers without an error, \<open>getColumnHeaders\<close> returns after one call of
  \<open>headersCallback\<close>, and the calls of \<open>getTableData\<close> that follow return and hand Tableau every batch of rows the server
  sent, once each and in order, whether it arrived before or after the headers, then the end of the table.
\<close>

theorem connector_delivers_statement:
  assumes "fresh s" and "session_parameters connectionData = Inr parameters" and "session_ok columns answers"
    and "\<exists>answer \<in> set answers. has_columns answer" and "length ns = length (batches_of answers)"
  shows "\<exists>s1 rest s2. getColumnHeaders connectionData s (answers @ later) = Some (Inr ([header_call columns], s1, rest))
    \<and> table_run (ns @ [n]) s1 rest =
      Some (Inr (map2 (table_call columns) (batches_of answers) ns @ [TableCallback [] n False], s2, later))"
  using getColumnHeaders_ready [OF assms(1-4), of later] table_run_complete [of columns _ _ ns n later] assms(5) by metis

definition example_columns :: "column list" where
  "example_columns = [\<lparr>col_name = ''id'', col_type = ''bigint''\<rparr>, \<lparr>col_name = ''tags'', col_type = ''array(varchar)''\<rparr>]"

definition example_answer :: "string option \<Rightarrow> column list option \<Rightarrow> batch option \<Rightarrow> tc_answer" where
  "example_answer uri columns data = Success \<lparr>rs_nextUri = uri, rs_error = None, rs_columns = columns, rs_data = data\<rparr>"

definition example_session :: "tc_answer list" where
  "example_session = [example_answer (Some ''/1'') None None,
     example_answer (Some ''/2'') (Some example_columns) (Some [[JNum (Fin 1), JArr [JStr ''a'', JNull]]]),
     example_answer None (Some example_columns) (Some [[JNum (Fin 2), JNull], [JNum (Fin 3)]])]"

definition example_request :: connection_data where
  "example_request = \<lparr>cd_query = ''SELECT'', cd_catalog = None, cd_schema = None, cd_userName = None, cd_sessionParameters = None\<rparr>"

lemmas example_session_defs = example_session_def example_answer_def example_columns_def example_request_def
  session_parameters_def fresh_def tc_init_def truthy_text_def

theorem connector_delivers_statement_witness:
  "\<exists>s1 rest s2. getColumnHeaders example_request tc_init example_session =
      Some (Inr ([HeadersCallback [''id'', ''tags''] [''string'', ''string'']], s1, rest))
    \<and> table_run [0, 1, 3] s1 rest = Some (Inr (
      [TableCallback [[(''id'', Some (JNum (Fin 1))), (''tags'', Some (JStr (''['' @ [CHR 0x22] @ ''a'' @ [CHR 0x22] @ '',null]'')))]] 0 True,
       TableCallback [[(''id'', Some (JNum (Fin 2))), (''tags'', Some (JStr ''null''))],
                      [(''id'', Some (JNum (Fin 3))), (''tags'', None)]] 1 True,
       TableCallback [] 3 False], s2, []))"
proof -
  have "header_call example_columns = HeadersCallback [''id'', ''tags''] [''string'', ''string'']"
    by (simp add: header_call_def example_columns_def tableau_type_def)
  moreover have "batches_of example_session = [[[JNum (Fin 1), JArr [JStr ''a'', JNull]]], [[JNum (Fin 2), JNull], [JNum (Fin 3)]]]"
    by (simp add: example_session_defs)
  moreover have "tableau_row example_columns [JNum (Fin 1), JArr [JStr ''a'', JNull]] =
      [(''id'', Some (JNum (Fin 1))), (''tags'', Some (JStr (''['' @ [CHR 0x22] @ ''a'' @ [CHR 0x22] @ '',null]'')))]"
    "tableau_row example_columns [JNum (Fin 2), JNull] = [(''id'', Some (JNum (Fin 2))), (''tags'', Some (JStr ''null''))]"
    "tableau_row example_columns [JNum (Fin 3)] = [(''id'', Some (JNum (Fin 3))), (''tags'', None)]"
    by code_simp+
  ultimately show ?thesis
    using connector_delivers_statement [of tc_init example_request "[]" example_columns example_session "[0, 1]" "[]" 3]
    by (simp add: table_call_def) (simp add: example_session_defs)
qed

text \<open>
  C26: \<open>getColumnHeaders\<close> never returns for a statement that ends without an error and without having named its
  columns: its loop goes on asking a client that has nothing left to ask for, whatever the server would answer later.
\<close>

theorem getColumnHeaders_never_returns:
  assumes "fresh s" and "session_parameters connectionData = Inr parameters" and "session_ok columns answers"
    and "\<not> (\<exists>answer \<in> set answers. has_columns answer)"
  shows "getColumnHeaders connectionData s (answers @ later) = None"
  using getColumnHeaders_stuck [OF assms] .

theorem getColumnHeaders_never_returns_witness:
  "getColumnHeaders example_request tc_init ([example_answer (Some ''/1'') None None, example_answer None None None] @ example_session) = None"
  by (rule getColumnHeaders_never_returns [of _ _ "[]" "[]"]) (simp_all add: example_session_defs)

fun failure :: "tc_answer \<Rightarrow> (string \<times> string) option" where
  "failure (Failed responseText errorStr) = Some (responseText, errorStr)"
| "failure (Success r) = (if rs_data r = None then rs_error r else None)"

lemma getTableData_failure:
  assumes "tc_headersPushed s" and "tc_buffer s = []" and "tc_statementClient s = Some client" and "sc_valid client"
    and "next_uri client = Some uri" and "failure answer = Some (name, message)"
  shows "\<exists>s'. getTableData n s (answer # later) = Some (Inr ([], s', later)) \<and> tc_errorMessage s' = Some message"
proof (cases answer)
  case (Failed t e)
  then show ?thesis using assms by (simp add: getTableData_def client_advance_def run_client_def errorHandler_def Let_def)
next
  case (Success r)
  then have "rs_data r = None" "rs_error r = Some (name, message)" using assms(6) by (auto split: if_splits)
  then show ?thesis using assms Success
    by (cases "rs_columns r")
      (simp_all add: getTableData_def client_advance_def run_client_def errorHandler_def Let_def responseHandler_def pushHeadersToTableau_def)
qed

text \<open>
  C28: an error that ends the download of a table is not passed on.  When the statement fails, or a request for its
  results does, \<open>getTableData\<close> keeps the error and returns without calling Tableau: neither rows, nor the end of the table,
  nor \<open>abortWithError\<close>.
\<close>

theorem download_error_unreported:
  assumes "tc_headersPushed s" and "tc_buffer s = []" and "tc_statementClient s = Some client" and "sc_valid client"
    and "next_uri client = Some uri" and "failure answer = Some (name, message)"
  shows "\<exists>s'. getTableData n s (answer # later) = Some (Inr ([], s', later)) \<and> tc_errorMessage s' = Some message"
  using getTableData_failure [OF assms] .

theorem download_error_unreported_witness:
  "\<exists>s'. getTableData 7 (tc_init\<lparr>tc_headersPushed := True, tc_statementClient := Some \<lparr>sc_query = ''SELECT'', sc_headers = [],
      sc_currentResults = Some \<lparr>rs_nextUri = Some ''/1'', rs_error = None, rs_columns = None, rs_data = None\<rparr>, sc_valid = True\<rparr>\<rparr>)
      [Failed ''gone'' ''Service Unavailable''] = Some (Inr ([], s', [])) \<and> tc_errorMessage s' = Some ''Service Unavailable''"
  by (rule download_error_unreported [where uri = "''/1''" and name = "''gone''"]) (auto simp: tc_init_def next_uri_def)


definition example_schema_failure :: "(column list, batch) response" where
  "example_schema_failure = \<lparr>rs_nextUri = None, rs_error = Some (''GENERIC'', ''down''), rs_columns = None, rs_data = None\<rparr>"


definition plain_text :: "string \<Rightarrow> bool" where
  "plain_text t \<longleftrightarrow> CHR 0x22 \<notin> set t \<and> CHR 0x26 \<notin> set t \<and> list_all (\<lambda>c. code_unit c \<ge> 32) t"

text \<open>
  C13: the session parameters survive a round trip through the form: the rows restored from the connection data of a
  former visit are read back, on submission, as the same parameters, and the client sends the same ones in the same order.
  The browser has to read names and values without quotes, ampersands and control characters back from the markup.
\<close>

theorem session_parameters_roundtrip:
  assumes "\<forall>n name value. plain_text name \<and> plain_text value \<longrightarrow> html_inputs (parameter_markup n name value) = [name, value]"
    and "obj_ok parameterMap" and "''__proto__'' \<notin> fst ` set parameterMap"
    and "\<forall>(name, value) \<in> set parameterMap. plain_text name \<and> plain_text value"
    and "connectionData = fst (snd (submit_form (form_inputs (restore_parameters html_inputs parameterMap form_init))
      query schema catalog userName dataSourceName s))"
  shows "session_parameters connectionData = session_parameters (old\<lparr>cd_sessionParameters := Some (Inr parameterMap)\<rparr>)"
proof -
  let ?ps = "map (\<lambda>k. (k, the (obj_get parameterMap k))) (object_keys parameterMap)"
  have inputs: "form_inputs (restore_parameters html_inputs parameterMap form_init) = concat (map (\<lambda>(name, value). [name, value]) ?ps)"
    using assms(1,2,4) by (intro restore_inputs) auto
  have "distinct (map fst ?ps)" using assms(2) distinct_object_keys by (simp add: comp_def obj_ok_def)
  moreover have "''__proto__'' \<notin> fst ` set ?ps" using assms(3) by force
  ultimately have "collect_parameters (concat (map (\<lambda>(name, value). [name, value]) ?ps)) [] = map (\<lambda>(name, value). (name, Some value)) ?ps"
    using collect_pairs [of ?ps "[]"] by simp
  then have "cd_sessionParameters connectionData = Some (Inr ?ps)"
    using assms(5) inputs by (auto simp: submit_form_def null_text_def comp_def)
  moreover have "object_keys ?ps = object_keys parameterMap" by (rule object_keys_again) (simp add: comp_def)
  moreover have "obj_get ?ps k = Some (the (obj_get parameterMap k))" if "k \<in> set (object_keys parameterMap)" for k
    using that by (simp add: obj_get_def map_of_map_restrict restrict_map_def)
  ultimately show ?thesis by (simp add: session_parameters_def)
qed

definition attribute_reader :: "string \<Rightarrow> string list" where
  "attribute_reader markup = (let parts = js_split (CHR 0x22) markup in [parts ! 9, parts ! 19])"

lemma int_text_plain: "CHR 0x22 \<notin> set (int_text n)"
proof -
  have "CHR 0x22 \<notin> set (nat_str k)" for k using nat_str_digits [of k] by (auto simp: is_digit_def code_unit_def)
  then show ?thesis by (simp add: int_text_def)
qed

lemma attribute_reader_law:
  assumes "plain_text name" and "plain_text v"
  shows "attribute_reader (parameter_markup n name v) = [name, v]"
proof -
  have split: "js_split (CHR 0x22) (w @ CHR 0x22 # u) = w # js_split (CHR 0x22) u" if "CHR 0x22 \<notin> set w" for w u
    using that by (rule js_split_append)
  have "CHR 0x22 \<notin> set name" "CHR 0x22 \<notin> set v" using assms by (auto simp: plain_text_def)
  then show ?thesis using int_text_plain [of n]
    by (simp add: attribute_reader_def parameter_markup_def Let_def split js_split_append)
qed

theorem session_parameters_roundtrip_witness:
  "session_parameters (fst (snd (submit_form (form_inputs (restore_parameters attribute_reader
      [(''join'', ''auto''), (''10'', ''x'')] form_init)) ''SELECT'' None None ''me'' ''ds'' tc_init)))
    = session_parameters (example_request\<lparr>cd_sessionParameters := Some (Inr [(''join'', ''auto''), (''10'', ''x'')])\<rparr>)"
  by (rule session_parameters_roundtrip [where html_inputs = attribute_reader and parameterMap = "[(''join'', ''auto''), (''10'', ''x'')]",
        OF _ _ _ _ refl])
    (auto simp: attribute_reader_law obj_ok_def plain_text_def code_unit_def)



end
