(* ===== verification/Timeline.thy ===== *)
theory Timeline
  imports Identifiers
begin

text \<open>
  The script of \<open>webapp/timeline.html\<close>: the bars that show the life of every task of a query.  The library that draws
  them is outside; the model gives the groups and the items the script adds, in order.
\<close>

section \<open>Data\<close>

text \<open>What the script reads of a query; a time the server has not set yet is \<open>null\<close>.\<close>

record tl_stats =
  tl_createTime :: string
  tl_firstStartTime :: "string option"
  tl_lastStartTime :: "string option"
  tl_lastEndTime :: "string option"
  tl_endTime :: "string option"

record tl_task =
  tl_taskId :: string
  tl_stats :: tl_stats

datatype tl_stage = TlStage (tl_tasks: "tl_task list") (tl_subStages: "tl_stage list")

record tl_query =
  tl_queryId :: string
  tl_outputStage :: "tl_stage option"

record tl_group =
  gr_id :: string
  gr_content :: string
  gr_sort :: string
  gr_subgroupOrder :: string

record tl_item =
  it_group :: string
  it_start :: "string option"
  it_end :: "string option"
  it_className :: string
  it_subgroup :: string
  it_sort :: jsnum

datatype tl_call = AddGroup tl_group | AddItem tl_item

section \<open>The script\<close>

text \<open>
  A string used as a number.  Identifiers are made of digits and points; the exponents, signs, prefixes and white space
  that numbers may have elsewhere are left out.
\<close>

definition string_number :: "string \<Rightarrow> jsnum" where
  "string_number s =
     (let f = tl (dropWhile is_digit s) in
      if s = [] then Fin 0
      else if list_all is_digit s \<or> takeWhile is_digit s \<noteq> [] \<and> hd (dropWhile is_digit s) = CHR ''.'' \<and> list_all is_digit f
           then fl (decimal_val s)
      else NaN)"

fun getTasks :: "tl_stage \<Rightarrow> tl_task list" where
  "getTasks (TlStage tasks subStages) = tasks @ concat (map getTasks subStages)"

definition tl_rename :: "tl_task \<Rightarrow> tl_task" where
  "tl_rename task = task\<lparr>tl_taskId := js_substring_from (tl_taskId task) (indexOf (tl_taskId task) ''.'' + 1)\<rparr>"

definition tl_bar :: "string \<Rightarrow> string \<Rightarrow> string option \<Rightarrow> string option \<Rightarrow> string \<Rightarrow> tl_call" where
  "tl_bar stageId taskNumber start end' className =
     AddItem \<lparr>it_group = stageId, it_start = start, it_end = end', it_className = className, it_subgroup = taskNumber,
       it_sort = js_neg (string_number taskNumber)\<rparr>"

definition task_calls :: "tl_task \<Rightarrow> tl_call list" where
  "task_calls task =
     (let stageId = js_substr (tl_taskId task) 0 (indexOf (tl_taskId task) ''.'');
          taskNumber = js_substr_from (tl_taskId task) (indexOf (tl_taskId task) ''.'' + 1);
          time = tl_stats task
      in (if js_eq (string_number taskNumber) (Fin 0)
          then [AddGroup \<lparr>gr_id = stageId, gr_content = stageId, gr_sort = stageId, gr_subgroupOrder = ''sort''\<rparr>] else [])
         @ [tl_bar stageId taskNumber (Some (tl_createTime time)) (tl_firstStartTime time) ''red'',
            tl_bar stageId taskNumber (tl_firstStartTime time) (tl_lastStartTime time) ''green'',
            tl_bar stageId taskNumber (tl_lastStartTime time) (tl_lastEndTime time) ''blue'',
            tl_bar stageId taskNumber (tl_lastEndTime time) (tl_endTime time) ''orange''])"

definition renderTimeline :: "tl_query \<Rightarrow> exn + tl_call list" where
  "renderTimeline data =
     res_map (\<lambda>outputStage. concat (map task_calls (map tl_rename (getTasks outputStage))))
       (res_of_option TypeError (tl_outputStage data))"

text \<open>The address the page asks for, and what it does with the answer: the title and the bars.  A failed request gives \<open>null\<close>.\<close>

definition timeline_request :: "string \<Rightarrow> string" where
  "timeline_request search = ''/v1/query/'' @ js_substring_from search 1"

definition timeline_loaded :: "tl_query option \<Rightarrow> exn + string \<times> tl_call list" where
  "timeline_loaded answer =
     res_bind (res_of_option TypeError answer) (\<lambda>query. res_map (\<lambda>calls. (tl_queryId query, calls)) (renderTimeline query))"

section \<open>Identifiers\<close>

lemma string_number_decimal:
  "string_number (nat_str a @ CHR ''.'' # nat_str t) = fl (of_nat a + of_nat t / 10 ^ length (nat_str t))"
proof -
  note digits = nat_str_digits [of a]
  have "list_all is_digit (nat_str t)" using nat_str_digits by (simp add: list_all_iff)
  then show ?thesis
    using decimal_val_point [OF digits, of "nat_str t"] takeWhile_digits_point [OF digits, of "nat_str t"]
    by (simp add: string_number_def Let_def)
qed

lemma nat_str_times_ten: "t > 0 \<Longrightarrow> nat_str (10 * t) = nat_str t @ ''0''"
proof -
  assume "t > 0"
  moreover have "digit_char 0 = CHR ''0''" by code_simp
  ultimately show ?thesis by (subst nat_str.simps) simp
qed

lemma task_parts:
  assumes "CHR ''.'' \<notin> set q" and "tl_taskId task = dotted q [stage, attempt, number]"
  shows "js_substr (tl_taskId (tl_rename task)) 0 (indexOf (tl_taskId (tl_rename task)) ''.'') = nat_str stage"
    and "js_substr_from (tl_taskId (tl_rename task)) (indexOf (tl_taskId (tl_rename task)) ''.'' + 1)
      = nat_str attempt @ CHR ''.'' # nat_str number"
proof -
  let ?rest = "nat_str stage @ CHR ''.'' # nat_str attempt @ CHR ''.'' # nat_str number"
  have nd: "CHR ''.'' \<notin> set (nat_str stage)" by (rule nat_str_no_char) simp
  have id: "tl_taskId (tl_rename task) = ?rest"
    using assms indexOf_char [OF assms(1), of ?rest] js_substring_from_drop [of "q @ CHR ''.'' # ?rest" "Suc (length q)"]
    by (simp add: tl_rename_def dotted_def add.commute)
  show "js_substr (tl_taskId (tl_rename task)) 0 (indexOf (tl_taskId (tl_rename task)) ''.'') = nat_str stage"
    unfolding id indexOf_char [OF nd] by (simp add: js_substr_def)
  show "js_substr_from (tl_taskId (tl_rename task)) (indexOf (tl_taskId (tl_rename task)) ''.'' + 1) = nat_str attempt @ CHR ''.'' # nat_str number"
    unfolding id indexOf_char [OF nd] using js_substr_from_drop [of "Suc (length (nat_str stage))" ?rest] by (simp add: add.commute)
qed

section \<open>Bars\<close>

abbreviation attempt_text :: "nat \<Rightarrow> nat \<Rightarrow> string" where
  "attempt_text attempt number \<equiv> nat_str attempt @ CHR ''.'' # nat_str number"

definition task_bars :: "nat \<Rightarrow> string \<Rightarrow> tl_task \<Rightarrow> tl_call list" where
  "task_bars stage number task =
     (let bar = tl_bar (nat_str stage) number; time = tl_stats task in
      [bar (Some (tl_createTime time)) (tl_firstStartTime time) ''red'', bar (tl_firstStartTime time) (tl_lastStartTime time) ''green'',
       bar (tl_lastStartTime time) (tl_lastEndTime time) ''blue'', bar (tl_lastEndTime time) (tl_endTime time) ''orange''])"

fun shown_as :: "string \<Rightarrow> string \<Rightarrow> tl_call \<Rightarrow> bool" where
  "shown_as g sub (AddGroup x) \<longleftrightarrow> False"
| "shown_as g sub (AddItem i) \<longleftrightarrow> it_group i = g \<and> it_subgroup i = sub"

lemma task_calls_dotted:
  assumes "CHR ''.'' \<notin> set q" and "tl_taskId task = dotted q [stage, attempt, number]"
  shows "task_calls (tl_rename task) =
    (if js_eq (string_number (attempt_text attempt number)) (Fin 0)
     then [AddGroup \<lparr>gr_id = nat_str stage, gr_content = nat_str stage, gr_sort = nat_str stage, gr_subgroupOrder = ''sort''\<rparr>] else [])
    @ task_bars stage (attempt_text attempt number) task"
  unfolding task_calls_def task_bars_def Let_def task_parts [OF assms] by (simp add: tl_rename_def)

lemma attempt_text_inject [simp]:
  "attempt_text a n = attempt_text a' n' \<longleftrightarrow> a = a' \<and> n = n'"
proof -
  have "CHR ''.'' \<notin> set (nat_str k)" for k by (rule nat_str_no_char) simp
  then show ?thesis by (simp add: split_at_char)
qed

lemma dotted_inject: "dotted q [s, a, n] = dotted q [s', a', n'] \<longleftrightarrow> s = s' \<and> a = a' \<and> n = n'"
proof -
  have "CHR ''.'' \<notin> set (nat_str k)" for k by (rule nat_str_no_char) simp
  then show ?thesis by (simp add: dotted_def split_at_char)
qed

lemma filter_task_calls:
  assumes "CHR ''.'' \<notin> set q" and "\<forall>t \<in> set ts. \<exists>s a n. tl_taskId t = dotted q [s, a, n]"
  shows "filter (shown_as (nat_str stage) (attempt_text attempt number)) (concat (map task_calls (map tl_rename ts))) =
    concat (map (task_bars stage (attempt_text attempt number)) (filter (\<lambda>t. tl_taskId t = dotted q [stage, attempt, number]) ts))"
  using assms(2)
proof (induction ts)
  case (Cons t ts)
  then obtain s a n where id: "tl_taskId t = dotted q [s, a, n]" by auto
  have "filter (shown_as (nat_str stage) (attempt_text attempt number)) (task_calls (tl_rename t)) =
      (if tl_taskId t = dotted q [stage, attempt, number] then task_bars stage (attempt_text attempt number) t else [])"
    using id by (simp add: task_calls_dotted [OF assms(1) id] task_bars_def tl_bar_def Let_def dotted_inject)
  with Cons show ?case by simp
qed simp

lemma filter_distinct_id:
  "distinct (map f ts) \<Longrightarrow> t \<in> set ts \<Longrightarrow> filter (\<lambda>u. f u = f t) ts = [t]"
proof (induction ts)
  case (Cons u ts)
  then show ?case by (auto simp: filter_empty_conv image_iff)
qed simp

section \<open>Properties\<close>


definition example_tl_task :: "nat \<Rightarrow> nat \<Rightarrow> tl_task" where
  "example_tl_task stage number = \<lparr>tl_taskId = dotted ''q'' [stage, 0, number], tl_stats = \<lparr>tl_createTime = ''1'',
     tl_firstStartTime = Some ''2'', tl_lastStartTime = Some ''3'', tl_lastEndTime = Some ''4'', tl_endTime = None\<rparr>\<rparr>"

definition example_tl_stage :: tl_stage where
  "example_tl_stage = TlStage [example_tl_task 0 0] [TlStage [example_tl_task 1 0, example_tl_task 1 1] []]"


text \<open>
  C31: the bars of a stage are ordered by the text after the stage read as one number, so that task number \<open>n\<close> and task
  number \<open>10 n\<close> of an attempt get the same place; and the group of a stage is only added for a task whose attempt and
  number are both 0, so that after a retry the bars of a stage name a group that is never added.
\<close>

theorem timeline_order_and_groups:
  assumes "CHR ''.'' \<notin> set q"
    and "tl_taskId task = dotted q [stage, attempt, number]" and "tl_taskId task' = dotted q [stage, attempt, 10 * number]" and "0 < number"
    and "tl_taskId retried = dotted q [stage, Suc attempt', number']"
  shows "map it_sort [i. AddItem i \<leftarrow> task_calls (tl_rename task)] = map it_sort [i. AddItem i \<leftarrow> task_calls (tl_rename task')]
    \<and> (\<forall>g. AddGroup g \<notin> set (task_calls (tl_rename retried)))"
proof
  have "string_number (attempt_text attempt (10 * number)) = string_number (attempt_text attempt number)"
    unfolding string_number_decimal using assms(4) by (simp add: nat_str_times_ten)
  then show "map it_sort [i. AddItem i \<leftarrow> task_calls (tl_rename task)] = map it_sort [i. AddItem i \<leftarrow> task_calls (tl_rename task')]"
    by (simp add: task_calls_dotted [OF assms(1,2)] task_calls_dotted [OF assms(1,3)] task_bars_def tl_bar_def Let_def)
  have "(1::rat) \<le> rnd (of_nat (Suc attempt') + of_nat number' / 10 ^ length (nat_str number'))"
    using is_repr_int [of 1] by (intro rnd_ge_repr) simp_all
  then have "string_number (attempt_text (Suc attempt') number') \<noteq> Fin 0"
    unfolding string_number_decimal by (auto simp: fl_def Let_def)
  then show "\<forall>g. AddGroup g \<notin> set (task_calls (tl_rename retried))"
    by (auto simp: task_calls_dotted [OF assms(1,5)] task_bars_def tl_bar_def Let_def js_eq_def)
qed

theorem timeline_order_and_groups_witness:
  "map it_sort [i. AddItem i \<leftarrow> task_calls (tl_rename (example_tl_task 3 1))] =
     map it_sort [i. AddItem i \<leftarrow> task_calls (tl_rename (example_tl_task 3 10))]
    \<and> (\<forall>g. AddGroup g \<notin> set (task_calls (tl_rename ((example_tl_task 3 0)\<lparr>tl_taskId := dotted ''q'' [3, Suc 0, 0]\<rparr>))))"
  by (rule timeline_order_and_groups [of "''q''" _ 3 0 1 _ _ 0 0]) (simp_all add: example_tl_task_def)

end
