(* ===== verification/Spec2Isabelle.thy ===== *)
theory Spec2Isabelle
  imports Format Pages TableauProofs Timeline
begin

text \<open>
  Verification of the web interface of Presto (\<open>presto-main/src/main/resources/webapp\<close>; paths below are relative to it).

  \<^bold>\<open>The program.\<close>  Six pages (\<open>src/index.jsx\<close>, \<open>query.jsx\<close>, \<open>plan.jsx\<close>, \<open>embedded_plan.jsx\<close>, \<open>stage.jsx\<close>, \<open>worker.jsx\<close>)
  mount React components of \<open>src/components\<close>.  Each component polls the coordinator: \<open>refreshLoop\<close> clears the timer and
  sends a request, the answer updates the state, \<open>resetTimer\<close> sets the timer again, and \<open>render\<close> turns the state into
  elements whose handlers change the state or send a request.  All share the functions of \<open>src/utils.js\<close>.  Separate from
  them are two pages with scripts of their own: \<open>timeline.html\<close> shows the tasks of a query as bars, and
  \<open>tableau/presto-connector.html\<close> hands the results of a statement, which the client \<open>tableau/presto-client.js\<close> pulls from
  the coordinator, to Tableau.

  \<^bold>\<open>Conventions.\<close>  Definitions carry the names of the source, with a prefix where several classes use the same
  name (\<open>ql\<close> QueryList, \<open>hud\<close> ClusterHUD, \<open>pt\<close> PageTitle, \<open>ws\<close> WorkerStatus, \<open>wtl\<close> WorkerThreadList, \<open>lp\<close> LivePlan,
  \<open>sd\<close> StageDetail, \<open>ssum\<close> StageSummary, \<open>qd\<close> QueryDetail, \<open>qp\<close> its page, \<open>tc\<close> the Tableau connector, \<open>tl\<close> the timeline).  A class is a record of its state with its timer and its
  outstanding requests; a handler is a function on that state; the handlers of a class together are \<open>*_handle\<close> on a datatype
  of events.  Code that may raise returns \<open>exn + 'a\<close>.  A field the server may leave out is an \<open>option\<close>.  The clock,
  the calendar and the class \<open>URL\<close> of the browser, the address of the page and the answers of the server are arguments.

  \<^bold>\<open>Foundations.\<close>
  \<^item> Prelude: the result type of raising code, generic lemmas on lists.
  \<^item> JsDouble, JsNumber, JsDecimal: numbers as IEEE doubles, rounded to nearest even after every operation, with printing
    and parsing; JsString, JsRegex, JsDate, JsSort, JsObject: the string methods, regular expressions, dates, the stable
    sort and the insertion-ordered objects and maps that the sources use.  JsObject has the locale \<open>ordered_map\<close>,
    interpreted on association lists.
  \<^item> Vdom: React elements as trees; the handlers and keys of a tree.
  \<^item> Polling: the locales \<open>poller\<close> and \<open>live_poller\<close> of a component that polls, with the lemmas that it has one series
    of requests, never stalls, and in a fair run polls until it is done.  Every polling component of the list interprets
    them on its own handlers, except QueryList, which has a step relation of its own with the same properties.
  \<^item> Mounting: handlers split into the changes of the state they make, each of which renders the page, and the unmounting of
    a page whose rendering raises.  The locale \<open>mounted_poller\<close> extends polling to such pages (a sublocale of
    \<open>live_poller\<close>) and shows that an exception during an answer stops a page for good; \<open>fed_page\<close> adds a condition under
    which nothing raises, and shows that the page then stays mounted.

  \<^bold>\<open>Components.\<close>
  \<^item> QueryState, History, Format, ParseUnits, Identifiers: \<open>src/utils.js\<close>.  Colours, states and progress of queries;
    the bounded histories behind the sparklines and their error bounds; the formatters and their accuracy; the two
    parsers of quantities, their regular expression, and what reading a printed size gives back; identifiers, hosts, dates.
  \<^item> QueryList, QueryListSteps, QueryListView: \<open>QueryList.jsx\<close>.  Filters, sorting, refresh and all handlers as a
    transition system; safety of every interleaving; what each operation displays; the page and its query texts.
  \<^item> ClusterHUD, PageTitle, WorkerStatus, WorkerThreadList, QueryHeader: the components of the same names.  Histories that are
    faithful to the samples, the connection status, memory pools, the grouping of threads with the aliasing of the array
    it iterates over, the actions of the header.
  \<^item> QueryInfo: the data of one query, its stages, plans, tasks and failures, and \<open>getChildren\<close> of \<open>utils.js\<close>.
  \<^item> LivePlan: \<open>LivePlan.jsx\<close>.  The calls on the graph as a list, closed under its edges; the unmounting of the page
    by an update that raises.
  \<^item> StageDetail, StageDetailProofs: \<open>StageDetail.jsx\<close>.  The operator graph and its completeness, the menu of stages, the
    selection of a stage against requests under way.
  \<^item> TaskList, StageSummary, QueryDetail, QueryDetailView, QueryDetailProofs: \<open>QueryDetail.jsx\<close>.  The order of tasks,
    histograms, task filters; stack traces, rates, the snapshot of the stages as the refinement of an abstract machine;
    the page and its actions.
  \<^item> MountedPages: the pages of a stage and of a query as they are mounted, with the states of the stage summaries; they
    interpret \<open>fed_page\<close>, agree with \<open>sd_handle\<close> and \<open>qd_handle\<close> while nothing raises, and survive well-formed answers.
  \<^item> StatementClient: \<open>tableau/presto-client.js\<close>, its requests and callbacks as a list of effects.
  \<^item> TableauConnector, TableauProofs: \<open>tableau/presto-connector.html\<close>.  The connector composed with the client: all batches
    reach Tableau once and in order; the statements and errors for which it hangs, aborts or falls silent; the form.
  \<^item> Timeline: \<open>timeline.html\<close>.  The four bars of every task, their order and groups.
  \<^item> Pages: the entry points; this theory has the properties that hold across all pages.

  \<^bold>\<open>Bounds and termination.\<close>  Recursions are structural or have a measure; none uses fuel except the shortest decimal
  of a double, which tries at most the 17 digits that are always enough, and its exponent.  The grouping of threads and
  the loops of the Tableau connector are \<open>partial_function\<close>s, because they need not end; that they return where they should,
  and never where they do not, are theorems.  Statements on
  doubles assume magnitudes in which no operation overflows; the bounds are in the statements.

  \<^bold>\<open>Simplifications.\<close>  A render method that raises unmounts its page.  This is part of the state machines of LivePlan and
  of the pages of a stage and a query; for QueryList and WorkerThreadList the exception is the value of the render
  function, and their state machines go on as long as it does not occur.  The other components never raise while rendering.
  A summary of a stage sorts the tasks of the answer it shows in place; the model returns the sorted stage instead.  Exceptions
  in the callbacks of the Tableau client end the call that caused them.  Characters are those of Latin-1.

  \<^bold>\<open>Not modelled.\<close>  The bundles in \<open>dist\<close> are generated from these sources.  The libraries under \<open>vendor\<close> and the React
  packages are third-party code: what the sources pass to them (drawings of sparklines, calls on a graph, bars of the
  timeline, calls of Tableau, elements) is modelled, what they draw is not.  The static markup of the HTML pages, the two
  functions of \<open>utils.js\<close> that only create an empty graph and an empty drawing, and \<open>webpack.config.js\<close> have no behaviour to
  model.  The coordinator is outside: hypotheses on its answers are named in the statements (for instance
  \<open>error_fields_ok\<close>, \<open>roots_agree\<close>, \<open>stacks_known\<close>, \<open>session_ok\<close>).
\<close>

section \<open>The pages\<close>

text \<open>
  C3: on every page, every component polls in at most one series: however its timer, the answers, the failures and the
  actions of the user interleave, it never has two requests outstanding, and none while its timer is pending.
\<close>

theorem pages_poll_once:
  "\<forall>page \<in> set (pages search). distinct (map snd page) \<and> (\<forall>(c, element) \<in> set page. polls_once search pathname c)"
proof -
  have "distinct (map snd page)" if "page \<in> set (pages search)" for page
    using that by (auto simp: pages_def index_page_def query_page_def plan_page_def embedded_plan_page_def stage_page_def worker_page_def)
  then show ?thesis using every_component_polls_once by auto
qed

theorem pages_poll_once_witness:
  "distinct (map snd worker_page) \<and> ws_requests (ws_handle WS_Error (ws_refreshLoop ws_init)) \<le> 1"
proof -
  have "worker_page \<in> set (pages [])" by (simp add: pages_def)
  then have "distinct (map snd worker_page)" and "polls_once [] [] Mount_WorkerStatus"
    using pages_poll_once [of "[]" "[]"] by (auto simp: worker_page_def)
  moreover have "poll_reach ws_timeout ws_requests ws_refreshLoop (\<lambda>e. True) ws_handle ws_init (ws_handle WS_Error (ws_refreshLoop ws_init))"
    by (intro poll_answer poll_mount) (simp_all add: ws_refreshLoop_def)
  ultimately show ?thesis by (auto simp: one_series_def)
qed

text \<open>
  C5: polling goes on: in a run of a component in which a pending timer fires at last and a request is answered
  or fails at last, the component polls again and again, until the query it watches has ended or an exception has
  unmounted its page; failures of requests never stop it.
\<close>

theorem pages_keep_polling:
  "\<forall>page \<in> set (pages search). \<forall>(c, element) \<in> set page. polls_on search pathname c"
  using every_component_polls_on by auto

theorem pages_keep_polling_witness:
  "\<exists>run acts. fair_run hud_timeout hud_requests hud_refreshLoop hud_answers hud_handle hud_init run acts
     \<and> (\<forall>i. \<exists>j \<ge> i. acts j = Timer)"
proof -
  define waiting where "waiting = hud_refreshLoop hud_init"
  define failed where "failed = hud_handle HUD_Error waiting"
  define run where "run i = (if even i then waiting else failed)" for i :: nat
  define acts where "acts i = (if even i then Event HUD_Error else Timer)" for i :: nat
  have "hud_refreshLoop failed = waiting" "hud_timeout failed" "\<not> hud_timeout waiting" "hud_requests waiting = 1" "hud_requests failed = 0"
    by (simp_all add: failed_def waiting_def hud_refreshLoop_def hud_init_def hud_resetTimer_def)
  then have "fair_run hud_timeout hud_requests hud_refreshLoop hud_answers hud_handle hud_init run acts"
    by (auto simp: fair_run_def run_def acts_def waiting_def failed_def)
  moreover have "polls_on [] [] Mount_ClusterHUD"
    using pages_keep_polling [of "[]" "[]"] by (auto simp: pages_def index_page_def)
  ultimately show ?thesis by (simp add: keeps_polling_def) blast
qed

end
